(* ===== verification/Wreq_Prelude.thy ===== *)
theory Wreq_Prelude
  imports Main "HOL-Library.AList" "HOL-Library.Code_Target_Nat" "HOL-Library.Sublist" "HOL-Library.Product_Lexorder"
begin

text \<open>
  Shared vocabulary of the development: the string operations of the Rust standard library that
  the client uses, hash maps as association lists, bounded counters, and polls of futures.

  Strings are byte strings: one \<^typ>\<open>char\<close> is one byte, as \<^verbatim>\<open>str::len\<close> and byte indexing
  count them.  A hash map is an association list with distinct keys; its list order stands for the
  unspecified iteration order of \<^verbatim>\<open>HashMap\<close>, so a statement about an iteration must hold for
  every order of the list.
\<close>

section \<open>Collections of facts\<close>

named_theorems str_simps \<open>characterisations of the string operations of the standard library\<close>
named_theorems hash_simps \<open>lookups in hash maps after an update\<close>

section \<open>Polls\<close>

datatype 'a poll = Ready 'a | NotReady

type_synonym ('e, 'a) result = "'e + 'a"

section \<open>Line ends\<close>

definition crlf :: string where
  "crlf = [CHR 0x0D, CHR 0x0A]"

section \<open>Characters and ASCII case\<close>

definition ascii_lower :: "char \<Rightarrow> char" where
  "ascii_lower c =
     (let n = (of_char c :: nat) in if 65 \<le> n \<and> n \<le> 90 then char_of (n + 32) else c)"

text \<open>The decimal rendering of a number.\<close>

fun nat_decimal :: "nat \<Rightarrow> string" where
  "nat_decimal n =
     (if n < 10 then [char_of (48 + n)] else nat_decimal (n div 10) @ [char_of (48 + n mod 10)])"

declare nat_decimal.simps [simp del]

text \<open>\<^verbatim>\<open>str::eq_ignore_ascii_case\<close>.\<close>

definition lower :: "string \<Rightarrow> string" where
  "lower s = map ascii_lower s"

definition eq_ignore_ascii_case :: "string \<Rightarrow> string \<Rightarrow> bool" where
  "eq_ignore_ascii_case a b \<longleftrightarrow> lower a = lower b"

lemma length_lower [simp]: "length (lower s) = length s"
  by (simp add: lower_def)

lemma lower_append: "lower (a @ b) = lower a @ lower b"
  by (simp add: lower_def)

lemma lower_Nil_iff [simp]: "lower s = [] \<longleftrightarrow> s = []"
  by (simp add: lower_def)

lemma lower_drop: "lower (drop n s) = drop n (lower s)"
  by (simp add: lower_def drop_map)

lemma eq_ignore_ascii_case_refl [simp]: "eq_ignore_ascii_case s s"
  by (simp add: eq_ignore_ascii_case_def)

lemma eq_ignore_ascii_case_sym: "eq_ignore_ascii_case a b \<longleftrightarrow> eq_ignore_ascii_case b a"
  by (auto simp: eq_ignore_ascii_case_def)

lemma eq_ignore_ascii_case_trans:
  "eq_ignore_ascii_case a b \<Longrightarrow> eq_ignore_ascii_case b c \<Longrightarrow> eq_ignore_ascii_case a c"
  by (simp add: eq_ignore_ascii_case_def)

section \<open>Splitting and trimming\<close>

text \<open>\<^verbatim>\<open>str::starts_with\<close> and \<^verbatim>\<open>str::ends_with\<close> are \<^const>\<open>prefix\<close> and \<^const>\<open>suffix\<close>;
  \<^verbatim>\<open>strip_prefix\<close>, \<^verbatim>\<open>strip_suffix\<close> and the two \<^verbatim>\<open>split_once\<close> variants for a one-byte pattern
  follow.\<close>

fun strip_prefix :: "char \<Rightarrow> string \<Rightarrow> string option" where
  "strip_prefix c [] = None"
| "strip_prefix c (x # xs) = (if x = c then Some xs else None)"

definition strip_suffix :: "char \<Rightarrow> string \<Rightarrow> string option" where
  "strip_suffix c s = (if s \<noteq> [] \<and> last s = c then Some (butlast s) else None)"

fun split_once :: "char \<Rightarrow> string \<Rightarrow> (string \<times> string) option" where
  "split_once c [] = None"
| "split_once c (x # xs) =
     (if x = c then Some ([], xs)
      else map_option (\<lambda>(a, b). (x # a, b)) (split_once c xs))"

definition rsplit_once :: "char \<Rightarrow> string \<Rightarrow> (string \<times> string) option" where
  "rsplit_once c s = map_option (\<lambda>(a, b). (rev b, rev a)) (split_once c (rev s))"

fun split_on :: "char \<Rightarrow> string \<Rightarrow> string list" where
  "split_on c [] = [[]]"
| "split_on c (x # xs) =
     (if x = c then [] # split_on c xs
      else (case split_on c xs of [] \<Rightarrow> [[x]] | p # ps \<Rightarrow> (x # p) # ps))"

definition is_ascii_ws :: "char \<Rightarrow> bool" where
  "is_ascii_ws c \<longleftrightarrow> c \<in> set [CHR '' '', CHR 0x09, CHR 0x0A, CHR 0x0B, CHR 0x0C, CHR 0x0D]"

definition trim :: "string \<Rightarrow> string" where
  "trim s = rev (dropWhile is_ascii_ws (rev (dropWhile is_ascii_ws s)))"

lemma strip_prefix_Some [str_simps]: "strip_prefix c s = Some t \<longleftrightarrow> s = c # t"
  by (cases s) auto

lemma strip_prefix_None [str_simps]: "strip_prefix c s = None \<longleftrightarrow> s = [] \<or> hd s \<noteq> c"
  by (cases s) auto

lemma strip_suffix_Some [str_simps]: "strip_suffix c s = Some t \<longleftrightarrow> s = t @ [c]"
  by (cases s rule: rev_cases) (auto simp: strip_suffix_def)

lemma split_once_Some [str_simps]:
  "split_once c s = Some (a, b) \<longleftrightarrow> s = a @ c # b \<and> c \<notin> set a"
proof (induction s arbitrary: a)
  case Nil
  then show ?case by simp
next
  case (Cons x xs)
  show ?case
  proof (cases a)
    case Nil
    then show ?thesis using Cons.IH by auto
  next
    case (Cons y ys)
    then show ?thesis using Cons.IH [of ys] by auto
  qed
qed

lemma split_once_None [str_simps]: "split_once c s = None \<longleftrightarrow> c \<notin> set s"
  by (induction s) auto

lemma rsplit_once_Some [str_simps]:
  "rsplit_once c s = Some (a, b) \<longleftrightarrow> s = a @ c # b \<and> c \<notin> set b"
proof -
  have "rsplit_once c s = Some (a, b) \<longleftrightarrow> split_once c (rev s) = Some (rev b, rev a)"
    by (auto simp: rsplit_once_def)
  also have "\<dots> \<longleftrightarrow> s = a @ c # b \<and> c \<notin> set b"
    by (auto simp: split_once_Some rev_swap)
  finally show ?thesis .
qed

lemma rsplit_once_None [str_simps]: "rsplit_once c s = None \<longleftrightarrow> c \<notin> set s"
  by (simp add: rsplit_once_def split_once_None)

text \<open>\<^verbatim>\<open>str::from_utf8\<close> accepts exactly the well-formed byte sequences of the Unicode standard.\<close>

definition in_range :: "nat \<Rightarrow> nat \<Rightarrow> nat \<Rightarrow> bool" where
  "in_range lo hi b \<longleftrightarrow> lo \<le> b \<and> b \<le> hi"

definition utf8_second :: "nat \<Rightarrow> nat \<Rightarrow> bool" where
  "utf8_second b1 =
     (if b1 = 0xE0 then in_range 0xA0 0xBF
      else if b1 = 0xED then in_range 0x80 0x9F
      else if b1 = 0xF0 then in_range 0x90 0xBF
      else if b1 = 0xF4 then in_range 0x80 0x8F
      else in_range 0x80 0xBF)"

definition utf8_width :: "nat \<Rightarrow> nat" where
  "utf8_width b1 =
     (if b1 < 0x80 then 1
      else if in_range 0xC2 0xDF b1 then 2
      else if in_range 0xE0 0xEF b1 then 3
      else if in_range 0xF0 0xF4 b1 then 4
      else 0)"

fun utf8_bytes :: "nat list \<Rightarrow> bool" where
  "utf8_bytes [] = True"
| "utf8_bytes (b1 # bs) =
     (let w = utf8_width b1; tail = take (w - 1) bs
      in w \<noteq> 0 \<and> length tail = w - 1 \<and>
         (tail \<noteq> [] \<longrightarrow> utf8_second b1 (hd tail)) \<and>
         list_all (in_range 0x80 0xBF) tail \<and>
         utf8_bytes (drop (w - 1) bs))"

definition utf8_valid :: "string \<Rightarrow> bool" where
  "utf8_valid s = utf8_bytes (map of_char s)"

section \<open>Lists\<close>

text \<open>\<^verbatim>\<open>Iterator::min_by_key\<close>: the first of the elements with the least key.\<close>

fun min_by_key :: "('a \<Rightarrow> 'b :: linorder) \<Rightarrow> 'a list \<Rightarrow> 'a option" where
  "min_by_key f [] = None"
| "min_by_key f (x # xs) =
     (case min_by_key f xs of None \<Rightarrow> Some x | Some y \<Rightarrow> if f x \<le> f y then Some x else Some y)"

lemma min_by_key_None [simp]: "min_by_key f xs = None \<longleftrightarrow> xs = []"
  by (cases xs) (auto split: option.splits)

lemma min_by_key_Some:
  "min_by_key f xs = Some x \<Longrightarrow> x \<in> set xs \<and> (\<forall>y\<in>set xs. f x \<le> f y)"
  by (induction xs arbitrary: x) (fastforce split: option.splits if_splits)+

lemma filter_eq_singleton:
  "distinct xs \<Longrightarrow> filter (\<lambda>k. k = n) xs = (if n \<in> set xs then [n] else [])"
  by (induction xs) (auto simp: filter_empty_conv)

text \<open>\<^verbatim>\<open>[T]::join\<close> for strings.\<close>

fun join :: "string \<Rightarrow> string list \<Rightarrow> string" where
  "join sep [] = []"
| "join sep [x] = x"
| "join sep (x # y # ys) = x @ sep @ join sep (y # ys)"

lemma join_Cons: "join sep (x # xs) = x @ concat (map (\<lambda>y. sep @ y) xs)"
  by (induction xs arbitrary: x) auto

lemma in_concat_map: "x \<in> set (concat (map f xs)) \<longleftrightarrow> (\<exists>y. y \<in> set xs \<and> x \<in> set (f y))"
  by auto

section \<open>Hash maps\<close>

text \<open>
  \<^verbatim>\<open>HashMap::get\<close> is \<^const>\<open>map_of\<close>, \<^verbatim>\<open>insert\<close> is \<^const>\<open>AList.update\<close>, \<^verbatim>\<open>remove\<close> is
  \<^const>\<open>AList.delete\<close>; \<^verbatim>\<open>entry(k).or_default()\<close> reads the value or the default before it writes.
\<close>

type_synonym ('k, 'v) hash_map = "('k \<times> 'v) list"

definition hm_wf :: "('k, 'v) hash_map \<Rightarrow> bool" where
  "hm_wf m \<longleftrightarrow> distinct (map fst m)"

abbreviation hm_get :: "('k, 'v) hash_map \<Rightarrow> 'k \<Rightarrow> 'v option" where
  "hm_get \<equiv> map_of"

abbreviation hm_insert :: "'k \<Rightarrow> 'v \<Rightarrow> ('k, 'v) hash_map \<Rightarrow> ('k, 'v) hash_map" where
  "hm_insert \<equiv> AList.update"

abbreviation hm_remove :: "'k \<Rightarrow> ('k, 'v) hash_map \<Rightarrow> ('k, 'v) hash_map" where
  "hm_remove \<equiv> AList.delete"

lemma map_of_rev_distinct: "distinct (map fst m) \<Longrightarrow> map_of (rev m) = map_of m"
  by (intro map_of_inject_set [THEN iffD2]) (simp_all add: rev_map [symmetric])

lemma hm_wf_Nil [simp]: "hm_wf []"
  by (simp add: hm_wf_def)

lemma hm_wf_insert [simp]: "hm_wf m \<Longrightarrow> hm_wf (hm_insert k v m)"
  by (simp add: hm_wf_def distinct_update)

lemma hm_wf_remove [simp]: "hm_wf m \<Longrightarrow> hm_wf (hm_remove k m)"
  by (simp add: hm_wf_def distinct_delete)

lemma hm_get_insert [hash_simps]: "hm_get (hm_insert k v m) k' = (if k' = k then Some v else hm_get m k')"
  by (simp add: update_conv')

lemma hm_get_remove [hash_simps]: "hm_get (hm_remove k m) k' = (if k' = k then None else hm_get m k')"
  by (simp add: delete_conv')

lemma hm_mem_iff: "hm_wf m \<Longrightarrow> (k, v) \<in> set m \<longleftrightarrow> hm_get m k = Some v"
  by (simp add: hm_wf_def)

lemma hm_values_iff:
  assumes "hm_wf m"
  shows "v \<in> snd ` set m \<longleftrightarrow> (\<exists>k. hm_get m k = Some v)"
proof -
  have "v \<in> snd ` set m \<longleftrightarrow> (\<exists>k. (k, v) \<in> set m)" by force
  then show ?thesis by (simp add: hm_mem_iff [OF assms])
qed

lemma hm_remove_eq_Nil: "hm_remove k m = [] \<longleftrightarrow> fst ` set m \<subseteq> {k}"
  by (auto simp: AList.delete_eq filter_empty_conv)

lemma hm_Nil_iff: "m = [] \<longleftrightarrow> (\<forall>k. hm_get m k = None)"
proof (cases m)
  case (Cons p ps)
  then have "hm_get m (fst p) = Some (snd p)" by (cases p) simp
  with Cons show ?thesis by auto
qed simp

lemma hm_insert_neq_Nil [simp]: "hm_insert k v m \<noteq> []"
  using hm_Nil_iff [of "hm_insert k v m"] by (auto simp: hm_get_insert)

section \<open>Bounded counters\<close>

definition u64_max :: nat where
  "u64_max = 2 ^ 64 - 1"

text \<open>\<^verbatim>\<open>u64::saturating_add\<close>.\<close>

definition u64_saturating_add :: "nat \<Rightarrow> nat \<Rightarrow> nat" where
  "u64_saturating_add a b = min (a + b) u64_max"

lemma u64_saturating_add_below: "a + b \<le> u64_max \<Longrightarrow> u64_saturating_add a b = a + b"
  by (simp add: u64_saturating_add_def)

end
