(* ===== verification/Uri_Ext.thy ===== *)
theory Uri_Ext
  imports Wreq_Prelude "HOL-Library.Word"
begin

text \<open>
  URIs and the helpers of \<^verbatim>\<open>src/src/ext.rs\<close>, plus \<^verbatim>\<open>strip_ipv6_brackets\<close> of
  \<^verbatim>\<open>src/src/util.rs\<close>.

  \<^verbatim>\<open>http::Uri\<close> belongs to the \<^verbatim>\<open>http\<close> crate.  A value of it is recorded by what its accessors
  return: the scheme, the authority (its text, host and port) and the path with its query.  Parsing
  an authority, reassembling a URI from its parts and percent-encoding are parameters, collected in
  the record \<open>uri_lib\<close>.
\<close>

section \<open>URI values\<close>

record authority =
  auth_str :: string
  auth_host :: string
  auth_port :: "16 word option"

record uri =
  uri_scheme :: "string option"
  uri_authority :: "authority option"
  uri_pq :: "(string \<times> string option) option"

definition uri_host :: "uri \<Rightarrow> string option" where
  "uri_host u = map_option auth_host (uri_authority u)"

definition uri_port :: "uri \<Rightarrow> 16 word option" where
  "uri_port u = Option.bind (uri_authority u) auth_port"

definition uri_path :: "uri \<Rightarrow> string" where
  "uri_path u = (case uri_pq u of None \<Rightarrow> [] | Some (p, _) \<Rightarrow> p)"

record uri_lib =
  lib_parse_authority :: "string \<Rightarrow> authority option"
  lib_from_parts :: "uri \<Rightarrow> uri option"
  lib_percent_encode :: "(char \<Rightarrow> bool) \<Rightarrow> string \<Rightarrow> string"

section \<open>The extension trait \<open>UriExt\<close>\<close>

definition is_http :: "uri \<Rightarrow> bool" where
  "is_http u \<longleftrightarrow> uri_scheme u = Some ''http''"

definition is_https :: "uri \<Rightarrow> bool" where
  "is_https u \<longleftrightarrow> uri_scheme u = Some ''https''"

definition port_or_default :: "uri \<Rightarrow> 16 word" where
  "port_or_default u =
     (case uri_port u of
        Some p \<Rightarrow> p
      | None \<Rightarrow> if is_https u then 443 else 80)"

definition userinfo :: "uri \<Rightarrow> string option \<times> string option" where
  "userinfo u =
     (case Option.bind (uri_authority u) (\<lambda>a. rsplit_once CHR ''@'' (auth_str a)) of
        None \<Rightarrow> (None, None)
      | Some (info, _) \<Rightarrow>
          (case split_once CHR '':'' info of
             Some (n, p) \<Rightarrow> (if n = [] then None else Some n, if p = [] then None else Some p)
           | None \<Rightarrow> (Some info, None)))"

text \<open>The percent-encode sets of the source, as predicates on bytes.\<close>

definition fragment_set :: "char \<Rightarrow> bool" where
  "fragment_set c \<longleftrightarrow>
     (of_char c :: nat) < 32 \<or> (of_char c :: nat) = 127 \<or>
     c \<in> set [CHR '' '', CHR 0x22, CHR ''<'', CHR ''>'', CHR 0x60]"

definition path_set :: "char \<Rightarrow> bool" where
  "path_set c \<longleftrightarrow> fragment_set c \<or> c \<in> set [CHR ''#'', CHR ''?'', CHR ''{'', CHR ''}'']"

definition userinfo_set :: "char \<Rightarrow> bool" where
  "userinfo_set c \<longleftrightarrow> path_set c \<or>
     c \<in> set [CHR ''/'', CHR '':'', CHR '';'', CHR ''='', CHR ''@'', CHR ''['', CHR 0x5C,
              CHR '']'', CHR ''^'', CHR ''|'']"

definition host_and_port :: "authority \<Rightarrow> string" where
  "host_and_port a =
     (case rsplit_once CHR ''@'' (auth_str a) of
        Some (_, h) \<Rightarrow> h
      | None \<Rightarrow> auth_str a)"

definition userinfo_text :: "uri_lib \<Rightarrow> authority \<Rightarrow> string \<Rightarrow> string option \<Rightarrow> string" where
  "userinfo_text L a username password =
     (let enc = lib_percent_encode L userinfo_set
      in case (username = [], password) of
           (True, None) \<Rightarrow> host_and_port a
         | (True, Some p) \<Rightarrow> '':'' @ enc p @ ''@'' @ host_and_port a
         | (False, Some p) \<Rightarrow> enc username @ '':'' @ enc p @ ''@'' @ host_and_port a
         | (False, None) \<Rightarrow> enc username @ ''@'' @ host_and_port a)"

definition set_userinfo :: "uri_lib \<Rightarrow> uri \<Rightarrow> string \<Rightarrow> string option \<Rightarrow> uri" where
  "set_userinfo L u username password =
     (case uri_authority u of
        None \<Rightarrow> u
      | Some a \<Rightarrow>
          (case lib_parse_authority L (userinfo_text L a username password) of
             None \<Rightarrow> u
           | Some a' \<Rightarrow>
               (case lib_from_parts L (u\<lparr>uri_authority := Some a'\<rparr>) of
                  None \<Rightarrow> u
                | Some u' \<Rightarrow> u')))"

section \<open>Host literals\<close>

text \<open>\<^verbatim>\<open>util::strip_ipv6_brackets\<close>.\<close>

definition strip_ipv6_brackets :: "string \<Rightarrow> string" where
  "strip_ipv6_brackets host =
     (case Option.bind (strip_prefix CHR ''['' host) (strip_suffix CHR '']'') of
        Some h \<Rightarrow> h
      | None \<Rightarrow> host)"

section \<open>Lemmas\<close>

lemma is_http_not_https: "is_http u \<Longrightarrow> \<not> is_https u"
  by (simp add: is_http_def is_https_def)

lemma strip_ipv6_brackets_literal: "strip_ipv6_brackets (''['' @ h @ '']'') = h"
proof -
  have "strip_suffix CHR '']'' (h @ '']'') = Some h"
    by (simp add: strip_suffix_Some)
  then show ?thesis by (simp add: strip_ipv6_brackets_def)
qed

lemma strip_ipv6_brackets_other:
  "(\<nexists>h'. h = ''['' @ h' @ '']'') \<Longrightarrow> strip_ipv6_brackets h = h"
  by (auto simp: strip_ipv6_brackets_def bind_eq_Some_conv str_simps split: option.splits)

text \<open>
  What the URI library promises: an authority that parses keeps its text, parts of a URI whose
  authority parsed reassemble to a URI with these parts, and the encoder leaves no byte of the
  given set in its output and drops nothing, for the sets that contain neither the percent sign nor
  an upper-case hexadecimal digit (each encoded byte becomes a percent sign and two such digits).
\<close>

definition hex_chars :: string where
  "hex_chars = ''0123456789ABCDEF''"

definition encodable :: "(char \<Rightarrow> bool) \<Rightarrow> bool" where
  "encodable P \<longleftrightarrow> list_all (\<lambda>c. \<not> P c) (CHR ''%'' # hex_chars)"

definition uri_lib_ok :: "uri_lib \<Rightarrow> bool" where
  "uri_lib_ok L \<longleftrightarrow>
     (\<forall>s a. lib_parse_authority L s = Some a \<longrightarrow> auth_str a = s) \<and>
     (\<forall>u u'. lib_from_parts L u = Some u' \<longrightarrow> u' = u) \<and>
     (\<forall>P s c. encodable P \<longrightarrow> c \<in> set (lib_percent_encode L P s) \<longrightarrow> \<not> P c) \<and>
     (\<forall>P s. lib_percent_encode L P s = [] \<longleftrightarrow> s = [])"

lemma encodable_userinfo_set: "encodable userinfo_set"
  by code_simp

lemma encode_no_sep:
  assumes "uri_lib_ok L"
  shows "CHR '':'' \<notin> set (lib_percent_encode L userinfo_set s)"
    and "CHR ''@'' \<notin> set (lib_percent_encode L userinfo_set s)"
proof -
  from assms have c: "c \<in> set (lib_percent_encode L userinfo_set s) \<Longrightarrow> \<not> userinfo_set c" for c
    unfolding uri_lib_ok_def using encodable_userinfo_set by blast
  from c [of "CHR '':''"] show "CHR '':'' \<notin> set (lib_percent_encode L userinfo_set s)"
    by (auto simp: userinfo_set_def)
  from c [of "CHR ''@''"] show "CHR ''@'' \<notin> set (lib_percent_encode L userinfo_set s)"
    by (auto simp: userinfo_set_def)
qed

lemma host_and_port_no_at: "CHR ''@'' \<notin> set (host_and_port a)"
  by (auto simp: host_and_port_def str_simps split: option.splits)

lemma userinfo_pair:
  assumes "uri_authority u = Some a" "auth_str a = n @ '':'' @ p @ ''@'' @ h"
    and "CHR '':'' \<notin> set n" "CHR ''@'' \<notin> set h"
  shows "userinfo u = (if n = [] then None else Some n, if p = [] then None else Some p)"
proof -
  have r: "rsplit_once CHR ''@'' (n @ '':'' @ p @ ''@'' @ h) = Some (n @ '':'' @ p, h)"
    using assms by (simp add: rsplit_once_Some)
  have s: "split_once CHR '':'' (n @ '':'' @ p) = Some (n, p)"
    using assms by (simp add: split_once_Some)
  show ?thesis
    using assms r s by (simp add: userinfo_def)
qed

lemma userinfo_user:
  assumes "uri_authority u = Some a" "auth_str a = n @ ''@'' @ h"
    and "CHR '':'' \<notin> set n" "CHR ''@'' \<notin> set h"
  shows "userinfo u = (Some n, None)"
proof -
  have r: "rsplit_once CHR ''@'' (n @ ''@'' @ h) = Some (n, h)"
    using assms by (simp add: rsplit_once_Some)
  have s: "split_once CHR '':'' n = None"
    using assms by (simp add: split_once_None)
  show ?thesis
    using assms r s by (simp add: userinfo_def)
qed

lemma userinfo_bare:
  assumes "uri_authority u = Some a" "CHR ''@'' \<notin> set (auth_str a)"
  shows "userinfo u = (None, None)"
  using assms by (simp add: userinfo_def rsplit_once_None [THEN iffD2])

lemma userinfo_of_userinfo_text:
  assumes ok: "uri_lib_ok L"
    and u: "uri_authority u = Some a'" and t: "auth_str a' = userinfo_text L a n p"
  defines "enc \<equiv> lib_percent_encode L userinfo_set"
  shows "userinfo u =
           (if n = [] then None else Some (enc n),
            case p of None \<Rightarrow> None | Some q \<Rightarrow> if q = [] then None else Some (enc q))"
proof -
  have nil: "enc s = [] \<longleftrightarrow> s = []" for s
    using ok by (simp add: uri_lib_ok_def enc_def)
  note sep = encode_no_sep [OF ok, folded enc_def] host_and_port_no_at [of a]
  note t' = t [unfolded userinfo_text_def, folded enc_def]
  show ?thesis
  proof (cases "n = []"; cases p)
    assume "n = []" "p = None"
    with t' u sep show ?thesis by (simp add: Let_def userinfo_bare)
  next
    fix q assume "n = []" "p = Some q"
    with t' userinfo_pair [OF u, of "[]" "enc q" "host_and_port a"] sep
    show ?thesis by (simp add: Let_def nil)
  next
    assume "n \<noteq> []" "p = None"
    with t' userinfo_user [OF u, of "enc n" "host_and_port a"] sep
    show ?thesis by (simp add: Let_def)
  next
    fix q assume "n \<noteq> []" "p = Some q"
    with t' userinfo_pair [OF u, of "enc n" "enc q" "host_and_port a"] sep
    show ?thesis by (simp add: Let_def nil)
  qed
qed

lemma host_and_port_userinfo_text:
  assumes "auth_str a' = userinfo_text L a n p"
  shows "host_and_port a' = host_and_port a"
proof -
  have at: "rsplit_once CHR ''@'' (x @ CHR ''@'' # host_and_port a) = Some (x, host_and_port a)" for x
    by (simp add: rsplit_once_Some host_and_port_no_at)
  have no: "rsplit_once CHR ''@'' (host_and_port a) = None"
    by (simp add: rsplit_once_None host_and_port_no_at)
  have "host_and_port a' = (case rsplit_once CHR ''@'' (userinfo_text L a n p) of
      Some (_, h) \<Rightarrow> h | None \<Rightarrow> userinfo_text L a n p)"
    unfolding host_and_port_def assms by (rule refl)
  also have "\<dots> = host_and_port a"
  proof (cases "n = []"; cases p)
    fix q assume "n = []" "p = Some q"
    with at [of "'':'' @ lib_percent_encode L userinfo_set q"] show ?thesis
      by (simp add: userinfo_text_def Let_def)
  next
    fix q assume "n \<noteq> []" "p = Some q"
    with at [of "lib_percent_encode L userinfo_set n @ '':'' @ lib_percent_encode L userinfo_set q"]
    show ?thesis by (simp add: userinfo_text_def Let_def)
  next
    assume "n \<noteq> []" "p = None"
    with at [of "lib_percent_encode L userinfo_set n"] show ?thesis by (simp add: userinfo_text_def Let_def)
  qed (simp_all add: userinfo_text_def no)
  finally show ?thesis .
qed

section \<open>Setting and reading the user information\<close>

text \<open>When the rebuilt authority is accepted by the URI library, \<^verbatim>\<open>userinfo\<close> reads back
  exactly the percent-encoded name and password that \<^verbatim>\<open>set_userinfo\<close> wrote, whatever credentials
  the URI carried before, the text after the last \<^verbatim>\<open>@\<close> is unchanged, and so are the scheme and
  the path with its query.\<close>

theorem set_userinfo_roundtrip:
  assumes "uri_lib_ok L"
    and "uri_authority u = Some a"
    and "lib_parse_authority L (userinfo_text L a n p) = Some a'"
    and "lib_from_parts L (u\<lparr>uri_authority := Some a'\<rparr>) = Some u'"
  shows "userinfo (set_userinfo L u n p) =
           (if n = [] then None else Some (lib_percent_encode L userinfo_set n),
            case p of None \<Rightarrow> None
            | Some q \<Rightarrow> if q = [] then None else Some (lib_percent_encode L userinfo_set q)) \<and>
         map_option host_and_port (uri_authority (set_userinfo L u n p)) = Some (host_and_port a) \<and>
         uri_scheme (set_userinfo L u n p) = uri_scheme u \<and>
         uri_pq (set_userinfo L u n p) = uri_pq u"
proof -
  from assms have u': "set_userinfo L u n p = u\<lparr>uri_authority := Some a'\<rparr>"
    and t: "auth_str a' = userinfo_text L a n p"
    by (auto simp: set_userinfo_def uri_lib_ok_def)
  show ?thesis
    using userinfo_of_userinfo_text [OF assms(1) _ t, of "u\<lparr>uri_authority := Some a'\<rparr>"]
      host_and_port_userinfo_text [OF t]
    by (simp add: u')
qed

text \<open>An instance of the library: an encoder that writes a percent sign and two digits, and parsers
  that accept everything.\<close>

definition hex_byte :: "char \<Rightarrow> string" where
  "hex_byte c = [CHR ''%'', hex_chars ! (of_char c div 16), hex_chars ! (of_char c mod 16)]"

definition hex_encode :: "(char \<Rightarrow> bool) \<Rightarrow> string \<Rightarrow> string" where
  "hex_encode P s =
     concat (map (\<lambda>c. if P c then hex_byte c else [c]) s)"

definition sample_lib :: uri_lib where
  "sample_lib =
     \<lparr>lib_parse_authority = (\<lambda>s. Some \<lparr>auth_str = s, auth_host = s, auth_port = None\<rparr>),
      lib_from_parts = Some,
      lib_percent_encode = hex_encode\<rparr>"

lemma sample_lib_simps:
  "lib_parse_authority sample_lib s = Some \<lparr>auth_str = s, auth_host = s, auth_port = None\<rparr>"
  "lib_from_parts sample_lib u = Some u"
  "lib_percent_encode sample_lib = hex_encode"
  by (simp_all add: sample_lib_def)

lemma hex_chars_nth: "n < 16 \<Longrightarrow> hex_chars ! n \<in> set hex_chars"
  by (rule nth_mem) (simp add: hex_chars_def)

lemma set_hex_byte: "set (hex_byte c) \<subseteq> insert CHR ''%'' (set hex_chars)"
proof -
  have "(of_char c :: nat) div 16 < 16"
    using nat_of_char_less_256 [of c] by (simp add: less_mult_imp_div_less)
  moreover have "(of_char c :: nat) mod 16 < 16" by (rule mod_less_divisor) simp
  ultimately show ?thesis
    unfolding hex_byte_def by (simp add: hex_chars_nth del: of_char_mod_256)
qed

lemma sample_lib_ok: "uri_lib_ok sample_lib"
proof -
  have "\<not> P c" if e: "encodable P" and c: "c \<in> set (hex_encode P s)" for P s c
  proof -
    from e have P: "\<not> P d" if "d \<in> insert CHR ''%'' (set hex_chars)" for d
      using that by (auto simp only: encodable_def list_all_iff set_simps)
    obtain b where b: "c \<in> set (if P b then hex_byte b else [b])"
      using c unfolding hex_encode_def set_concat set_map by blast
    show ?thesis
    proof (cases "P b")
      case True
      with b set_hex_byte [of b] have "c \<in> insert CHR ''%'' (set hex_chars)" by auto
      then show ?thesis by (rule P)
    qed (use b in simp)
  qed
  moreover have "hex_encode P s = [] \<longleftrightarrow> s = []" for P s
    by (cases s) (auto simp: hex_encode_def hex_byte_def)
  ultimately show ?thesis
    by (auto simp: uri_lib_ok_def sample_lib_simps)
qed

theorem set_userinfo_roundtrip_witness:
  "userinfo (set_userinfo sample_lib
       \<lparr>uri_scheme = Some ''http'',
        uri_authority = Some \<lparr>auth_str = ''old@h:8080'', auth_host = ''h'', auth_port = Some 8080\<rparr>,
        uri_pq = Some (''/'', None)\<rparr> ''a:b'' (Some ''p@q'')) =
     (Some (hex_encode userinfo_set ''a:b''), Some (hex_encode userinfo_set ''p@q''))"
  using set_userinfo_roundtrip [OF sample_lib_ok _ sample_lib_simps(1,2), of
      "\<lparr>uri_scheme = Some ''http'',
        uri_authority = Some \<lparr>auth_str = ''old@h:8080'', auth_host = ''h'', auth_port = Some 8080\<rparr>,
        uri_pq = Some (''/'', None)\<rparr>"
      "\<lparr>auth_str = ''old@h:8080'', auth_host = ''h'', auth_port = Some 8080\<rparr>"
      "''a:b''" "Some ''p@q''"]
  by (simp add: sample_lib_simps(3))

end
