(* ===== verification/Cookie_Store.thy ===== *)
theory Cookie_Store
  imports Uri_Ext
begin

text \<open>
  The cookie storage of \<^verbatim>\<open>src/src/cookie/store.rs\<close>: cookies by domain, path, storage scope and
  name, with the request selection and the domain and path matching it uses.

  \<^verbatim>\<open>cookie::Cookie\<close> is recorded by what its accessors return; durations and points in time are
  integers.  \<^verbatim>\<open>url::Host::parse\<close> is a parameter of \<open>canonical_host\<close>.
\<close>

section \<open>Data\<close>

datatype host = Domain string | Ipv4 "32 word" | Ipv6 "128 word"

datatype same_site = Strict | Lax | NoRestriction

datatype expiration = Session | DateTime int

record raw_cookie =
  ck_name :: string
  ck_value :: string
  ck_domain :: "string option"
  ck_path :: "string option"
  ck_secure :: "bool option"
  ck_http_only :: "bool option"
  ck_same_site :: "same_site option"
  ck_max_age :: "int option"
  ck_expires :: "expiration option"

fun expires_datetime :: "expiration option \<Rightarrow> int option" where
  "expires_datetime (Some (DateTime t)) = Some t"
| "expires_datetime _ = None"

record cookie_entry =
  ce_cookie :: raw_cookie
  ce_index :: nat

record scope_map =
  sm_host_only :: "(string, cookie_entry) hash_map"
  sm_domain :: "(string, cookie_entry) hash_map"

record store =
  st_cookies :: "(host, (string, scope_map) hash_map) hash_map"
  st_next :: nat

definition scope_default :: scope_map where
  "scope_default = \<lparr>sm_host_only = [], sm_domain = []\<rparr>"

definition store_default :: store where
  "store_default = \<lparr>st_cookies = [], st_next = 0\<rparr>"

section \<open>Scope maps\<close>

definition scope_get :: "scope_map \<Rightarrow> string \<Rightarrow> bool \<Rightarrow> cookie_entry option" where
  "scope_get m name host_only =
     (if host_only then hm_get (sm_host_only m) name else hm_get (sm_domain m) name)"

definition scope_entries :: "scope_map \<Rightarrow> string \<Rightarrow> cookie_entry list" where
  "scope_entries m name =
     (case hm_get (sm_host_only m) name of None \<Rightarrow> [] | Some e \<Rightarrow> [e]) @
     (case hm_get (sm_domain m) name of None \<Rightarrow> [] | Some e \<Rightarrow> [e])"

definition scope_insert :: "string \<Rightarrow> bool \<Rightarrow> cookie_entry \<Rightarrow> scope_map \<Rightarrow> scope_map" where
  "scope_insert name host_only e m =
     (if host_only then m\<lparr>sm_host_only := hm_insert name e (sm_host_only m)\<rparr>
      else m\<lparr>sm_domain := hm_insert name e (sm_domain m)\<rparr>)"

definition scope_remove :: "string \<Rightarrow> bool \<Rightarrow> scope_map \<Rightarrow> scope_map" where
  "scope_remove name host_only m =
     (if host_only then m\<lparr>sm_host_only := hm_remove name (sm_host_only m)\<rparr>
      else m\<lparr>sm_domain := hm_remove name (sm_domain m)\<rparr>)"

definition scope_remove_all :: "string \<Rightarrow> scope_map \<Rightarrow> scope_map" where
  "scope_remove_all name m =
     m\<lparr>sm_host_only := hm_remove name (sm_host_only m), sm_domain := hm_remove name (sm_domain m)\<rparr>"

definition scope_values :: "scope_map \<Rightarrow> cookie_entry list" where
  "scope_values m = map snd (sm_host_only m) @ map snd (sm_domain m)"

definition scope_is_empty :: "scope_map \<Rightarrow> bool" where
  "scope_is_empty m \<longleftrightarrow> sm_host_only m = [] \<and> sm_domain m = []"

section \<open>Matching\<close>

definition cookie_is_expired :: "raw_cookie \<Rightarrow> int \<Rightarrow> bool" where
  "cookie_is_expired c now \<longleftrightarrow>
     (case ck_max_age c of None \<Rightarrow> False | Some a \<Rightarrow> a \<le> 0) \<or>
     (case expires_datetime (ck_expires c) of None \<Rightarrow> False | Some t \<Rightarrow> t \<le> now)"

definition domain_match :: "host \<Rightarrow> host \<Rightarrow> bool" where
  "domain_match h d \<longleftrightarrow>
     h = d \<or>
     (case (h, d) of
        (Domain hs, Domain ds) \<Rightarrow>
          length ds < length hs \<and>
          hs ! (length hs - length ds - 1) = CHR ''.'' \<and>
          suffix ds hs
      | _ \<Rightarrow> False)"

definition path_match :: "string \<Rightarrow> string \<Rightarrow> bool" where
  "path_match request_path cookie_path \<longleftrightarrow>
     request_path = cookie_path \<or>
     prefix cookie_path request_path \<and>
       (suffix ''/'' cookie_path \<or> prefix ''/'' (drop (length cookie_path) request_path))"

definition canonical_host :: "(string \<Rightarrow> host option) \<Rightarrow> string \<Rightarrow> host option" where
  "canonical_host host_parse s =
     host_parse (case strip_prefix CHR ''.'' s of Some t \<Rightarrow> t | None \<Rightarrow> s)"

definition normalize_path :: "string \<Rightarrow> string" where
  "normalize_path path =
     (if \<not> prefix ''/'' path then ''/''
      else (case rsplit_once CHR ''/'' path of
              Some (before, _) \<Rightarrow> if before = [] then ''/'' else before
            | None \<Rightarrow> ''/''))"

definition request_matches_cookie ::
  "uri \<Rightarrow> host \<Rightarrow> host \<Rightarrow> string \<Rightarrow> raw_cookie \<Rightarrow> int \<Rightarrow> bool"
where
  "request_matches_cookie u request_host cookie_domain cookie_path c now \<longleftrightarrow>
     (if \<not> (is_http u \<or> is_https u)
         \<or> \<not> domain_match request_host cookie_domain
         \<or> ck_domain c = None \<and> request_host \<noteq> cookie_domain
         \<or> \<not> path_match (uri_path u) cookie_path
         \<or> ck_secure c = Some True \<and> is_http u
      then False
      else \<not> cookie_is_expired c now)"

section \<open>The store\<close>

text \<open>\<^verbatim>\<open>entry(domain).or_default().entry(path).or_default().insert(\<dots>)\<close>.\<close>

definition store_put :: "host \<Rightarrow> string \<Rightarrow> string \<Rightarrow> bool \<Rightarrow> cookie_entry \<Rightarrow> store \<Rightarrow> store" where
  "store_put domain path name host_only e st =
     (let paths = (case hm_get (st_cookies st) domain of None \<Rightarrow> [] | Some pm \<Rightarrow> pm);
          scopes = (case hm_get paths path of None \<Rightarrow> scope_default | Some sm \<Rightarrow> sm)
      in st\<lparr>st_cookies :=
             hm_insert domain (hm_insert path (scope_insert name host_only e scopes) paths)
               (st_cookies st)\<rparr>)"

definition store_get :: "store \<Rightarrow> host \<Rightarrow> string \<Rightarrow> string \<Rightarrow> bool \<Rightarrow> cookie_entry option" where
  "store_get st domain path name host_only =
     Option.bind (hm_get (st_cookies st) domain)
       (\<lambda>pm. Option.bind (hm_get pm path) (\<lambda>sm. scope_get sm name host_only))"

definition insert_stored_cookie :: "store \<Rightarrow> host \<Rightarrow> string \<Rightarrow> raw_cookie \<Rightarrow> store" where
  "insert_stored_cookie st domain path c =
     (let host_only = (ck_domain c = None); name = ck_name c
      in case store_get st domain path name host_only of
           Some e \<Rightarrow>
             (if ck_value (ce_cookie e) \<noteq> ck_value c then
                (store_put domain path name host_only \<lparr>ce_cookie = c, ce_index = st_next st\<rparr> st)
                  \<lparr>st_next := u64_saturating_add (st_next st) 1\<rparr>
              else store_put domain path name host_only (e\<lparr>ce_cookie := c\<rparr>) st)
         | None \<Rightarrow>
             (store_put domain path name host_only \<lparr>ce_cookie = c, ce_index = st_next st\<rparr> st)
               \<lparr>st_next := u64_saturating_add (st_next st) 1\<rparr>)"

definition remove_stored_cookie_inner ::
  "store \<Rightarrow> host \<Rightarrow> string \<Rightarrow> string \<Rightarrow> bool option \<Rightarrow> store"
where
  "remove_stored_cookie_inner st domain path name host_only =
     (case hm_get (st_cookies st) domain of
        None \<Rightarrow> st
      | Some pm \<Rightarrow>
          (let pm' =
             (case hm_get pm path of
                None \<Rightarrow> pm
              | Some sm \<Rightarrow>
                  (let sm' = (case host_only of
                                Some ho \<Rightarrow> scope_remove name ho sm
                              | None \<Rightarrow> scope_remove_all name sm)
                   in if scope_is_empty sm' then hm_remove path pm else hm_insert path sm' pm))
           in if pm' = [] then st\<lparr>st_cookies := hm_remove domain (st_cookies st)\<rparr>
              else st\<lparr>st_cookies := hm_insert domain pm' (st_cookies st)\<rparr>))"

definition remove_stored_cookie :: "store \<Rightarrow> host \<Rightarrow> string \<Rightarrow> string \<Rightarrow> bool \<Rightarrow> store" where
  "remove_stored_cookie st domain path name host_only =
     remove_stored_cookie_inner st domain path name (Some host_only)"

definition remove_stored_cookies :: "store \<Rightarrow> host \<Rightarrow> string \<Rightarrow> string \<Rightarrow> store" where
  "remove_stored_cookies st domain path name =
     remove_stored_cookie_inner st domain path name None"

text \<open>The iteration over all stored cookies that \<^verbatim>\<open>matching_cookies\<close> and the jar share.\<close>

definition all_entries :: "store \<Rightarrow> (host \<times> string \<times> cookie_entry) list" where
  "all_entries st =
     concat (map (\<lambda>(d, pm). concat (map (\<lambda>(p, sm). map (\<lambda>e. (d, p, e)) (scope_values sm)) pm))
       (st_cookies st))"

definition matching_cookies ::
  "store \<Rightarrow> uri \<Rightarrow> host \<Rightarrow> int \<Rightarrow> (host \<times> string \<times> cookie_entry) list"
where
  "matching_cookies st u request_host now =
     filter (\<lambda>(d, p, e). request_matches_cookie u request_host d p (ce_cookie e) now)
       (all_entries st)"

definition would_overlay_secure_cookie :: "store \<Rightarrow> string \<Rightarrow> host \<Rightarrow> string \<Rightarrow> int \<Rightarrow> bool" where
  "would_overlay_secure_cookie st name domain path now \<longleftrightarrow>
     list_ex (\<lambda>(stored_domain, pm).
       (domain_match stored_domain domain \<or> domain_match domain stored_domain) \<and>
       list_ex (\<lambda>(stored_path, sm).
         path_match path stored_path \<and>
         list_ex (\<lambda>e. ck_secure (ce_cookie e) = Some True \<and> \<not> cookie_is_expired (ce_cookie e) now)
           (scope_entries sm name)) pm)
       (st_cookies st)"

section \<open>Matching against the RFC definitions\<close>

text \<open>RFC 6265, sections 5.1.3 and 5.1.4, as they are worded.\<close>

definition rfc_domain_match :: "host \<Rightarrow> host \<Rightarrow> bool" where
  "rfc_domain_match h d \<longleftrightarrow>
     h = d \<or> (\<exists>hs ds pre. h = Domain hs \<and> d = Domain ds \<and> hs = pre @ ''.'' @ ds)"

definition rfc_path_match :: "string \<Rightarrow> string \<Rightarrow> bool" where
  "rfc_path_match request_path cookie_path \<longleftrightarrow>
     request_path = cookie_path \<or>
     (\<exists>rest. request_path = cookie_path @ rest \<and> cookie_path \<noteq> [] \<and> last cookie_path = CHR ''/'') \<or>
     (\<exists>rest. request_path = cookie_path @ ''/'' @ rest)"

lemma suffix_dot_iff:
  "length ds < length hs \<and> hs ! (length hs - length ds - 1) = CHR ''.'' \<and> suffix ds hs \<longleftrightarrow>
   (\<exists>pre. hs = pre @ ''.'' @ ds)"
proof
  assume a: "length ds < length hs \<and> hs ! (length hs - length ds - 1) = CHR ''.'' \<and> suffix ds hs"
  then obtain pre where hs: "hs = pre @ ds" by (auto simp: suffix_def)
  with a have "pre \<noteq> []" "last pre = CHR ''.''"
    by (auto simp: nth_append last_conv_nth)
  then have "hs = butlast pre @ ''.'' @ ds"
    using hs append_butlast_last_id [of pre] by (metis append_Cons append_Nil append_assoc)
  then show "\<exists>pre. hs = pre @ ''.'' @ ds" ..
next
  assume "\<exists>pre. hs = pre @ ''.'' @ ds"
  then show "length ds < length hs \<and> hs ! (length hs - length ds - 1) = CHR ''.'' \<and> suffix ds hs"
    by (auto simp: suffix_def nth_append)
qed

lemma domain_match_rfc: "domain_match h d \<longleftrightarrow> rfc_domain_match h d"
  using suffix_dot_iff
  by (cases h; cases d) (simp_all add: domain_match_def rfc_domain_match_def)

lemma domain_match_refl [simp]: "domain_match h h"
  by (simp add: domain_match_def)

lemma domain_match_trans:
  assumes "domain_match a b" "domain_match b c"
  shows "domain_match a c"
proof -
  have "\<exists>pre. x @ ''.'' @ y @ ''.'' @ z = pre @ ''.'' @ z" for x y z
    by (rule exI [of _ "x @ ''.'' @ y"]) simp
  with assms show ?thesis
    by (auto simp: domain_match_rfc rfc_domain_match_def)
qed

lemma suffix_slash: "suffix ''/'' s \<longleftrightarrow> s \<noteq> [] \<and> last s = CHR ''/''"
  by (cases s rule: rev_cases) (auto simp: suffix_def)

lemma path_match_rfc: "path_match r c \<longleftrightarrow> rfc_path_match r c"
  by (auto simp: path_match_def rfc_path_match_def suffix_slash prefix_def)

lemma prefix_normalize_path: "prefix ''/'' (normalize_path r)"
  by (auto simp: normalize_path_def rsplit_once_Some prefix_def append_eq_Cons_conv
      split: option.splits)

text \<open>C21: \<^verbatim>\<open>domain_match\<close> and \<^verbatim>\<open>path_match\<close> decide exactly the relations of RFC 6265 (an equal
  host, or a domain name that ends in a dot and the cookie domain; an equal path, or a prefix that
  ends in a slash or is followed by one), both are transitive, IP addresses match only themselves,
  and the default path of any request path is a path that the request matches when the request path
  starts with a slash.\<close>

theorem matching_meets_rfc:
  "(domain_match h d \<longleftrightarrow> rfc_domain_match h d) \<and>
   (path_match r c \<longleftrightarrow> rfc_path_match r c) \<and>
   (domain_match a h \<and> domain_match h d \<longrightarrow> domain_match a d) \<and>
   (domain_match (Ipv4 w) d \<longleftrightarrow> d = Ipv4 w) \<and>
   (domain_match (Ipv6 w6) d \<longleftrightarrow> d = Ipv6 w6) \<and>
   prefix ''/'' (normalize_path r) \<and>
   (prefix ''/'' r \<longrightarrow> path_match r (normalize_path r))"
proof (intro conjI)
  show "domain_match h d \<longleftrightarrow> rfc_domain_match h d" by (rule domain_match_rfc)
  show "path_match r c \<longleftrightarrow> rfc_path_match r c" by (rule path_match_rfc)
  show "domain_match a h \<and> domain_match h d \<longrightarrow> domain_match a d"
    using domain_match_trans by blast
  show "domain_match (Ipv4 w) d \<longleftrightarrow> d = Ipv4 w" "domain_match (Ipv6 w6) d \<longleftrightarrow> d = Ipv6 w6"
    by (auto simp: domain_match_def)
  show "prefix ''/'' (normalize_path r)" by (rule prefix_normalize_path)
  show "prefix ''/'' r \<longrightarrow> path_match r (normalize_path r)"
    by (auto simp: normalize_path_def rsplit_once_Some path_match_def prefix_def suffix_slash
        split: option.splits)
qed

theorem matching_meets_rfc_witness:
  "domain_match (Domain ''a.b.example.com'') (Domain ''example.com'') \<and>
   \<not> domain_match (Domain ''badexample.com'') (Domain ''example.com'') \<and>
   path_match ''/a/b'' (normalize_path ''/a/b'')"
proof (intro conjI)
  have "domain_match (Domain ''a.b.example.com'') (Domain ''b.example.com'')"
    "domain_match (Domain ''b.example.com'') (Domain ''example.com'')"
    by code_simp+
  then show "domain_match (Domain ''a.b.example.com'') (Domain ''example.com'')"
    using matching_meets_rfc by blast
  show "\<not> domain_match (Domain ''badexample.com'') (Domain ''example.com'')" by code_simp
  have "prefix ''/'' ''/a/b''" by simp
  then show "path_match ''/a/b'' (normalize_path ''/a/b'')"
    using matching_meets_rfc by blast
qed

section \<open>The store as a flat map\<close>

text \<open>
  The abstract store of the RFC storage model: one map from the identity of a cookie (domain, path,
  name, host-only flag) to the stored entry, and the next creation index.
\<close>

type_synonym cookie_key = "host \<times> string \<times> string \<times> bool"

record flat_store =
  fl_map :: "cookie_key \<Rightarrow> cookie_entry option"
  fl_next :: nat

definition flat_insert :: "host \<Rightarrow> string \<Rightarrow> raw_cookie \<Rightarrow> flat_store \<Rightarrow> flat_store" where
  "flat_insert d p c fl =
     (let k = (d, p, ck_name c, ck_domain c = None);
          keeps = (case fl_map fl k of None \<Rightarrow> False | Some e \<Rightarrow> ck_value (ce_cookie e) = ck_value c);
          i = (if keeps then ce_index (the (fl_map fl k)) else fl_next fl)
      in \<lparr>fl_map = (fl_map fl)(k \<mapsto> \<lparr>ce_cookie = c, ce_index = i\<rparr>),
          fl_next = (if keeps then fl_next fl else u64_saturating_add (fl_next fl) 1)\<rparr>)"

definition flat_remove :: "cookie_key set \<Rightarrow> flat_store \<Rightarrow> flat_store" where
  "flat_remove K fl = fl\<lparr>fl_map := fl_map fl |` (- K)\<rparr>"

definition view :: "store \<Rightarrow> flat_store" where
  "view st = \<lparr>fl_map = (\<lambda>(d, p, n, ho). store_get st d p n ho), fl_next = st_next st\<rparr>"

text \<open>Well-formedness of the nested maps: distinct keys at every level and no empty inner map.\<close>

definition scope_wf :: "scope_map \<Rightarrow> bool" where
  "scope_wf sm \<longleftrightarrow> hm_wf (sm_host_only sm) \<and> hm_wf (sm_domain sm)"

definition paths_wf :: "(string, scope_map) hash_map \<Rightarrow> bool" where
  "paths_wf pm \<longleftrightarrow> hm_wf pm \<and> (\<forall>p sm. hm_get pm p = Some sm \<longrightarrow> scope_wf sm \<and> \<not> scope_is_empty sm)"

definition store_wf :: "store \<Rightarrow> bool" where
  "store_wf st \<longleftrightarrow>
     hm_wf (st_cookies st) \<and>
     (\<forall>d pm. hm_get (st_cookies st) d = Some pm \<longrightarrow> paths_wf pm \<and> pm \<noteq> [])"

lemma scope_wf_default [simp]: "scope_wf scope_default"
  by (simp add: scope_wf_def scope_default_def)

lemma scope_wf_ops [simp]:
  "scope_wf sm \<Longrightarrow> scope_wf (scope_insert n ho e sm)"
  "scope_wf sm \<Longrightarrow> scope_wf (scope_remove n ho sm)"
  "scope_wf sm \<Longrightarrow> scope_wf (scope_remove_all n sm)"
  by (simp_all add: scope_wf_def scope_insert_def scope_remove_def scope_remove_all_def)

lemma scope_insert_nonempty [simp]: "\<not> scope_is_empty (scope_insert n ho e sm)"
  by (simp add: scope_is_empty_def scope_insert_def)

lemma scope_get_simps [hash_simps]:
  "scope_get scope_default n ho = None"
  "scope_get (scope_insert n ho e sm) n' ho' =
     (if n' = n \<and> ho' = ho then Some e else scope_get sm n' ho')"
  "scope_get (scope_remove n ho sm) n' ho' =
     (if n' = n \<and> ho' = ho then None else scope_get sm n' ho')"
  "scope_get (scope_remove_all n sm) n' ho' = (if n' = n then None else scope_get sm n' ho')"
  by (auto simp: scope_get_def scope_insert_def scope_remove_def scope_remove_all_def
      scope_default_def hash_simps)

lemma scope_is_empty_iff: "scope_is_empty sm \<longleftrightarrow> (\<forall>n ho. scope_get sm n ho = None)"
  by (auto simp: scope_is_empty_def scope_get_def hm_Nil_iff)

lemma scope_values_iff:
  "scope_wf sm \<Longrightarrow> e \<in> set (scope_values sm) \<longleftrightarrow> (\<exists>n ho. scope_get sm n ho = Some e)"
  by (auto simp: scope_values_def scope_get_def scope_wf_def hm_values_iff split: if_splits)

lemma scope_entries_iff:
  "e \<in> set (scope_entries sm n) \<longleftrightarrow> (\<exists>ho. scope_get sm n ho = Some e)"
  unfolding scope_entries_def scope_get_def ex_bool_eq
  by (cases "hm_get (sm_host_only sm) n"; cases "hm_get (sm_domain sm) n") auto

lemma store_get_put [hash_simps]:
  "store_get (store_put d p n ho e st) d' p' n' ho' =
     (if (d', p', n', ho') = (d, p, n, ho) then Some e else store_get st d' p' n' ho')"
  by (auto simp: store_get_def store_put_def Let_def hash_simps split: option.splits)

lemma store_get_next [simp]: "store_get (st\<lparr>st_next := i\<rparr>) d p n ho = store_get st d p n ho"
  by (simp add: store_get_def)

lemma store_next_put [simp]: "st_next (store_put d p n ho e st) = st_next st"
  by (simp add: store_put_def Let_def)

lemma store_wf_next [simp]: "store_wf (st\<lparr>st_next := i\<rparr>) = store_wf st"
  by (simp add: store_wf_def)

lemma store_wf_default [simp]: "store_wf store_default"
  by (simp add: store_wf_def store_default_def)

lemma store_get_default [simp]: "store_get store_default d p n ho = None"
  by (simp add: store_get_def store_default_def)

lemma paths_wf_Nil [simp]: "paths_wf []"
  by (simp add: paths_wf_def)

lemma paths_wf_insert: "paths_wf pm \<Longrightarrow> scope_wf sm \<Longrightarrow> \<not> scope_is_empty sm \<Longrightarrow> paths_wf (hm_insert p sm pm)"
  by (simp add: paths_wf_def hash_simps)

lemma paths_wf_remove: "paths_wf pm \<Longrightarrow> paths_wf (hm_remove p pm)"
  by (simp add: paths_wf_def hash_simps)

lemma store_wf_cookies_insert:
  "store_wf st \<Longrightarrow> paths_wf pm \<Longrightarrow> pm \<noteq> [] \<Longrightarrow>
   store_wf (st\<lparr>st_cookies := hm_insert d pm (st_cookies st)\<rparr>)"
  by (simp add: store_wf_def hash_simps)

lemma store_wf_cookies_remove:
  "store_wf st \<Longrightarrow> store_wf (st\<lparr>st_cookies := hm_remove d (st_cookies st)\<rparr>)"
  by (simp add: store_wf_def hash_simps)

lemma store_wf_put:
  assumes "store_wf st"
  shows "store_wf (store_put d p n ho e st)"
proof -
  let ?pm = "case hm_get (st_cookies st) d of None \<Rightarrow> [] | Some pm \<Rightarrow> pm"
  let ?sm = "case hm_get ?pm p of None \<Rightarrow> scope_default | Some sm \<Rightarrow> sm"
  from assms have "paths_wf ?pm" by (auto simp: store_wf_def split: option.split)
  moreover from this have "scope_wf ?sm" by (auto simp: paths_wf_def split: option.split)
  ultimately show ?thesis
    using assms by (simp add: store_put_def Let_def paths_wf_insert store_wf_cookies_insert)
qed

lemma store_wf_insert: "store_wf st \<Longrightarrow> store_wf (insert_stored_cookie st d p c)"
  by (simp add: insert_stored_cookie_def Let_def store_wf_put split: option.split)

lemma store_wf_remove:
  assumes "store_wf st"
  shows "store_wf (remove_stored_cookie_inner st d p n ho)"
proof (cases "hm_get (st_cookies st) d")
  case pm: (Some pm)
  with assms have w: "paths_wf pm" "pm \<noteq> []" by (auto simp: store_wf_def)
  show ?thesis
  proof (cases "hm_get pm p")
    case None
    with assms pm w show ?thesis
      by (simp add: remove_stored_cookie_inner_def store_wf_cookies_insert)
  next
    case (Some sm)
    with w have "scope_wf sm" by (simp add: paths_wf_def)
    with assms pm w Some show ?thesis
      by (simp add: remove_stored_cookie_inner_def Let_def store_wf_cookies_insert paths_wf_insert
          store_wf_cookies_remove paths_wf_remove split: option.split)
  qed
qed (use assms in \<open>simp add: remove_stored_cookie_inner_def\<close>)

lemma store_get_remove:
  "store_get (remove_stored_cookie_inner st d p n s) d' p' n' ho' =
     (if d' = d \<and> p' = p \<and> n' = n \<and> (s = None \<or> s = Some ho') then None
      else store_get st d' p' n' ho')"
proof (cases "hm_get (st_cookies st) d")
  case None
  then show ?thesis
    by (auto simp: remove_stored_cookie_inner_def store_get_def)
next
  case pm: (Some pm)
  show ?thesis
  proof (cases "hm_get pm p")
    case None
    with pm show ?thesis
      by (auto simp: remove_stored_cookie_inner_def store_get_def hash_simps Let_def)
  next
    case sm: (Some sm)
    let ?sm = "case s of Some ho \<Rightarrow> scope_remove n ho sm | None \<Rightarrow> scope_remove_all n sm"
    have g: "scope_get ?sm n' ho' =
        (if n' = n \<and> (s = None \<or> s = Some ho') then None else scope_get sm n' ho')" for n' ho'
      by (cases s) (auto simp: hash_simps)
    let ?pm = "if scope_is_empty ?sm then hm_remove p pm else hm_insert p ?sm pm"
    have b: "Option.bind (hm_get ?pm p') (\<lambda>m. scope_get m n' ho') =
        (if p' = p then scope_get ?sm n' ho' else Option.bind (hm_get pm p') (\<lambda>m. scope_get m n' ho'))"
      for p' n' ho'
      by (auto simp: hash_simps scope_is_empty_iff)
    have st': "hm_get (st_cookies (remove_stored_cookie_inner st d p n s)) d' =
        (if d' = d then (if ?pm = [] then None else Some ?pm) else hm_get (st_cookies st) d')" for d'
      by (simp add: remove_stored_cookie_inner_def pm sm Let_def hash_simps)
    have e: "Option.bind (if ?pm = [] then None else Some ?pm) f = Option.bind (Some ?pm) f"
      if "f [] = None" for f :: "(string, scope_map) hash_map \<Rightarrow> cookie_entry option"
      using that by simp
    have "store_get (remove_stored_cookie_inner st d p n s) d' p' n' ho' =
        (if d' = d then Option.bind (hm_get ?pm p') (\<lambda>m. scope_get m n' ho')
         else store_get st d' p' n' ho')"
      unfolding store_get_def st' by (simp add: e del: split_paired_All split_paired_Ex)
    then show ?thesis
      unfolding b g by (cases "d' = d"; cases "p' = p"; cases s) (auto simp: store_get_def pm sm)
  qed
qed

lemma all_entries_iff:
  assumes "store_wf st"
  shows "(d, p, e) \<in> set (all_entries st) \<longleftrightarrow> (\<exists>n ho. store_get st d p n ho = Some e)"
proof -
  have w: "hm_wf (st_cookies st)" "\<And>pm. hm_get (st_cookies st) d = Some pm \<Longrightarrow> hm_wf pm"
    "\<And>pm sm. hm_get (st_cookies st) d = Some pm \<Longrightarrow> hm_get pm p = Some sm \<Longrightarrow> scope_wf sm"
    using assms by (auto simp: store_wf_def paths_wf_def)
  have "(d, p, e) \<in> set (all_entries st) \<longleftrightarrow>
    (\<exists>pm sm. (d, pm) \<in> set (st_cookies st) \<and> (p, sm) \<in> set pm \<and> e \<in> set (scope_values sm))"
    unfolding all_entries_def in_concat_map split_paired_Ex prod.case set_map image_iff Bex_def
      prod.inject by blast
  also have "\<dots> \<longleftrightarrow> (\<exists>pm sm. hm_get (st_cookies st) d = Some pm \<and> hm_get pm p = Some sm \<and>
      (\<exists>n ho. scope_get sm n ho = Some e))"
    unfolding hm_mem_iff [OF w(1)]
    using hm_mem_iff [OF w(2)] scope_values_iff [OF w(3)] by blast
  also have "\<dots> \<longleftrightarrow> (\<exists>n ho. store_get st d p n ho = Some e)"
    by (auto simp: store_get_def bind_eq_Some_conv)
  finally show ?thesis .
qed

lemma matching_cookies_iff:
  "store_wf st \<Longrightarrow>
   (d, p, e) \<in> set (matching_cookies st u h now) \<longleftrightarrow>
     (\<exists>n ho. store_get st d p n ho = Some e) \<and> request_matches_cookie u h d p (ce_cookie e) now"
  by (simp add: matching_cookies_def all_entries_iff)

lemma would_overlay_iff:
  assumes "store_wf st"
  shows "would_overlay_secure_cookie st n d p now \<longleftrightarrow>
    (\<exists>d' p' ho e. store_get st d' p' n ho = Some e \<and>
       (domain_match d' d \<or> domain_match d d') \<and> path_match p p' \<and>
       ck_secure (ce_cookie e) = Some True \<and> \<not> cookie_is_expired (ce_cookie e) now)"
proof -
  have w: "hm_wf (st_cookies st)" "\<And>d pm. hm_get (st_cookies st) d = Some pm \<Longrightarrow> hm_wf pm"
    using assms by (auto simp: store_wf_def paths_wf_def)
  have "would_overlay_secure_cookie st n d p now \<longleftrightarrow>
    (\<exists>d' pm p' sm e. (d', pm) \<in> set (st_cookies st) \<and> (p', sm) \<in> set pm \<and>
       e \<in> set (scope_entries sm n) \<and>
       (domain_match d' d \<or> domain_match d d') \<and> path_match p p' \<and>
       ck_secure (ce_cookie e) = Some True \<and> \<not> cookie_is_expired (ce_cookie e) now)"
    unfolding would_overlay_secure_cookie_def list_ex_iff by blast
  also have "\<dots> \<longleftrightarrow>
    (\<exists>d' pm p' sm e. hm_get (st_cookies st) d' = Some pm \<and> hm_get pm p' = Some sm \<and>
       (\<exists>ho. scope_get sm n ho = Some e) \<and>
       (domain_match d' d \<or> domain_match d d') \<and> path_match p p' \<and>
       ck_secure (ce_cookie e) = Some True \<and> \<not> cookie_is_expired (ce_cookie e) now)"
    unfolding hm_mem_iff [OF w(1)] scope_entries_iff using hm_mem_iff [OF w(2)] by metis
  also have "\<dots> \<longleftrightarrow>
    (\<exists>d' p' ho e. store_get st d' p' n ho = Some e \<and>
       (domain_match d' d \<or> domain_match d d') \<and> path_match p p' \<and>
       ck_secure (ce_cookie e) = Some True \<and> \<not> cookie_is_expired (ce_cookie e) now)"
    unfolding store_get_def bind_eq_Some_conv by blast
  finally show ?thesis .
qed

lemma view_insert: "view (insert_stored_cookie st d p c) = flat_insert d p c (view st)"
  by (cases "store_get st d p (ck_name c) (ck_domain c = None)")
     (auto simp: view_def flat_insert_def insert_stored_cookie_def Let_def fun_eq_iff hash_simps)

definition removed_keys :: "host \<Rightarrow> string \<Rightarrow> string \<Rightarrow> bool option \<Rightarrow> cookie_key set" where
  "removed_keys d p n s = {(d, p, n, ho) | ho. s = None \<or> s = Some ho}"

lemma st_next_remove [simp]: "st_next (remove_stored_cookie_inner st d p n s) = st_next st"
  by (simp add: remove_stored_cookie_inner_def Let_def split: option.split)

lemma view_remove:
  "view (remove_stored_cookie_inner st d p n s) = flat_remove (removed_keys d p n s) (view st)"
  by (auto simp: view_def flat_remove_def removed_keys_def fun_eq_iff restrict_map_def store_get_remove)

lemma view_get [simp]: "fl_map (view st) (d, p, n, ho) = store_get st d p n ho"
  by (simp add: view_def)

lemma view_default: "view store_default = \<lparr>fl_map = Map.empty, fl_next = 0\<rparr>"
  by (simp add: view_def fun_eq_iff) (simp add: store_default_def)

text \<open>C11: the nested maps implement the flat store of the RFC storage model: inserting a cookie
  updates exactly the entry with its domain, path, name and host-only flag, keeping the creation
  index when the value is unchanged and drawing the next one otherwise; removing clears exactly the
  named keys, in one scope or in both; the well-formedness of the nested maps (no duplicate keys, no
  empty inner map left behind) is preserved; and the iteration of a well-formed store enumerates
  exactly the entries of the flat map.\<close>

theorem store_refines_flat:
  "view (insert_stored_cookie st d p c) = flat_insert d p c (view st) \<and>
   view (remove_stored_cookie st d p n ho) = flat_remove {(d, p, n, ho)} (view st) \<and>
   view (remove_stored_cookies st d p n) = flat_remove {(d, p, n, True), (d, p, n, False)} (view st) \<and>
   (store_wf st \<longrightarrow>
      store_wf (insert_stored_cookie st d p c) \<and>
      store_wf (remove_stored_cookie st d p n ho) \<and>
      store_wf (remove_stored_cookies st d p n) \<and>
      set (all_entries st) = {(d', p', e). \<exists>n' ho'. fl_map (view st) (d', p', n', ho') = Some e})"
proof -
  have "removed_keys d p n (Some ho) = {(d, p, n, ho)}"
    "removed_keys d p n None = {(d, p, n, True), (d, p, n, False)}"
    by (auto simp: removed_keys_def)
  moreover have "set (all_entries st) = {(d', p', e). \<exists>n' ho'. fl_map (view st) (d', p', n', ho') = Some e}"
    if "store_wf st"
    by (simp add: set_eq_iff all_entries_iff [OF that])
  ultimately show ?thesis
    by (auto simp: remove_stored_cookie_def remove_stored_cookies_def view_insert view_remove
        store_wf_insert store_wf_remove)
qed

definition sample_cookie :: "string \<Rightarrow> string \<Rightarrow> raw_cookie" where
  "sample_cookie n v =
     \<lparr>ck_name = n, ck_value = v, ck_domain = None, ck_path = Some ''/'', ck_secure = None,
      ck_http_only = None, ck_same_site = None, ck_max_age = None, ck_expires = None\<rparr>"

theorem store_refines_flat_witness:
  "store_wf (insert_stored_cookie store_default (Domain ''h'') ''/'' (sample_cookie ''a'' ''1''))"
  using store_refines_flat [of store_default] by simp

section \<open>The storage contract\<close>

text \<open>Facts about the flat store that hold of every implementation: stored cookies sit under their
  own name and host-only flag, and creation indices are unique and below the next index (as long as
  the 64-bit counter has not saturated).\<close>

definition flat_keyed :: "flat_store \<Rightarrow> bool" where
  "flat_keyed fl \<longleftrightarrow>
     (\<forall>d p n ho e. fl_map fl (d, p, n, ho) = Some e \<longrightarrow>
        ck_name (ce_cookie e) = n \<and> (ck_domain (ce_cookie e) = None) = ho)"

definition flat_indexed :: "flat_store \<Rightarrow> bool" where
  "flat_indexed fl \<longleftrightarrow>
     fl_next fl < u64_max \<longrightarrow>
       (\<forall>k e. fl_map fl k = Some e \<longrightarrow> ce_index e < fl_next fl) \<and>
       (\<forall>k k' e e'. fl_map fl k = Some e \<longrightarrow> fl_map fl k' = Some e' \<longrightarrow>
          ce_index e = ce_index e' \<longrightarrow> k = k')"

lemma flat_keyed_insert: "flat_keyed fl \<Longrightarrow> flat_keyed (flat_insert d p c fl)"
  by (simp add: flat_keyed_def flat_insert_def Let_def)

lemma flat_keyed_remove: "flat_keyed fl \<Longrightarrow> flat_keyed (flat_remove K fl)"
  by (auto simp: flat_keyed_def flat_remove_def restrict_map_def split: if_splits)

lemma flat_indexed_remove: "flat_indexed fl \<Longrightarrow> flat_indexed (flat_remove K fl)"
  unfolding flat_indexed_def flat_remove_def restrict_map_def by (auto split: if_splits)

lemma flat_indexed_replace:
  assumes "flat_indexed fl" "fl_map fl k = Some e" "ce_index e' = ce_index e"
  shows "flat_indexed \<lparr>fl_map = (fl_map fl)(k \<mapsto> e'), fl_next = fl_next fl\<rparr>"
  using assms unfolding flat_indexed_def by (auto split: if_splits) (metis+)

lemma flat_indexed_fresh:
  assumes i: "flat_indexed fl" and e: "ce_index e = fl_next fl"
  shows "flat_indexed \<lparr>fl_map = (fl_map fl)(k \<mapsto> e), fl_next = u64_saturating_add (fl_next fl) 1\<rparr>"
proof (cases "u64_saturating_add (fl_next fl) 1 < u64_max")
  case True
  then have n: "u64_saturating_add (fl_next fl) 1 = Suc (fl_next fl)" "fl_next fl < u64_max"
    by (auto simp: u64_saturating_add_def)
  with i have b: "fl_map fl k' = Some e' \<Longrightarrow> ce_index e' < fl_next fl"
    and u: "fl_map fl k1 = Some e1 \<Longrightarrow> fl_map fl k2 = Some e2 \<Longrightarrow> ce_index e1 = ce_index e2 \<Longrightarrow> k1 = k2"
    for k' e' k1 e1 k2 e2
    unfolding flat_indexed_def by blast+
  have "ce_index e1 < Suc (fl_next fl)" if "((fl_map fl)(k \<mapsto> e)) k1 = Some e1" for k1 e1
    using that e b [of k1 e1] by (cases "k1 = k") auto
  moreover have "k1 = k2" if "((fl_map fl)(k \<mapsto> e)) k1 = Some e1"
    "((fl_map fl)(k \<mapsto> e)) k2 = Some e2" "ce_index e1 = ce_index e2" for k1 e1 k2 e2
    using that e b [of k1 e1] b [of k2 e2] u [of k1 e1 k2 e2] by (cases "k1 = k"; cases "k2 = k") auto
  ultimately show ?thesis
    unfolding flat_indexed_def flat_store.simps n by blast
qed (simp add: flat_indexed_def)

lemma flat_indexed_insert:
  assumes "flat_indexed fl"
  shows "flat_indexed (flat_insert d p c fl)"
proof (cases "fl_map fl (d, p, ck_name c, ck_domain c = None)")
  case None
  with assms show ?thesis by (simp add: flat_insert_def Let_def flat_indexed_fresh del: One_nat_def)
next
  case (Some e)
  with assms flat_indexed_replace [OF assms Some, of "\<lparr>ce_cookie = c, ce_index = ce_index e\<rparr>"]
  show ?thesis by (simp add: flat_insert_def Let_def flat_indexed_fresh del: One_nat_def)
qed

locale cookie_storage =
  fixes wf :: "'s \<Rightarrow> bool" and flat :: "'s \<Rightarrow> flat_store" and init :: 's
    and ins :: "'s \<Rightarrow> host \<Rightarrow> string \<Rightarrow> raw_cookie \<Rightarrow> 's"
    and rem :: "'s \<Rightarrow> host \<Rightarrow> string \<Rightarrow> string \<Rightarrow> bool option \<Rightarrow> 's"
  assumes wf_init: "wf init" and flat_init: "fl_map (flat init) = Map.empty"
    and wf_ins: "wf s \<Longrightarrow> wf (ins s d p c)"
    and flat_ins: "flat (ins s d p c) = flat_insert d p c (flat s)"
    and wf_rem: "wf s \<Longrightarrow> wf (rem s d p n ho)"
    and flat_rem: "flat (rem s d p n ho) = flat_remove (removed_keys d p n ho) (flat s)"
begin

lemma inv_init: "wf init \<and> flat_keyed (flat init) \<and> flat_indexed (flat init)"
  by (simp add: wf_init flat_init flat_keyed_def flat_indexed_def)

lemma inv_ins:
  "wf s \<and> flat_keyed (flat s) \<and> flat_indexed (flat s) \<Longrightarrow>
   wf (ins s d p c) \<and> flat_keyed (flat (ins s d p c)) \<and> flat_indexed (flat (ins s d p c))"
  by (simp add: wf_ins flat_ins flat_keyed_insert flat_indexed_insert)

lemma inv_rem:
  "wf s \<and> flat_keyed (flat s) \<and> flat_indexed (flat s) \<Longrightarrow>
   wf (rem s d p n ho) \<and> flat_keyed (flat (rem s d p n ho)) \<and> flat_indexed (flat (rem s d p n ho))"
  by (simp add: wf_rem flat_rem flat_keyed_remove flat_indexed_remove)

lemma ins_lookup:
  "\<exists>i. fl_map (flat (ins s d p c)) (d, p, ck_name c, ck_domain c = None) =
     Some \<lparr>ce_cookie = c, ce_index = i\<rparr>"
  by (simp add: flat_ins flat_insert_def Let_def)

lemma ins_other:
  "k \<noteq> (d, p, ck_name c, ck_domain c = None) \<Longrightarrow> fl_map (flat (ins s d p c)) k = fl_map (flat s) k"
  by (simp add: flat_ins flat_insert_def Let_def)

lemma rem_mono: "fl_map (flat (rem s d p n ho)) k = Some e \<Longrightarrow> fl_map (flat s) k = Some e"
  by (simp add: flat_rem flat_remove_def restrict_map_def split: if_splits)

end

interpretation nested: cookie_storage store_wf view store_default insert_stored_cookie
  remove_stored_cookie_inner
  by unfold_locales
     (simp_all add: view_default view_insert view_remove store_wf_insert store_wf_remove)

end
