(* ===== verification/Wreq_Error.thy ===== *)
theory Wreq_Error
  imports Uri_Ext
begin

text \<open>
  The error values of \<^verbatim>\<open>src/src/error.rs\<close> and the error types of the connection components
  that are wrapped in them.  A boxed error (\<^verbatim>\<open>BoxError\<close>) is a value of the datatype \<open>error\<close>; the
  constructors are the concrete error types the code downcasts to, and \<open>Other\<close> stands for every
  foreign error type.  \<open>error_source\<close> is \<^verbatim>\<open>std::error::Error::source\<close> of each type: it decides
  which causes the classifying predicates of \<^verbatim>\<open>wreq::Error\<close> can see.
\<close>

section \<open>Error values\<close>

datatype kind =
    KBuilder | KRequest | KTls | KRedirect | KStatus nat "string option" | KBody | KDecode | KUpgrade | KWebSocket

datatype io_kind = IoTimedOut | IoConnectionReset | IoNotConnected | IoOther

text \<open>Kinds of \<^verbatim>\<open>client/layer/client.rs\<close>, errors of \<^verbatim>\<open>pool.rs\<close>.\<close>

datatype client_kind =
    Canceled | ChannelClosed | Connect | ProxyConnectKind | UserUnsupportedRequestMethod
  | UserUnsupportedVersion | UserAbsoluteUriRequired | SendRequest

datatype pool_error = PoolDisabled | CheckoutNoLongerWanted | CheckedOutClosedValue

datatype error =
    WreqError kind "error option" "uri option"
  | TimedOut
  | BadScheme
  | ProxyConnect error
  | DnsError error
  | TooManyRedirects
  | ClientError client_kind "error option"
  | PoolError pool_error
  | ConnectError string "error option"
  | TunnelConnectFailed error
  | TunnelIo error
  | TunnelParse error
  | TunnelMissingHost
  | TunnelProxyAuthRequired
  | TunnelUnexpectedEof
  | TunnelUnsuccessful
  | SocksConnectFailed error
  | SocksDnsResolveFailure error
  | SocksSocks error
  | SocksIo error
  | SocksUtf8
  | SocksDnsFailure
  | SocksMissingHost
  | IoError io_kind "error option"
  | NettyError bool "error option"
  | Elapsed
  | Other string "error option"

section \<open>Constructors of \<^verbatim>\<open>wreq::Error\<close>\<close>

definition err_new :: "kind \<Rightarrow> error option \<Rightarrow> error" where
  "err_new k src = WreqError k src None"

fun with_uri :: "error \<Rightarrow> uri \<Rightarrow> error" where
  "with_uri (WreqError k src _) u = WreqError k src (Some u)"
| "with_uri e u = e"

fun without_uri :: "error \<Rightarrow> error" where
  "without_uri (WreqError k src _) = WreqError k src None"
| "without_uri e = e"

fun err_uri :: "error \<Rightarrow> uri option" where
  "err_uri (WreqError _ _ u) = u"
| "err_uri _ = None"

definition err_builder :: "error \<Rightarrow> error" where
  "err_builder e = err_new KBuilder (Some e)"

definition err_body :: "error \<Rightarrow> error" where
  "err_body e = err_new KBody (Some e)"

definition err_decode :: "error \<Rightarrow> error" where
  "err_decode e = err_new KDecode (Some e)"

definition err_request :: "error \<Rightarrow> error" where
  "err_request e = err_new KRequest (Some e)"

definition err_tls :: "error \<Rightarrow> error" where
  "err_tls e = err_new KTls (Some e)"

definition err_upgrade :: "error \<Rightarrow> error" where
  "err_upgrade e = err_new KUpgrade (Some e)"

definition err_websocket :: "error \<Rightarrow> error" where
  "err_websocket e = err_new KWebSocket (Some e)"

definition err_status_code :: "uri \<Rightarrow> nat \<Rightarrow> string option \<Rightarrow> error" where
  "err_status_code u status reason = with_uri (err_new (KStatus status reason) None) u"

definition err_redirect :: "error \<Rightarrow> uri \<Rightarrow> error" where
  "err_redirect e u = with_uri (err_new KRedirect (Some e)) u"

definition uri_bad_scheme :: "uri \<Rightarrow> error" where
  "uri_bad_scheme u = with_uri (err_new KBuilder (Some BadScheme)) u"

fun err_kind :: "error \<Rightarrow> kind option" where
  "err_kind (WreqError k _ _) = Some k"
| "err_kind _ = None"

definition is_builder :: "error \<Rightarrow> bool" where
  "is_builder e \<longleftrightarrow> err_kind e = Some KBuilder"

definition is_redirect :: "error \<Rightarrow> bool" where
  "is_redirect e \<longleftrightarrow> err_kind e = Some KRedirect"

definition err_status :: "error \<Rightarrow> nat option" where
  "err_status e = (case err_kind e of Some (KStatus code _) \<Rightarrow> Some code | _ \<Rightarrow> None)"

definition is_status :: "error \<Rightarrow> bool" where
  "is_status e \<longleftrightarrow> (case err_kind e of Some (KStatus _ _) \<Rightarrow> True | _ \<Rightarrow> False)"

definition is_request :: "error \<Rightarrow> bool" where
  "is_request e \<longleftrightarrow> err_kind e = Some KRequest"

definition is_body :: "error \<Rightarrow> bool" where
  "is_body e \<longleftrightarrow> err_kind e = Some KBody"

definition is_tls :: "error \<Rightarrow> bool" where
  "is_tls e \<longleftrightarrow> err_kind e = Some KTls"

definition is_decode :: "error \<Rightarrow> bool" where
  "is_decode e \<longleftrightarrow> err_kind e = Some KDecode"

definition is_upgrade :: "error \<Rightarrow> bool" where
  "is_upgrade e \<longleftrightarrow> err_kind e = Some KUpgrade"

definition is_websocket :: "error \<Rightarrow> bool" where
  "is_websocket e \<longleftrightarrow> err_kind e = Some KWebSocket"

section \<open>The source chain\<close>

text \<open>
  \<^verbatim>\<open>io::Error::source\<close> of the standard library returns the source of the wrapped error, not the
  wrapped error itself.  \<^verbatim>\<open>SocksError\<close> implements \<^verbatim>\<open>Error\<close> with an empty body, so it has no
  source.
\<close>

fun error_source :: "error \<Rightarrow> error option" where
  "error_source (WreqError _ src _) = src"
| "error_source TimedOut = None"
| "error_source BadScheme = None"
| "error_source (ProxyConnect e) = Some e"
| "error_source (DnsError e) = Some e"
| "error_source TooManyRedirects = None"
| "error_source (ClientError _ src) = src"
| "error_source (PoolError _) = None"
| "error_source (ConnectError _ cause) = cause"
| "error_source (TunnelConnectFailed e) = Some e"
| "error_source (TunnelIo e) = Some e"
| "error_source (TunnelParse e) = Some e"
| "error_source TunnelMissingHost = None"
| "error_source TunnelProxyAuthRequired = None"
| "error_source TunnelUnexpectedEof = None"
| "error_source TunnelUnsuccessful = None"
| "error_source (SocksConnectFailed _) = None"
| "error_source (SocksDnsResolveFailure _) = None"
| "error_source (SocksSocks _) = None"
| "error_source (SocksIo _) = None"
| "error_source SocksUtf8 = None"
| "error_source SocksDnsFailure = None"
| "error_source SocksMissingHost = None"
| "error_source (IoError _ None) = None"
| "error_source (IoError _ (Some e)) = error_source e"
| "error_source (NettyError _ src) = src"
| "error_source Elapsed = None"
| "error_source (Other _ src) = src"

lemma error_source_smaller: "error_source e = Some e' \<Longrightarrow> size e' < size e"
proof (induction e arbitrary: e' rule: error_source.induct)
  case (25 k e)
  then show ?case by fastforce
qed auto

text \<open>The loop \<^verbatim>\<open>while let Some(err) = source\<close> visits the chain of sources, from the first one.\<close>

function source_chain :: "error \<Rightarrow> error list" where
  "source_chain e = (case error_source e of None \<Rightarrow> [] | Some s \<Rightarrow> s # source_chain s)"
  by pat_completeness auto
termination
  by (relation "measure size") (auto dest: error_source_smaller)

declare source_chain.simps [simp del]

fun is_timeout_cause :: "error \<Rightarrow> bool" where
  "is_timeout_cause TimedOut = True"
| "is_timeout_cause (NettyError t _) = t"
| "is_timeout_cause (IoError k _) = (k = IoTimedOut)"
| "is_timeout_cause _ = False"

definition is_timeout :: "error \<Rightarrow> bool" where
  "is_timeout e \<longleftrightarrow> list_ex is_timeout_cause (source_chain e)"

fun client_is_connect :: "error \<Rightarrow> bool" where
  "client_is_connect (ClientError k _) = (k = Connect)"
| "client_is_connect _ = False"

fun client_is_proxy_connect :: "error \<Rightarrow> bool" where
  "client_is_proxy_connect (ClientError k _) = (k = ProxyConnectKind)"
| "client_is_proxy_connect _ = False"

definition is_connect :: "error \<Rightarrow> bool" where
  "is_connect e \<longleftrightarrow> list_ex client_is_connect (source_chain e)"

definition is_proxy_connect :: "error \<Rightarrow> bool" where
  "is_proxy_connect e \<longleftrightarrow> list_ex client_is_proxy_connect (source_chain e)"

fun is_reset_cause :: "error \<Rightarrow> bool" where
  "is_reset_cause (IoError k _) = (k = IoConnectionReset)"
| "is_reset_cause _ = False"

definition is_connection_reset :: "error \<Rightarrow> bool" where
  "is_connection_reset e \<longleftrightarrow> list_ex is_reset_cause (source_chain e)"

fun is_dns_cause :: "error \<Rightarrow> bool" where
  "is_dns_cause (DnsError _) = True"
| "is_dns_cause _ = False"

definition is_dns :: "error \<Rightarrow> bool" where
  "is_dns e \<longleftrightarrow> list_ex is_dns_cause (source_chain e)"

definition map_timeout_to_connector_error :: "error \<Rightarrow> error" where
  "map_timeout_to_connector_error e = (if e = Elapsed then TimedOut else e)"

definition map_timeout_to_request_error :: "error \<Rightarrow> error" where
  "map_timeout_to_request_error e = (if e = Elapsed then err_request TimedOut else e)"

section \<open>Display\<close>

text \<open>\<^verbatim>\<open>util::Escape\<close> writes bytes with the escapes of the language.\<close>

definition hex_lower :: string where
  "hex_lower = ''0123456789abcdef''"

definition escape_byte :: "char \<Rightarrow> string" where
  "escape_byte c =
     (if c = CHR 0x0A then [CHR 0x5C, CHR ''n'']
      else if c = CHR 0x0D then [CHR 0x5C, CHR ''r'']
      else if c = CHR 0x09 then [CHR 0x5C, CHR ''t'']
      else if c = CHR 0x5C \<or> c = CHR 0x22 then [CHR 0x5C, c]
      else if c = CHR 0x00 then [CHR 0x5C, CHR ''0'']
      else if 0x20 \<le> (of_char c :: nat) \<and> (of_char c :: nat) < 0x7F then [c]
      else [CHR 0x5C, CHR ''x'', hex_lower ! (of_char c div 16), hex_lower ! (of_char c mod 16)])"

definition escape :: "string \<Rightarrow> string" where
  "escape s = concat (map escape_byte s)"

text \<open>The texts of a URI, of a status code and of foreign errors come from other crates.\<close>

record display_lib =
  dl_uri :: "uri \<Rightarrow> string"
  dl_status_str :: "nat \<Rightarrow> string"
  dl_status :: "nat \<Rightarrow> string"
  dl_error :: "error \<Rightarrow> string"

fun kind_display :: "display_lib \<Rightarrow> kind \<Rightarrow> string" where
  "kind_display D KBuilder = ''builder error''"
| "kind_display D KRequest = ''error sending request''"
| "kind_display D KBody = ''request or response body error''"
| "kind_display D KTls = ''tls error''"
| "kind_display D KDecode = ''error decoding response body''"
| "kind_display D KRedirect = ''error following redirect''"
| "kind_display D KUpgrade = ''error upgrading connection''"
| "kind_display D KWebSocket = ''websocket error''"
| "kind_display D (KStatus code reason) =
     (let pre = (if 400 \<le> code \<and> code < 500 then ''HTTP status client error''
                 else ''HTTP status server error'')
      in case reason of
           Some r \<Rightarrow> pre @ '' ('' @ dl_status_str D code @ '' '' @ escape r @ '')''
         | None \<Rightarrow> pre @ '' ('' @ dl_status D code @ '')'')"

fun error_display :: "display_lib \<Rightarrow> error \<Rightarrow> string" where
  "error_display D (WreqError k src u) =
     kind_display D k @
     (case u of Some x \<Rightarrow> '' for uri ('' @ dl_uri D x @ '')'' | None \<Rightarrow> []) @
     (case src of Some e \<Rightarrow> '': '' @ error_display D e | None \<Rightarrow> [])"
| "error_display D TimedOut = ''operation timed out''"
| "error_display D BadScheme = ''URI scheme is not allowed''"
| "error_display D (ProxyConnect e) = ''proxy connect error: '' @ error_display D e"
| "error_display D (DnsError e) = ''dns resolution error: '' @ error_display D e"
| "error_display D e = dl_error D e"

section \<open>Errors of the HTTP client component\<close>

text \<open>\<^verbatim>\<open>Error::new\<close> of \<^verbatim>\<open>client/layer/client.rs\<close>: a tunnel, SOCKS or proxy error overrides the
  requested kind.\<close>

fun is_proxy_cause :: "error \<Rightarrow> bool" where
  "is_proxy_cause (ProxyConnect _) = True"
| "is_proxy_cause (TunnelConnectFailed _) = True"
| "is_proxy_cause (TunnelIo _) = True"
| "is_proxy_cause (TunnelParse _) = True"
| "is_proxy_cause TunnelMissingHost = True"
| "is_proxy_cause TunnelProxyAuthRequired = True"
| "is_proxy_cause TunnelUnexpectedEof = True"
| "is_proxy_cause TunnelUnsuccessful = True"
| "is_proxy_cause (SocksConnectFailed _) = True"
| "is_proxy_cause (SocksDnsResolveFailure _) = True"
| "is_proxy_cause (SocksSocks _) = True"
| "is_proxy_cause (SocksIo _) = True"
| "is_proxy_cause SocksUtf8 = True"
| "is_proxy_cause SocksDnsFailure = True"
| "is_proxy_cause SocksMissingHost = True"
| "is_proxy_cause _ = False"

definition client_error_new :: "client_kind \<Rightarrow> error \<Rightarrow> error" where
  "client_error_new k e =
     ClientError (if is_proxy_cause e then ProxyConnectKind else k) (Some e)"

section \<open>Lemmas\<close>

lemma source_chain_step:
  "error_source e = Some s \<Longrightarrow> source_chain e = s # source_chain s"
  by (simp add: source_chain.simps)

lemma source_chain_end: "error_source e = None \<Longrightarrow> source_chain e = []"
  by (simp add: source_chain.simps)

lemma source_chain_wreq:
  "source_chain (WreqError k (Some e) u) = e # source_chain e"
  by (simp add: source_chain_step)

lemmas chain_simps = source_chain_step source_chain_end source_chain_wreq

text \<open>\<^verbatim>\<open>SocksError\<close> reports no source, so the flags of the error a caller gets do not see the cause of a SOCKS failure.\<close>

theorem socks_hides_cause:
  "\<not> is_timeout (err_request (client_error_new k (SocksConnectFailed e)))"
  "\<not> is_dns (err_request (client_error_new k (SocksDnsResolveFailure e)))"
  by (simp_all add: is_timeout_def is_dns_def err_request_def err_new_def client_error_new_def chain_simps)

section \<open>Escaping\<close>

text \<open>A reader for the escapes, to state that nothing is lost.\<close>

definition unhex :: "char \<Rightarrow> nat" where
  "unhex c = (let n = of_char c in if n < 58 then n - 48 else n - 87)"

fun unescape :: "string \<Rightarrow> string" where
  "unescape [] = []"
| "unescape [c] = [c]"
| "unescape (c # d # s) =
     (if c \<noteq> CHR 0x5C then c # unescape (d # s)
      else if d = CHR ''x'' then
        char_of (unhex (s ! 0) * 16 + unhex (s ! 1)) # unescape (drop 2 s)
      else if d = CHR ''n'' then CHR 0x0A # unescape s
      else if d = CHR ''r'' then CHR 0x0D # unescape s
      else if d = CHR ''t'' then CHR 0x09 # unescape s
      else if d = CHR ''0'' then CHR 0x00 # unescape s
      else d # unescape s)"

lemma unhex_hex_lower: "n < 16 \<Longrightarrow> unhex (hex_lower ! n) = n"
proof -
  have "list_all (\<lambda>n. unhex (hex_lower ! n) = n) [0..<16]" by code_simp
  then show "n < 16 \<Longrightarrow> unhex (hex_lower ! n) = n" by (simp add: list_all_iff)
qed

lemma unescape_escape_byte: "unescape (escape_byte c @ r) = c # unescape r"
proof -
  have d: "(of_char c :: nat) div 16 < 16" "(of_char c :: nat) mod 16 < 16"
    using nat_of_char_less_256 [of c] by (simp_all add: less_mult_imp_div_less)
  have h: "char_of (unhex (hex_lower ! (of_char c div 16)) * 16 + unhex (hex_lower ! (of_char c mod 16))) = c"
    unfolding unhex_hex_lower [OF d(1)] unhex_hex_lower [OF d(2)] div_mult_mod_eq by simp
  have "c \<noteq> CHR 0x5C \<Longrightarrow> unescape (c # r) = c # unescape r"
    by (cases r) simp_all
  then show ?thesis
    by (simp add: escape_byte_def h)
qed

definition printable :: "char \<Rightarrow> bool" where
  "printable c \<longleftrightarrow> 0x20 \<le> (of_char c :: nat) \<and> (of_char c :: nat) < 0x7F"

lemma hex_lower_printable: "n < 16 \<Longrightarrow> printable (hex_lower ! n)"
proof -
  have "list_all (\<lambda>n. printable (hex_lower ! n)) [0..<16]" by code_simp
  then show "n < 16 \<Longrightarrow> printable (hex_lower ! n)" by (simp add: list_all_iff)
qed

lemma escape_byte_printable: "list_all printable (escape_byte c)"
proof -
  have d: "(of_char c :: nat) div 16 < 16" "(of_char c :: nat) mod 16 < 16"
    using nat_of_char_less_256 [of c] by (simp_all add: less_mult_imp_div_less)
  have "printable CHR ''n''" "printable CHR ''r''" "printable CHR ''t''" "printable CHR ''0''"
    "printable CHR ''x''" "printable CHR 0x5C" "printable CHR 0x22"
    by code_simp+
  then show ?thesis
    unfolding escape_byte_def
    by (simp add: hex_lower_printable [OF d(1)] hex_lower_printable [OF d(2)])
       (simp add: printable_def)
qed

text \<open>the escaped form of any bytes (a reason phrase in an error message) is printable ASCII and
  loses nothing: reading the escapes back yields the original bytes.\<close>

theorem escape_roundtrip:
  "unescape (escape s) = s \<and> list_all printable (escape s)"
proof
  show "unescape (escape s) = s"
    by (induction s) (simp_all add: escape_def unescape_escape_byte)
  show "list_all printable (escape s)"
    by (induction s) (simp_all add: escape_def escape_byte_printable)
qed

end
