(* ===== verification/Into_Uri.thy ===== *)
theory Into_Uri
  imports Wreq_Error
begin

text \<open>
  The conversion of \<^verbatim>\<open>src/src/into_uri.rs\<close>: every input type ends in the check that the URI has a
  scheme and an authority.  The parsers of the \<^verbatim>\<open>http\<close> and \<^verbatim>\<open>url\<close> crates are
  parameters.
\<close>

record parse_lib =
  pl_uri :: "string \<Rightarrow> uri option"
  pl_url :: "string \<Rightarrow> string option"

datatype uri_kind = Bytes string | Str string

definition into_uri_uri :: "uri \<Rightarrow> (error, uri) result" where
  "into_uri_uri u =
     (case (uri_scheme u, uri_authority u) of
        (Some _, Some _) \<Rightarrow> Inr u
      | _ \<Rightarrow> Inl (uri_bad_scheme u))"

definition internal_parse :: "parse_lib \<Rightarrow> uri_kind \<Rightarrow> (error, uri) result" where
  "internal_parse L k =
     (case (case k of Bytes b \<Rightarrow> if utf8_valid b then Inr b else Inl (err_decode (Other ''utf8'' None))
            | Str s \<Rightarrow> Inr s) of
        Inl e \<Rightarrow> Inl e
      | Inr s \<Rightarrow>
          (case pl_url L s of
             None \<Rightarrow> Inl (err_builder (Other ''parse'' None))
           | Some t \<Rightarrow> (case pl_uri L t of None \<Rightarrow> Inl (err_builder (Other ''parse'' None)) | Some u \<Rightarrow> Inr u)))"

definition into_uri_kind :: "parse_lib \<Rightarrow> uri_kind \<Rightarrow> (error, uri) result" where
  "into_uri_kind L k =
     (case (case pl_uri L (case k of Bytes b \<Rightarrow> b | Str s \<Rightarrow> s) of
              Some u \<Rightarrow> Inr u
            | None \<Rightarrow> internal_parse L k) of
        Inl e \<Rightarrow> Inl e
      | Inr u \<Rightarrow> into_uri_uri u)"

definition into_uri_str :: "parse_lib \<Rightarrow> string \<Rightarrow> (error, uri) result" where
  "into_uri_str L s = into_uri_kind L (Str s)"

definition into_uri_bytes :: "parse_lib \<Rightarrow> string \<Rightarrow> (error, uri) result" where
  "into_uri_bytes L b = into_uri_kind L (Bytes b)"

lemma into_uri_uri_Inr:
  "into_uri_uri u = Inr v \<longleftrightarrow> v = u \<and> uri_scheme u \<noteq> None \<and> uri_authority u \<noteq> None"
  by (auto simp: into_uri_uri_def split: option.splits)

text \<open>Whatever the input type, a successful conversion yields a URI with a scheme and a host;
  converting it again as a URI is the identity, and a relative URI is refused with a builder error
  that carries the URI and the bad-scheme cause.\<close>

theorem into_uri_absolute:
  "(into_uri_kind L k = Inr u \<longrightarrow>
      uri_scheme u \<noteq> None \<and> uri_host u \<noteq> None \<and> into_uri_uri u = Inr u) \<and>
   (pl_uri L s = Some v \<and> (uri_scheme v = None \<or> uri_authority v = None) \<longrightarrow>
      into_uri_str L s = Inl (uri_bad_scheme v) \<and> into_uri_bytes L s = Inl (uri_bad_scheme v) \<and>
      err_uri (uri_bad_scheme v) = Some v \<and> BadScheme \<in> set (source_chain (uri_bad_scheme v)))"
proof (intro conjI impI)
  assume "into_uri_kind L k = Inr u"
  then have u: "into_uri_uri u = Inr u"
    by (auto simp: into_uri_kind_def into_uri_uri_Inr split: sum.splits)
  then show "uri_scheme u \<noteq> None" "uri_host u \<noteq> None" "into_uri_uri u = Inr u"
    by (auto simp: into_uri_uri_Inr uri_host_def)
next
  assume a: "pl_uri L s = Some v \<and> (uri_scheme v = None \<or> uri_authority v = None)"
  then have "into_uri_uri v = Inl (uri_bad_scheme v)"
    by (auto simp: into_uri_uri_def split: option.splits)
  with a show "into_uri_str L s = Inl (uri_bad_scheme v)"
    "into_uri_bytes L s = Inl (uri_bad_scheme v)"
    by (simp_all add: into_uri_str_def into_uri_bytes_def into_uri_kind_def)
  show "err_uri (uri_bad_scheme v) = Some v" "BadScheme \<in> set (source_chain (uri_bad_scheme v))"
    by (simp_all add: uri_bad_scheme_def err_new_def err_builder_def chain_simps)
qed

definition sample_uri :: "string \<Rightarrow> string \<Rightarrow> string \<Rightarrow> uri" where
  "sample_uri sch h p =
     \<lparr>uri_scheme = Some sch,
      uri_authority = Some \<lparr>auth_str = h, auth_host = h, auth_port = None\<rparr>,
      uri_pq = Some (p, None)\<rparr>"

definition sample_parse :: parse_lib where
  "sample_parse =
     \<lparr>pl_uri = (\<lambda>s. if s = ''/x''
                    then Some \<lparr>uri_scheme = None, uri_authority = None, uri_pq = Some (s, None)\<rparr>
                    else if s = ''http://h/'' then Some (sample_uri ''http'' ''h'' ''/'') else None),
      pl_url = Some\<rparr>"

theorem into_uri_absolute_witness:
  "into_uri_uri (sample_uri ''http'' ''h'' ''/'') = Inr (sample_uri ''http'' ''h'' ''/'') \<and>
   (\<exists>e. into_uri_str sample_parse ''/x'' = Inl e)"
  using into_uri_absolute [of sample_parse "Str ''http://h/''" "sample_uri ''http'' ''h'' ''/''"
      "''/x''" "\<lparr>uri_scheme = None, uri_authority = None, uri_pq = Some (''/x'', None)\<rparr>"]
  by (simp add: into_uri_kind_def into_uri_uri_def sample_parse_def sample_uri_def)

end
