(* ===== verification/Header_Model.thy ===== *)
theory Header_Model
  imports Wreq_Prelude
begin

text \<open>
  Header maps and the code that reorders and merges them: \<^verbatim>\<open>src/src/header.rs\<close> and the helpers
  of \<^verbatim>\<open>src/src/util.rs\<close>.

  \<^verbatim>\<open>http::HeaderMap\<close> is a multimap from lower-case names to non-empty lists of values.  It is
  modelled as a hash map of value lists; the list order is the iteration order of the map.
  Inserting or appending a new name puts it last, and removing a name moves the last one into the
  gap, as the crate does.
\<close>

section \<open>Header values and header maps\<close>

record header_value =
  hv_bytes :: string
  hv_sensitive :: bool

type_synonym header_map = "(string, header_value list) hash_map"

definition hdr_get_all :: "('k, 'v list) hash_map \<Rightarrow> 'k \<Rightarrow> 'v list" where
  "hdr_get_all h n = (case hm_get h n of None \<Rightarrow> [] | Some vs \<Rightarrow> vs)"

definition hdr_get :: "('k, 'v list) hash_map \<Rightarrow> 'k \<Rightarrow> 'v option" where
  "hdr_get h n = (case hdr_get_all h n of [] \<Rightarrow> None | v # _ \<Rightarrow> Some v)"

definition hdr_contains :: "('k, 'v list) hash_map \<Rightarrow> 'k \<Rightarrow> bool" where
  "hdr_contains h n \<longleftrightarrow> hdr_get_all h n \<noteq> []"

definition hdr_insert :: "'k \<Rightarrow> 'v \<Rightarrow> ('k, 'v list) hash_map \<Rightarrow> ('k, 'v list) hash_map" where
  "hdr_insert n v h = hm_insert n [v] h"

definition hdr_append :: "'k \<Rightarrow> 'v \<Rightarrow> ('k, 'v list) hash_map \<Rightarrow> ('k, 'v list) hash_map" where
  "hdr_append n v h = hm_insert n (hdr_get_all h n @ [v]) h"

text \<open>\<^verbatim>\<open>entry(name).or_insert_with(value)\<close>.\<close>

definition or_insert :: "'k \<Rightarrow> 'v \<Rightarrow> ('k, 'v list) hash_map \<Rightarrow> ('k, 'v list) hash_map" where
  "or_insert n v h = (if hdr_contains h n then h else hdr_insert n v h)"

text \<open>The removed entry is swapped with the last one and popped (\<^verbatim>\<open>Vec::swap_remove\<close>).  The names of a map are distinct;
  a list that repeats a name is no header map, and there all its entries are removed.\<close>

definition swap_remove :: "'k \<Rightarrow> ('k, 'v) hash_map \<Rightarrow> ('k, 'v) hash_map" where
  "swap_remove n h =
     takeWhile (\<lambda>p. fst p \<noteq> n) h @
     (case dropWhile (\<lambda>p. fst p \<noteq> n) h of
        [] \<Rightarrow> []
      | _ # post \<Rightarrow> if post = [] then [] else last post # butlast post)"

definition hdr_remove :: "'k \<Rightarrow> ('k, 'v list) hash_map \<Rightarrow> ('k, 'v list) hash_map" where
  "hdr_remove n h = (if hm_wf h then swap_remove n h else hm_remove n h)"

definition hdr_keys :: "('k, 'v list) hash_map \<Rightarrow> 'k list" where
  "hdr_keys h = map fst h"

definition hdr_len :: "('k, 'v list) hash_map \<Rightarrow> nat" where
  "hdr_len h = sum_list (map (length \<circ> snd) h)"

definition hdr_iter :: "('k, 'v list) hash_map \<Rightarrow> ('k \<times> 'v) list" where
  "hdr_iter h = concat (map (\<lambda>(n, vs). map (Pair n) vs) h)"

text \<open>\<^verbatim>\<open>IntoIter\<close> and \<^verbatim>\<open>drain\<close> name a key with its first value only.\<close>

fun first_named :: "'k \<Rightarrow> 'v list \<Rightarrow> ('k option \<times> 'v) list" where
  "first_named n [] = []"
| "first_named n (v # vs) = (Some n, v) # map (Pair None) vs"

definition hdr_into_iter :: "('k, 'v list) hash_map \<Rightarrow> ('k option \<times> 'v) list" where
  "hdr_into_iter h = concat (map (\<lambda>(n, vs). first_named n vs) h)"

definition hdr_wf :: "('k, 'v list) hash_map \<Rightarrow> bool" where
  "hdr_wf h \<longleftrightarrow> hm_wf h \<and> (\<forall>(n, vs) \<in> set h. vs \<noteq> [])"

section \<open>\<^verbatim>\<open>util::replace_headers\<close>\<close>

text \<open>
  \<open>prev\<close> is \<^verbatim>\<open>prev_entry\<close>: the entry written last.  \<open>None\<close> as the result is the
  \<^verbatim>\<open>unreachable!\<close> branch.
\<close>

fun replace_loop ::
  "('k, 'v list) hash_map \<Rightarrow> 'k option \<Rightarrow> ('k option \<times> 'v) list \<Rightarrow> ('k, 'v list) hash_map option"
where
  "replace_loop dst prev [] = Some dst"
| "replace_loop dst prev ((Some key, value) # rest) =
     replace_loop (hdr_insert key value dst) (Some key) rest"
| "replace_loop dst (Some p) ((None, value) # rest) =
     replace_loop (hdr_append p value dst) (Some p) rest"
| "replace_loop dst None ((None, value) # rest) = None"

definition replace_headers ::
  "('k, 'v list) hash_map \<Rightarrow> ('k, 'v list) hash_map \<Rightarrow> ('k, 'v list) hash_map option"
where
  "replace_headers dst src = replace_loop dst None (hdr_into_iter src)"

section \<open>\<^verbatim>\<open>util::basic_auth\<close>\<close>

text \<open>The base64 encoder of the TLS library is a parameter.\<close>

definition basic_auth :: "(string \<Rightarrow> string) \<Rightarrow> string \<Rightarrow> string option \<Rightarrow> header_value" where
  "basic_auth base64 username password =
     \<lparr>hv_bytes = ''Basic '' @
        base64 (username @ '':'' @ (case password of None \<Rightarrow> [] | Some p \<Rightarrow> p)),
      hv_sensitive = True\<rparr>"

section \<open>\<^verbatim>\<open>OrigHeaderMap\<close>\<close>

datatype header_case_name = Cased string | Standard string

fun case_name_bytes :: "header_case_name \<Rightarrow> string" where
  "case_name_bytes (Standard n) = n"
| "case_name_bytes (Cased b) = b"

type_synonym orig_header_map = "(string, header_case_name list) hash_map"

text \<open>\<open>from_bytes\<close> is \<^verbatim>\<open>HeaderName::from_bytes\<close>: the lower-case name, or \<open>None\<close> for an invalid
  one.\<close>

fun orig_insert ::
  "(string \<Rightarrow> string option) \<Rightarrow> orig_header_map \<Rightarrow> header_case_name \<Rightarrow> orig_header_map \<times> bool"
where
  "orig_insert from_bytes m (Cased b) =
     (case from_bytes b of
        Some n \<Rightarrow> (hdr_append n (Cased b) m, hdr_contains m n)
      | None \<Rightarrow> (m, False))"
| "orig_insert from_bytes m (Standard n) =
     (hdr_append n (Standard n) m, hdr_contains m n)"

text \<open>\<^verbatim>\<open>HeaderMap::extend\<close> with the named iterator replaces the values of a name it meets.\<close>

definition orig_extend :: "orig_header_map \<Rightarrow> orig_header_map \<Rightarrow> orig_header_map option" where
  "orig_extend m other = replace_headers m other"

text \<open>\<^verbatim>\<open>call\<close>: first the names of the map, in its order, then the remaining headers.\<close>

fun append_all :: "'k \<Rightarrow> 'v list \<Rightarrow> ('k, 'v list) hash_map \<Rightarrow> ('k, 'v list) hash_map" where
  "append_all n [] acc = acc"
| "append_all n (v # vs) acc = append_all n vs (hdr_append n v acc)"

fun sort_named ::
  "'k list \<Rightarrow> ('k, 'v list) hash_map \<Rightarrow> ('k, 'v list) hash_map
     \<Rightarrow> ('k, 'v list) hash_map \<times> ('k, 'v list) hash_map"
where
  "sort_named [] headers sorted_h = (headers, sorted_h)"
| "sort_named (n # ns) headers sorted_h =
     sort_named ns (hdr_remove n headers) (append_all n (hdr_get_all headers n) sorted_h)"

fun sort_rest ::
  "('k, 'v list) hash_map \<Rightarrow> 'k option \<Rightarrow> ('k option \<times> 'v) list \<Rightarrow> ('k, 'v list) hash_map"
where
  "sort_rest acc prev [] = acc"
| "sort_rest acc prev ((Some n, v) # rest) = sort_rest (hdr_insert n v acc) (Some n) rest"
| "sort_rest acc (Some p) ((None, v) # rest) = sort_rest (hdr_append p v acc) (Some p) rest"
| "sort_rest acc None ((None, v) # rest) = sort_rest acc None rest"

definition orig_call :: "('k, 'c list) hash_map \<Rightarrow> ('k, 'v list) hash_map \<Rightarrow> ('k, 'v list) hash_map" where
  "orig_call m headers =
     (if hdr_len headers \<le> 1 \<or> m = [] then headers
      else (case sort_named (hdr_keys m) headers [] of
              (rest, sorted_h) \<Rightarrow> sort_rest sorted_h None (hdr_into_iter rest)))"

text \<open>\<^verbatim>\<open>call_visit\<close>: the callback \<^verbatim>\<open>dst\<close> receives the spelling and the value; the model returns
  the list of its calls.\<close>

fun visit_named ::
  "(string \<times> header_case_name) list \<Rightarrow> header_map
     \<Rightarrow> header_map \<times> (string \<times> header_value) list"
where
  "visit_named [] headers = (headers, [])"
| "visit_named ((n, c) # ns) headers =
     (case visit_named ns (hdr_remove n headers) of
        (h', out) \<Rightarrow> (h', map (Pair (case_name_bytes c)) (hdr_get_all headers n) @ out))"

fun visit_rest ::
  "header_case_name option \<Rightarrow> (string option \<times> header_value) list \<Rightarrow> (string \<times> header_value) list"
where
  "visit_rest prev [] = []"
| "visit_rest prev ((Some n, v) # rest) = (n, v) # visit_rest (Some (Standard n)) rest"
| "visit_rest (Some p) ((None, v) # rest) = (case_name_bytes p, v) # visit_rest (Some p) rest"
| "visit_rest None ((None, v) # rest) = visit_rest None rest"

definition orig_call_visit :: "orig_header_map \<Rightarrow> header_map \<Rightarrow> (string \<times> header_value) list" where
  "orig_call_visit m headers =
     (case visit_named (hdr_iter m) headers of
        (rest, out) \<Rightarrow> out @ visit_rest None (hdr_into_iter rest))"

section \<open>Lookups after an update\<close>

lemma hdr_get_all_Nil [simp]: "hdr_get_all [] n = []"
  by (simp add: hdr_get_all_def)

lemma hdr_get_all_insert [hash_simps]:
  "hdr_get_all (hdr_insert n v h) m = (if m = n then [v] else hdr_get_all h m)"
  by (simp add: hdr_get_all_def hdr_insert_def hm_get_insert)

lemma hdr_get_all_append [hash_simps]:
  "hdr_get_all (hdr_append n v h) m = (if m = n then hdr_get_all h n @ [v] else hdr_get_all h m)"
  by (simp add: hdr_get_all_def hdr_append_def hm_get_insert)

lemma swap_remove_absent: "n \<notin> fst ` set h \<Longrightarrow> swap_remove n h = h"
proof -
  assume n: "n \<notin> fst ` set h"
  then have t: "takeWhile (\<lambda>p. fst p \<noteq> n) h = h" and d: "dropWhile (\<lambda>p. fst p \<noteq> n) h = []"
    by (auto simp: takeWhile_eq_all_conv dropWhile_eq_Nil_conv)
  show ?thesis unfolding swap_remove_def t d by simp
qed

lemma swap_remove_at:
  assumes "n \<notin> fst ` set pre"
  shows "swap_remove n (pre @ (n, v) # post) = pre @ (if post = [] then [] else last post # butlast post)"
proof -
  have "takeWhile (\<lambda>p. fst p \<noteq> n) (pre @ (n, v) # post) = pre"
    "dropWhile (\<lambda>p. fst p \<noteq> n) (pre @ (n, v) # post) = (n, v) # post"
    using assms by (auto simp: takeWhile_append dropWhile_append image_iff)
  then show ?thesis by (simp add: swap_remove_def)
qed

lemma swap_remove_contents:
  assumes "hm_wf h"
  shows "set (swap_remove n h) = {p \<in> set h. fst p \<noteq> n} \<and> hm_wf (swap_remove n h)"
proof (cases "n \<in> fst ` set h")
  case True
  then obtain v where "(n, v) \<in> set h" by auto
  then obtain pre post where h: "h = pre @ (n, v) # post" by (meson split_list)
  with assms have n: "n \<notin> fst ` set pre" "n \<notin> fst ` set post" by (auto simp: hm_wf_def)
  show ?thesis
    using assms n unfolding h swap_remove_at [OF n(1)]
    by (cases post rule: rev_cases) (auto simp: hm_wf_def image_iff)
next
  case False
  then show ?thesis using assms by (auto simp: swap_remove_absent image_iff)
qed

lemma hdr_remove_get: "hm_get (hdr_remove n h) m = (if m = n then None else hm_get h m)"
proof (cases "hm_wf h")
  case True
  note c = swap_remove_contents [OF True, of n]
  have "set (swap_remove n h) = set (hm_remove n h)"
    unfolding conjunct1 [OF c] by (auto simp: AList.delete_eq)
  then have "hm_get (swap_remove n h) = hm_get (hm_remove n h)"
    using conjunct2 [OF c] hm_wf_remove [OF True, of n] unfolding hm_wf_def
    by (intro map_of_inject_set [THEN iffD2])
  with True show ?thesis by (simp add: hdr_remove_def hm_get_remove)
qed (simp add: hdr_remove_def hm_get_remove)

lemma hdr_remove_set: "set (hdr_remove n h) = {p \<in> set h. fst p \<noteq> n}"
proof (cases "hm_wf h")
  case True
  then show ?thesis using swap_remove_contents [of h n] by (simp add: hdr_remove_def)
qed (auto simp: hdr_remove_def AList.delete_eq)

lemma hdr_remove_absent: "n \<notin> fst ` set h \<Longrightarrow> hdr_remove n h = h"
  by (simp add: hdr_remove_def swap_remove_absent delete_id)

lemma hdr_remove_twice: "hdr_remove n (hdr_remove n h) = hdr_remove n h"
  by (rule hdr_remove_absent) (auto simp: hdr_remove_set)

lemma hdr_get_all_remove [hash_simps]:
  "hdr_get_all (hdr_remove n h) m = (if m = n then [] else hdr_get_all h m)"
  by (simp add: hdr_get_all_def hdr_remove_get)

lemma hdr_get_all_append_all [hash_simps]:
  "hdr_get_all (append_all n vs h) m =
     (if m = n then hdr_get_all h n @ vs else hdr_get_all h m)"
  by (induction n vs h rule: append_all.induct) (auto simp: hash_simps)

lemma hdr_contains_remove [hash_simps]:
  "hdr_contains (hdr_remove n h) m \<longleftrightarrow> m \<noteq> n \<and> hdr_contains h m"
  by (simp add: hdr_contains_def hash_simps)

lemma hdr_wf_Nil [simp]: "hdr_wf []"
  by (simp add: hdr_wf_def)

lemma hdr_wf_hm [simp]: "hdr_wf h \<Longrightarrow> hm_wf h"
  by (simp add: hdr_wf_def)

lemma hdr_wf_remove [simp]: "hdr_wf h \<Longrightarrow> hdr_wf (hdr_remove n h)"
proof -
  assume "hdr_wf h"
  then have h: "hm_wf h" "\<forall>p \<in> set h. snd p \<noteq> []" by (auto simp: hdr_wf_def)
  then have "hm_wf (hdr_remove n h)" using swap_remove_contents [of h n] by (simp add: hdr_remove_def)
  with h(2) show ?thesis by (auto simp: hdr_wf_def hdr_remove_set)
qed

lemma hdr_wf_Cons:
  "hdr_wf ((n, vs) # h) \<longleftrightarrow> vs \<noteq> [] \<and> n \<notin> set (hdr_keys h) \<and> hdr_wf h"
  by (auto simp: hdr_wf_def hm_wf_def hdr_keys_def)

lemma hdr_get_all_wf: "hdr_wf h \<Longrightarrow> (n, vs) \<in> set h \<Longrightarrow> hdr_get_all h n = vs"
  by (simp add: hdr_get_all_def hdr_wf_def hm_wf_def)

lemma hdr_keys_contains: "hdr_wf h \<Longrightarrow> n \<in> set (hdr_keys h) \<longleftrightarrow> hdr_contains h n"
proof (induction h)
  case (Cons p h)
  obtain k vs where p: "p = (k, vs)" by (cases p)
  with Cons have wf: "vs \<noteq> []" "hdr_wf h" by (simp_all add: hdr_wf_Cons)
  show ?case
  proof (cases "n = k")
    case True
    then show ?thesis by (simp add: p wf hdr_keys_def hdr_contains_def hdr_get_all_def)
  next
    case False
    then show ?thesis
      using Cons.IH wf by (simp add: p hdr_keys_def hdr_contains_def hdr_get_all_def)
  qed
qed (simp add: hdr_keys_def hdr_contains_def)

lemma hdr_get_all_Cons:
  "hdr_get_all ((n, vs) # h) m = (if m = n then vs else hdr_get_all h m)"
  by (simp add: hdr_get_all_def)

section \<open>Named iteration rebuilds the map\<close>

lemma replace_loop_block:
  "replace_loop dst prev (first_named n (v # vs) @ rest) =
     replace_loop (append_all n vs (hdr_insert n v dst)) (Some n) rest"
proof -
  have "replace_loop d (Some n) (map (Pair None) vs @ rest) =
          replace_loop (append_all n vs d) (Some n) rest" for d
    by (induction vs arbitrary: d) auto
  then show ?thesis by simp
qed

lemma hdr_into_iter_Cons:
  "hdr_into_iter ((n, vs) # h) = first_named n vs @ hdr_into_iter h"
  by (simp add: hdr_into_iter_def)

lemma replace_loop_into_iter:
  assumes "hdr_wf src"
  shows "\<exists>d. replace_loop dst prev (hdr_into_iter src) = Some d \<and>
           (\<forall>m. hdr_get_all d m =
              (if m \<in> set (hdr_keys src) then hdr_get_all src m else hdr_get_all dst m))"
  using assms
proof (induction src arbitrary: dst prev)
  case Nil
  then show ?case by (simp add: hdr_into_iter_def hdr_keys_def)
next
  case (Cons p src)
  obtain n vs where p: "p = (n, vs)" by (cases p)
  from Cons.prems p have wf: "hdr_wf src" and new: "n \<notin> set (hdr_keys src)" and "vs \<noteq> []"
    by (simp_all add: hdr_wf_Cons)
  then obtain w ws where vs: "vs = w # ws" by (cases vs) auto
  let ?dst = "append_all n ws (hdr_insert n w dst)"
  from Cons.IH [OF wf, of ?dst "Some n"] obtain d where
    d: "replace_loop ?dst (Some n) (hdr_into_iter src) = Some d"
       "\<And>m. hdr_get_all d m =
          (if m \<in> set (hdr_keys src) then hdr_get_all src m else hdr_get_all ?dst m)"
    by blast
  have "replace_loop dst prev (hdr_into_iter (p # src)) = Some d"
    using d(1) by (simp add: p vs hdr_into_iter_Cons replace_loop_block del: first_named.simps)
  moreover have "hdr_get_all d m =
      (if m \<in> set (hdr_keys (p # src)) then hdr_get_all (p # src) m else hdr_get_all dst m)" for m
    using d(2) [of m] new by (auto simp: p vs hdr_keys_def hdr_get_all_Cons hash_simps)
  ultimately show ?case by blast
qed

lemma sort_rest_replace_loop:
  "replace_loop acc prev l = Some d \<Longrightarrow> sort_rest acc prev l = d"
  by (induction acc prev l rule: replace_loop.induct) auto

lemma sort_named_lookup:
  "sort_named ns headers sorted_h = (rest, out) \<Longrightarrow>
     hdr_get_all rest m = (if m \<in> set ns then [] else hdr_get_all headers m) \<and>
     hdr_get_all out m =
       hdr_get_all sorted_h m @ (if m \<in> set ns then hdr_get_all headers m else [])"
proof (induction ns headers sorted_h rule: sort_named.induct)
  case (2 n ns headers sorted_h)
  from "2.IH" "2.prems" show ?case by (auto simp: hash_simps)
qed auto

lemma sort_named_wf: "sort_named ns headers sorted_h = (rest, out) \<Longrightarrow> hdr_wf headers \<Longrightarrow> hdr_wf rest"
  by (induction ns headers sorted_h rule: sort_named.induct) auto

section \<open>Closed forms\<close>

lemma update_snoc_new: "k \<notin> set (map fst ps) \<Longrightarrow> hm_insert k v ps = ps @ [(k, v)]"
  by (induction ps) auto

lemma update_snoc_same:
  "k \<notin> set (map fst ps) \<Longrightarrow> hm_insert k v (ps @ [(k, w)]) = ps @ [(k, v)]"
  by (induction ps) auto

lemma hm_get_notin: "n \<notin> set (hdr_keys h) \<Longrightarrow> hm_get h n = None"
  by (simp add: hdr_keys_def map_of_eq_None_iff)

lemma hdr_get_all_notin: "n \<notin> set (hdr_keys h) \<Longrightarrow> hdr_get_all h n = []"
  by (simp add: hdr_get_all_def hm_get_notin)

lemma append_all_snoc:
  "n \<notin> set (hdr_keys acc) \<Longrightarrow> append_all n vs (acc @ [(n, ws)]) = acc @ [(n, ws @ vs)]"
proof (induction vs arbitrary: ws)
  case (Cons v vs)
  have "hdr_get_all (acc @ [(n, ws)]) n = ws"
    using hm_get_notin [OF Cons.prems] by (simp add: hdr_get_all_def map_add_def)
  then have "hdr_append n v (acc @ [(n, ws)]) = acc @ [(n, ws @ [v])]"
    using Cons.prems by (simp add: hdr_append_def update_snoc_same hdr_keys_def)
  then show ?case using Cons by simp
qed simp

lemma append_all_new:
  assumes "n \<notin> set (hdr_keys acc)"
  shows "append_all n vs acc = (if vs = [] then acc else acc @ [(n, vs)])"
proof (cases vs)
  case (Cons v ws)
  have none: "hdr_get_all acc n = []"
    using assms by (rule hdr_get_all_notin)
  have "hdr_append n v acc = acc @ [(n, [v])]"
    using assms none by (simp add: hdr_append_def update_snoc_new hdr_keys_def)
  then show ?thesis using append_all_snoc [OF assms, of ws "[v]"] Cons by simp
qed simp

lemma hdr_insert_append_all_new:
  assumes "n \<notin> set (hdr_keys acc)"
  shows "append_all n vs (hdr_insert n v acc) = acc @ [(n, v # vs)]"
  using assms append_all_snoc [OF assms, of vs "[v]"]
  by (simp add: hdr_insert_def update_snoc_new hdr_keys_def)

lemma replace_loop_disjoint:
  assumes "hdr_wf src" and "set (hdr_keys dst) \<inter> set (hdr_keys src) = {}"
  shows "replace_loop dst prev (hdr_into_iter src) = Some (dst @ src)"
  using assms
proof (induction src arbitrary: dst prev)
  case (Cons p src)
  obtain n vs where p: "p = (n, vs)" by (cases p)
  from Cons.prems p have wf: "hdr_wf src" "n \<notin> set (hdr_keys src)" and "vs \<noteq> []"
    and new: "n \<notin> set (hdr_keys dst)"
    by (auto simp: hdr_wf_Cons hdr_keys_def)
  then obtain w ws where vs: "vs = w # ws" by (cases vs) auto
  have dis: "set (hdr_keys (dst @ [(n, vs)])) \<inter> set (hdr_keys src) = {}"
    using Cons.prems(2) wf(2) by (auto simp: p hdr_keys_def)
  show ?case
    using Cons.IH [OF wf(1) dis, of "Some n"] hdr_insert_append_all_new [OF new]
    by (simp add: p vs hdr_into_iter_Cons replace_loop_block del: first_named.simps)
qed (simp add: hdr_into_iter_def)

text \<open>The named part of the reordering, and what it leaves.\<close>

definition named_part :: "'k list \<Rightarrow> ('k, 'v list) hash_map \<Rightarrow> ('k, 'v list) hash_map" where
  "named_part ns h = map (\<lambda>n. (n, hdr_get_all h n)) (filter (hdr_contains h) ns)"

definition other_part :: "'k list \<Rightarrow> ('k, 'v list) hash_map \<Rightarrow> ('k, 'v list) hash_map" where
  "other_part ns h = fold hdr_remove ns h"

lemma other_part_set: "set (other_part ns h) = {p \<in> set h. fst p \<notin> set ns}"
  by (induction ns arbitrary: h) (auto simp: other_part_def hdr_remove_set)

lemma other_part_get: "hm_get (other_part ns h) m = (if m \<in> set ns then None else hm_get h m)"
  by (induction ns arbitrary: h) (auto simp: other_part_def hdr_remove_get)

lemma named_part_remove:
  "n \<notin> set ns \<Longrightarrow> named_part ns (hdr_remove n h) = named_part ns h"
  by (auto simp: named_part_def hash_simps intro!: map_cong filter_cong)

lemma sort_named_closed:
  assumes "distinct ns" and "set ns \<inter> set (hdr_keys acc) = {}"
  shows "sort_named ns h acc = (other_part ns h, acc @ named_part ns h)"
  using assms
proof (induction ns arbitrary: h acc)
  case Nil
  then show ?case by (simp add: other_part_def named_part_def)
next
  case (Cons n ns)
  let ?acc = "append_all n (hdr_get_all h n) acc"
  have acc: "?acc = acc @ named_part [n] h"
    using Cons.prems by (auto simp: append_all_new named_part_def hdr_contains_def)
  have dis: "set ns \<inter> set (hdr_keys ?acc) = {}"
    using Cons.prems by (auto simp: acc named_part_def hdr_keys_def)
  have "sort_named ns (hdr_remove n h) ?acc =
      (other_part ns (hdr_remove n h), ?acc @ named_part ns (hdr_remove n h))"
    using Cons.IH [OF _ dis] Cons.prems by simp
  moreover have "other_part ns (hdr_remove n h) = other_part (n # ns) h"
    by (simp add: other_part_def)
  moreover have "named_part [n] h @ named_part ns (hdr_remove n h) = named_part (n # ns) h"
    using Cons.prems by (simp add: named_part_remove) (simp add: named_part_def)
  ultimately show ?case by (simp add: acc)
qed

lemma other_part_wf: "hdr_wf h \<Longrightarrow> hdr_wf (other_part ns h)"
  by (induction ns arbitrary: h) (simp_all add: other_part_def)

lemma orig_call_closed:
  assumes "hdr_wf h" and "distinct (hdr_keys m)" and "m \<noteq> []" and "1 < hdr_len h"
  shows "orig_call m h = named_part (hdr_keys m) h @ other_part (hdr_keys m) h"
proof -
  let ?ns = "hdr_keys m"
  have "sort_named ?ns h [] = (other_part ?ns h, named_part ?ns h)"
    using assms by (simp add: sort_named_closed hdr_keys_def [of "[]"])
  moreover have "replace_loop (named_part ?ns h) None (hdr_into_iter (other_part ?ns h)) =
      Some (named_part ?ns h @ other_part ?ns h)"
  proof (rule replace_loop_disjoint)
    show "hdr_wf (other_part ?ns h)" using assms(1) by (rule other_part_wf)
    show "set (hdr_keys (named_part ?ns h)) \<inter> set (hdr_keys (other_part ?ns h)) = {}"
      by (auto simp: hdr_keys_def named_part_def other_part_set)
  qed
  ultimately show ?thesis
    using assms by (simp add: orig_call_def sort_rest_replace_loop)
qed

lemma visit_named_same:
  "hdr_get_all h n = [] \<Longrightarrow> visit_named (map (Pair n) cs @ l) h =
     (if cs = [] then visit_named l h else visit_named l (hdr_remove n h))"
proof (induction cs arbitrary: h)
  case (Cons c cs)
  show ?case
    using Cons.IH [of "hdr_remove n h"] Cons.prems
    by (auto simp: hash_simps hdr_remove_twice split: prod.splits)
qed simp

lemma visit_named_closed:
  assumes "hdr_wf m"
  shows "visit_named (hdr_iter m) h =
    (other_part (hdr_keys m) h,
     concat (map (\<lambda>(n, cs). map (Pair (case_name_bytes (hd cs))) (hdr_get_all h n)) m))"
  using assms
proof (induction m arbitrary: h)
  case Nil
  then show ?case by (simp add: hdr_iter_def other_part_def hdr_keys_def)
next
  case (Cons p m)
  obtain n cs where p: "p = (n, cs)" by (cases p)
  from Cons.prems p have wf: "hdr_wf m" "n \<notin> set (hdr_keys m)" and "cs \<noteq> []"
    by (simp_all add: hdr_wf_Cons)
  then obtain c ds where cs: "cs = c # ds" by (cases cs) auto
  have step: "visit_named (map (Pair n) ds @ hdr_iter m) (hdr_remove n h) =
      visit_named (hdr_iter m) (hdr_remove n h)"
    by (simp add: visit_named_same hash_simps hdr_remove_twice)
  have same: "map (\<lambda>(n', cs). map (Pair (case_name_bytes (hd cs))) (hdr_get_all (hdr_remove n h) n')) m =
      map (\<lambda>(n', cs). map (Pair (case_name_bytes (hd cs))) (hdr_get_all h n')) m"
    using wf(2) by (force simp: hash_simps hdr_keys_def intro!: map_cong)
  have rest: "other_part (hdr_keys m) (hdr_remove n h) = other_part (hdr_keys (p # m)) h"
    by (simp add: other_part_def p hdr_keys_def)
  show ?case
    using Cons.IH [OF wf(1), of "hdr_remove n h"] step same rest
    by (simp add: p cs hdr_iter_def)
qed

lemma visit_rest_into_iter: "hdr_wf h \<Longrightarrow> visit_rest prev (hdr_into_iter h) = hdr_iter h"
proof (induction h arbitrary: prev)
  case (Cons p h)
  obtain n vs where p: "p = (n, vs)" by (cases p)
  from Cons.prems p have wf: "hdr_wf h" and "vs \<noteq> []" by (simp_all add: hdr_wf_Cons)
  then obtain w ws where vs: "vs = w # ws" by (cases vs) auto
  have "visit_rest (Some (Standard n)) (map (Pair None) us @ l) =
      map (Pair n) us @ visit_rest (Some (Standard n)) l" for us l
    by (induction us) auto
  then show ?case
    using Cons.IH [OF wf] by (simp add: p vs hdr_into_iter_Cons hdr_iter_def)
qed (simp add: hdr_into_iter_def hdr_iter_def)

section \<open>Properties\<close>

lemma hdr_len_wf: "hdr_wf h \<Longrightarrow> length h \<le> hdr_len h"
proof (induction h)
  case (Cons p h)
  obtain n vs where p: "p = (n, vs)" by (cases p)
  from Cons.prems p have "hdr_wf h" "1 \<le> length vs" by (auto simp: hdr_wf_Cons Suc_le_eq)
  with Cons.IH show ?case by (simp add: p hdr_len_def)
qed (simp add: hdr_len_def)

lemma hdr_get_all_parts:
  "hdr_wf h \<Longrightarrow> hdr_get_all (named_part ns h @ other_part ns h) m = hdr_get_all h m"
proof -
  assume wf: "hdr_wf h"
  have "hm_get (named_part ns h) m =
      (if m \<in> set ns \<and> hdr_contains h m then Some (hdr_get_all h m) else None)"
    by (induction ns) (auto simp: named_part_def)
  then show ?thesis
    by (auto simp: hdr_get_all_def [of "_ @ _"] map_add_def hdr_contains_def other_part_get)
       (simp_all add: hdr_get_all_def)
qed

lemma hdr_iter_named_part:
  "hdr_iter (named_part ns h) = concat (map (\<lambda>n. map (Pair n) (hdr_get_all h n)) ns)"
  by (induction ns) (auto simp: hdr_iter_def named_part_def hdr_contains_def)

lemma replace_headers_values:
  assumes "hdr_wf src"
  shows "\<exists>d. replace_headers dst src = Some d \<and>
           (\<forall>n. hdr_get_all d n =
              (if hdr_contains src n then hdr_get_all src n else hdr_get_all dst n))"
  using replace_loop_into_iter [OF assms, of dst None] hdr_keys_contains [OF assms]
  by (simp add: replace_headers_def)

lemma hdr_wf_get: "hdr_wf h \<longleftrightarrow> hm_wf h \<and> (\<forall>n. hm_get h n \<noteq> Some [])"
proof (cases "hm_wf h")
  case True
  then have "(n, []) \<in> set h \<longleftrightarrow> hm_get h n = Some []" for n by (rule hm_mem_iff)
  then show ?thesis by (simp only: hdr_wf_def) blast
qed (simp add: hdr_wf_def)

lemma hdr_wf_insert [simp]: "hdr_wf h \<Longrightarrow> hdr_wf (hdr_insert n v h)"
  by (simp add: hdr_wf_get hdr_insert_def hm_get_insert)

lemma hdr_wf_append [simp]: "hdr_wf h \<Longrightarrow> hdr_wf (hdr_append n v h)"
  by (simp add: hdr_wf_get hdr_append_def hm_get_insert)

lemma hdr_wf_or_insert [simp]: "hdr_wf h \<Longrightarrow> hdr_wf (or_insert n v h)"
  by (simp add: or_insert_def)

lemma replace_loop_wf: "hdr_wf dst \<Longrightarrow> replace_loop dst prev items = Some d \<Longrightarrow> hdr_wf d"
  by (induction dst prev items rule: replace_loop.induct) simp_all

lemma replace_headers_wf:
  assumes "hdr_wf dst" "hdr_wf src"
  obtains d where "replace_headers dst src = Some d" "hdr_wf d"
proof -
  obtain d where "replace_headers dst src = Some d"
    using replace_headers_values [OF assms(2), of dst] by blast
  with that replace_loop_wf [OF assms(1)] show thesis by (simp add: replace_headers_def)
qed

text \<open>\<^verbatim>\<open>replace_headers\<close> never reaches its \<^verbatim>\<open>unreachable!\<close> branch, and afterwards a name
  of the source map has exactly the source's values, in order, while every other name keeps its own.
\<close>

theorem replace_headers_spec:
  assumes "hdr_wf src"
  shows "\<exists>d. replace_headers dst src = Some d \<and>
           (\<forall>n. hdr_get_all d n =
              (if hdr_contains src n then hdr_get_all src n else hdr_get_all dst n))"
  using assms by (rule replace_headers_values)

theorem replace_headers_spec_witness:
  "\<exists>d. replace_headers [(''accept'', [1]), (''te'', [2::nat])] [(''accept'', [3, 4])] = Some d \<and>
     hdr_get_all d ''accept'' = [3, 4] \<and> hdr_get_all d ''te'' = [2]"
proof -
  let ?dst = "[(''accept'', [1]), (''te'', [2::nat])]"
  let ?src = "[(''accept'', [3, 4::nat])]"
  have "hdr_wf ?src" by (simp add: hdr_wf_def hm_wf_def)
  from replace_headers_spec [OF this, of ?dst]
  obtain d where "replace_headers ?dst ?src = Some d"
    and d: "\<forall>n. hdr_get_all d n = (if hdr_contains ?src n then hdr_get_all ?src n else hdr_get_all ?dst n)"
    by blast
  moreover from d have "hdr_get_all d ''accept'' = [3, 4]" "hdr_get_all d ''te'' = [2]"
    by (simp_all add: hdr_contains_def hdr_get_all_def)
  ultimately show ?thesis by blast
qed

text \<open>Reordering the headers loses, adds and merges nothing: every name keeps its values in
  order.  The names listed in the \<^verbatim>\<open>OrigHeaderMap\<close> come first, in the order of that map, and
  the names it does not list follow.
\<close>

theorem orig_call_order:
  assumes "hdr_wf h" and "distinct (hdr_keys m)"
  shows "(\<forall>n. hdr_get_all (orig_call m h) n = hdr_get_all h n) \<and>
         (\<exists>rest. hdr_keys (orig_call m h) = filter (hdr_contains h) (hdr_keys m) @ rest \<and>
                 set rest = set (hdr_keys h) - set (hdr_keys m))"
proof (cases "hdr_len h \<le> 1 \<or> m = []")
  case False
  then have eq: "orig_call m h = named_part (hdr_keys m) h @ other_part (hdr_keys m) h"
    using assms by (simp add: orig_call_closed)
  have "hdr_keys (orig_call m h) =
      filter (hdr_contains h) (hdr_keys m) @ hdr_keys (other_part (hdr_keys m) h)"
    by (simp add: eq hdr_keys_def named_part_def comp_def)
  moreover have "set (hdr_keys (other_part (hdr_keys m) h)) = set (hdr_keys h) - set (hdr_keys m)"
    by (auto simp: hdr_keys_def other_part_set)
  ultimately show ?thesis
    using hdr_get_all_parts [OF assms(1)] eq by auto
next
  case True
  then have eq: "orig_call m h = h" by (auto simp: orig_call_def)
  from True consider "m = []" | "h = []" | n vs where "h = [(n, vs)]"
    using hdr_len_wf [OF assms(1)] by (cases h; cases "tl h") auto
  then show ?thesis
  proof cases
    case 1
    with eq show ?thesis by (simp add: hdr_keys_def)
  next
    case 2
    with eq show ?thesis by (simp add: hdr_keys_def hdr_contains_def)
  next
    case 3
    with assms(1) have "hdr_contains h = (\<lambda>k. k = n)"
      by (auto simp: fun_eq_iff hdr_contains_def hdr_get_all_def hdr_wf_def)
    moreover from assms(2) have
      "filter (\<lambda>k. k = n) (hdr_keys m) = (if n \<in> set (hdr_keys m) then [n] else [])"
      by (rule filter_eq_singleton)
    moreover have "hdr_keys h = [n]" by (simp add: 3 hdr_keys_def)
    ultimately show ?thesis unfolding eq by auto
  qed
qed

theorem orig_call_order_witness:
  "hdr_keys (orig_call [(''b'', [Cased ''B'']), (''z'', [Cased ''Z'']), (''a'', [Cased ''A''])]
      [(''a'', [1::nat]), (''x'', [2, 3]), (''b'', [4])]) = [''b'', ''a'', ''x'']"
proof -
  let ?m = "[(''b'', [Cased ''B'']), (''z'', [Cased ''Z'']), (''a'', [Cased ''A''])]"
  let ?h = "[(''a'', [1::nat]), (''x'', [2, 3]), (''b'', [4])]"
  have wf: "hdr_wf ?h" "distinct (hdr_keys ?m)"
    by (simp_all add: hdr_wf_def hm_wf_def hdr_keys_def)
  from orig_call_order [OF wf] obtain rest where
    "hdr_keys (orig_call ?m ?h) = filter (hdr_contains ?h) (hdr_keys ?m) @ rest"
    by blast
  then have "take 2 (hdr_keys (orig_call ?m ?h)) = [''b'', ''a'']"
    by (simp add: hdr_keys_def hdr_contains_def hdr_get_all_def)
  moreover have "length (hdr_keys (orig_call ?m ?h)) = 3" "hdr_keys (orig_call ?m ?h) ! 2 = ''x''"
    by code_simp+
  ultimately show ?thesis by code_simp
qed

text \<open>The spelling configured for a name: the first one that was given for it, and the name itself if there is none.\<close>

definition spelling :: "orig_header_map \<Rightarrow> string \<Rightarrow> string" where
  "spelling m n = (case hdr_get m n of Some c \<Rightarrow> case_name_bytes c | None \<Rightarrow> n)"

lemma spelling_entry:
  assumes "hdr_wf m" "(n, cs) \<in> set m"
  shows "spelling m n = case_name_bytes (hd cs)"
proof -
  have "hm_get m n = Some cs" using assms(2) hm_mem_iff [OF hdr_wf_hm [OF assms(1)]] by blast
  moreover have "cs \<noteq> []" using assms by (auto simp: hdr_wf_def)
  ultimately show ?thesis by (cases cs) (simp_all add: spelling_def hdr_get_def hdr_get_all_def)
qed

lemma spelling_absent: "n \<notin> set (hdr_keys m) \<Longrightarrow> spelling m n = n"
  by (simp add: spelling_def hdr_get_def hdr_get_all_notin)

text \<open>C22: the HTTP/1 writer emits the lines of the reordered header map in their order, each under the spelling the caller
  configured for its name: \<^verbatim>\<open>call_visit\<close> is the iteration of the map that \<^verbatim>\<open>call\<close> produces, with every name that the
  \<^verbatim>\<open>OrigHeaderMap\<close> lists replaced by the first spelling listed for it, letter case included, and every other name as it is.
  The map has at least two header lines and the \<^verbatim>\<open>OrigHeaderMap\<close> is not empty; otherwise \<^verbatim>\<open>call\<close> leaves the map alone.\<close>

theorem orig_call_visit_refines:
  assumes h: "hdr_wf h" "1 < hdr_len h" and m: "hdr_wf m" "m \<noteq> []"
  shows "orig_call_visit m h = map (\<lambda>(n, v). (spelling m n, v)) (hdr_iter (orig_call m h))"
proof -
  let ?sp = "\<lambda>(n, v). (spelling m n, v :: header_value)"
  have dist: "distinct (hdr_keys m)" using m(1) by (simp add: hdr_wf_def hm_wf_def hdr_keys_def)
  have "concat (map (\<lambda>(n, cs). map (Pair (case_name_bytes (hd cs))) (hdr_get_all h n)) m) =
      map ?sp (concat (map (\<lambda>n. map (Pair n) (hdr_get_all h n)) (hdr_keys m)))"
    using spelling_entry [OF m(1)]
    by (auto simp: map_concat hdr_keys_def intro!: arg_cong [of _ _ concat] map_cong)
  then have named: "concat (map (\<lambda>(n, cs). map (Pair (case_name_bytes (hd cs))) (hdr_get_all h n)) m) =
      map ?sp (hdr_iter (named_part (hdr_keys m) h))"
    by (simp add: hdr_iter_named_part)
  have "map ?sp (hdr_iter (other_part (hdr_keys m) h)) = hdr_iter (other_part (hdr_keys m) h)"
    by (intro map_idI) (auto simp: hdr_iter_def other_part_set spelling_absent)
  with named show ?thesis
    using h m(2) dist
    by (simp add: orig_call_visit_def visit_named_closed [OF m(1)] visit_rest_into_iter
        other_part_wf orig_call_closed) (simp add: hdr_iter_def)
qed

theorem orig_call_visit_refines_witness:
  "map (\<lambda>(n, v). (spelling [(''x-b'', [Cased ''X-b'', Cased ''X-B'']), (''a'', [Standard ''a''])] n, v))
     (hdr_iter (orig_call [(''x-b'', [Cased ''X-b'', Cased ''X-B'']), (''a'', [Standard ''a''])]
        [(''a'', [\<lparr>hv_bytes = ''1'', hv_sensitive = False\<rparr>]), (''x-b'', [\<lparr>hv_bytes = ''2'', hv_sensitive = False\<rparr>])])) =
   [(''X-b'', \<lparr>hv_bytes = ''2'', hv_sensitive = False\<rparr>), (''a'', \<lparr>hv_bytes = ''1'', hv_sensitive = False\<rparr>)]"
proof -
  let ?h = "[(''a'', [\<lparr>hv_bytes = ''1'', hv_sensitive = False\<rparr>]), (''x-b'', [\<lparr>hv_bytes = ''2'', hv_sensitive = False\<rparr>])]"
  let ?m = "[(''x-b'', [Cased ''X-b'', Cased ''X-B'']), (''a'', [Standard ''a''])]"
  have h: "hdr_wf ?h" "1 < hdr_len ?h" and m: "hdr_wf ?m" "?m \<noteq> []" by code_simp+
  have "orig_call_visit ?m ?h =
     [(''X-b'', \<lparr>hv_bytes = ''2'', hv_sensitive = False\<rparr>), (''a'', \<lparr>hv_bytes = ''1'', hv_sensitive = False\<rparr>)]"
    by code_simp
  with orig_call_visit_refines [OF h m] show ?thesis by simp
qed

end
