(* ===== verification/Request_Model.thy ===== *)
theory Request_Model
  imports Header_Model Wreq_Error
begin

text \<open>
  Requests, responses and bodies as the middleware layers see them (\<^verbatim>\<open>http::Request\<close>,
  \<^verbatim>\<open>http::Response\<close>, \<^verbatim>\<open>src/src/client/body.rs\<close>), and the request-scoped configuration of
  \<^verbatim>\<open>src/src/config.rs\<close>.

  \<^verbatim>\<open>http::Extensions\<close> maps a type to a value.  The entries the client reads are fields of a record,
  each one an option: \<open>None\<close> when the type has no entry.  A shared cookie store is named by a number.  The redirect policy and the transport
  options are type parameters here; their components instantiate them.
\<close>

section \<open>Request-scoped configuration\<close>

text \<open>\<^verbatim>\<open>RequestConfig(Option<T>)\<close>; a slot of the extensions holds at most one.\<close>

type_synonym 'a request_config = "'a option"

type_synonym 'a slot = "'a request_config option"

definition rc_fetch :: "'a request_config \<Rightarrow> 'a slot \<Rightarrow> 'a option" where
  "rc_fetch self ext = (case Option.bind ext (\<lambda>c. c) of Some v \<Rightarrow> Some v | None \<Rightarrow> self)"

definition rc_get :: "'a slot \<Rightarrow> 'a option" where
  "rc_get ext = Option.bind ext (\<lambda>c. c)"

definition rc_get_mut :: "('a option \<Rightarrow> 'a option) \<Rightarrow> 'a slot \<Rightarrow> 'a slot" where
  "rc_get_mut f ext = Some (f (case ext of Some c \<Rightarrow> c | None \<Rightarrow> None))"

definition rc_remove :: "'a slot \<Rightarrow> 'a option \<times> 'a slot" where
  "rc_remove ext = (Option.bind ext (\<lambda>c. c), None)"

definition rc_load :: "'a request_config \<Rightarrow> 'a slot \<Rightarrow> 'a request_config \<times> 'a slot" where
  "rc_load self ext =
     (case rc_remove ext of
        (Some v, ext') \<Rightarrow> (Some v, ext')
      | (None, ext') \<Rightarrow> (self, ext'))"

definition rc_take :: "'a request_config \<Rightarrow> 'a slot \<Rightarrow> 'a option \<times> 'a slot" where
  "rc_take self ext = (case ext of Some c \<Rightarrow> (c, None) | None \<Rightarrow> (self, None))"

lemma rc_load_fetch: "fst (rc_load self ext) = rc_fetch self ext"
  by (simp add: rc_load_def rc_remove_def rc_fetch_def split: option.split)

section \<open>Bodies\<close>

text \<open>A body holds its bytes, or a boxed stream: an identity and its exact size hint, if any.\<close>

datatype body = Full string | Boxed nat "nat option"

definition body_empty :: body where
  "body_empty = Full []"

fun body_try_clone :: "body \<Rightarrow> body option" where
  "body_try_clone (Full b) = Some (Full b)"
| "body_try_clone (Boxed _ _) = None"

fun body_exact :: "body \<Rightarrow> nat option" where
  "body_exact (Full b) = Some (length b)"
| "body_exact (Boxed _ h) = h"

section \<open>Requests and responses\<close>

datatype version = HTTP_09 | HTTP_10 | HTTP_11 | HTTP_2 | HTTP_3

record timeout_options =
  to_read :: "nat option"
  to_total :: "nat option"

text \<open>\<^verbatim>\<open>AcceptEncoding\<close> of \<^verbatim>\<open>client/layer/decoder.rs\<close>, with every algorithm compiled in.\<close>

record accept_encoding =
  ae_gzip :: bool
  ae_brotli :: bool
  ae_zstd :: bool
  ae_deflate :: bool

record ('p, 'o) extensions =
  ext_redirect :: "'p slot"
  ext_options :: "'o slot"
  ext_timeout :: "timeout_options slot"
  ext_default_headers :: "bool slot"
  ext_orig_headers :: "orig_header_map slot"
  ext_preserve :: "orig_header_map option"
  ext_cookie_store :: "nat slot"
  ext_accept_encoding :: "accept_encoding slot"

record ('p, 'o) request =
  rq_method :: string
  rq_uri :: uri
  rq_version :: version
  rq_headers :: header_map
  rq_ext :: "('p, 'o) extensions"

record history_entry =
  he_status :: nat
  he_uri :: uri
  he_previous :: uri
  he_headers :: header_map

record response =
  rs_status :: nat
  rs_version :: version
  rs_headers :: header_map
  rs_uri :: "uri option"
  rs_history :: "history_entry list option"

end
