(* ===== verification/Cookie_Jar.thy ===== *)
theory Cookie_Jar
  imports Cookie_Store Into_Uri Request_Model
begin

text \<open>
  The cookie jar of \<^verbatim>\<open>src/src/cookie/jar.rs\<close> and the cookie values of \<^verbatim>\<open>src/src/cookie.rs\<close>.

  Every operation takes the outcome of the URI conversion and the clock reading the code makes; the
  lock around the store makes each operation atomic, so a history of a jar is a sequence of them.
  Functions of other crates are collected in \<open>cookie_env\<close>: \<^verbatim>\<open>url::Host::parse\<close> and its
  \<^verbatim>\<open>Display\<close>, \<^verbatim>\<open>OffsetDateTime::saturating_add\<close>, \<^verbatim>\<open>cookie::Cookie::parse\<close> and the check of
  \<^verbatim>\<open>HeaderValue::from_maybe_shared\<close>.
\<close>

section \<open>Cookie values\<close>

record cookie_env =
  env_host_parse :: "string \<Rightarrow> host option"
  env_host_string :: "host \<Rightarrow> string"
  env_dt_add :: "int \<Rightarrow> int \<Rightarrow> int"
  env_cookie_parse :: "string \<Rightarrow> raw_cookie option"
  env_header_ok :: "string \<Rightarrow> bool"

record cookie =
  cookie_inner :: raw_cookie
  cookie_host :: "host option"

definition cookie_of_raw :: "raw_cookie \<Rightarrow> cookie" where
  "cookie_of_raw c = \<lparr>cookie_inner = c, cookie_host = None\<rparr>"

definition with_host :: "cookie \<Rightarrow> host \<Rightarrow> cookie" where
  "with_host c h = c\<lparr>cookie_host := Some h\<rparr>"

definition cookie_parse :: "cookie_env \<Rightarrow> string \<Rightarrow> (error, cookie) result" where
  "cookie_parse E v =
     (if utf8_valid v then
        (case env_cookie_parse E v of
           Some c \<Rightarrow> Inr (cookie_of_raw c)
         | None \<Rightarrow> Inl (err_decode (Other ''cookie'' None)))
      else Inl (err_decode (Other ''utf8'' None)))"

definition cookie_http_only :: "cookie \<Rightarrow> bool" where
  "cookie_http_only c = (case ck_http_only (cookie_inner c) of Some b \<Rightarrow> b | None \<Rightarrow> False)"

definition cookie_secure :: "cookie \<Rightarrow> bool" where
  "cookie_secure c = (case ck_secure (cookie_inner c) of Some b \<Rightarrow> b | None \<Rightarrow> False)"

definition cookie_same_site_lax :: "cookie \<Rightarrow> bool" where
  "cookie_same_site_lax c \<longleftrightarrow> ck_same_site (cookie_inner c) = Some Lax"

definition cookie_same_site_strict :: "cookie \<Rightarrow> bool" where
  "cookie_same_site_strict c \<longleftrightarrow> ck_same_site (cookie_inner c) = Some Strict"

definition cookie_max_age :: "cookie \<Rightarrow> nat option" where
  "cookie_max_age c =
     Option.bind (ck_max_age (cookie_inner c)) (\<lambda>d. if 0 \<le> d then Some (nat d) else None)"

definition cookie_expires :: "cookie \<Rightarrow> int option" where
  "cookie_expires c =
     (case ck_expires (cookie_inner c) of
        Some (DateTime t) \<Rightarrow> Some t
      | None \<Rightarrow> None
      | Some Session \<Rightarrow> None)"

text \<open>\<^verbatim>\<open>IntoCookie\<close>: a cookie is taken as it is, a string is parsed.\<close>

datatype cookie_input = FromCookie cookie | FromRaw raw_cookie | FromStr string

fun into_cookie :: "cookie_env \<Rightarrow> cookie_input \<Rightarrow> cookie option" where
  "into_cookie E (FromCookie c) = Some c"
| "into_cookie E (FromRaw c) = Some (cookie_of_raw c)"
| "into_cookie E (FromStr s) = map_option cookie_of_raw (env_cookie_parse E s)"

datatype cookies = Compressed string | Uncompressed "string list" | Empty

section \<open>Reading the jar\<close>

definition request_host :: "cookie_env \<Rightarrow> uri \<Rightarrow> host option" where
  "request_host E u = Option.bind (uri_host u) (canonical_host (env_host_parse E))"

definition jar_get ::
  "cookie_env \<Rightarrow> store \<Rightarrow> string \<Rightarrow> (error, uri) result \<Rightarrow> int \<Rightarrow> cookie option"
where
  "jar_get E st name r now =
     (case r of
        Inl _ \<Rightarrow> None
      | Inr u \<Rightarrow>
          Option.bind (request_host E u) (\<lambda>host.
          Option.bind (hm_get (st_cookies st) host) (\<lambda>pm.
          Option.bind (hm_get pm (uri_path u)) (\<lambda>sm.
          Option.bind (min_by_key ce_index
              (filter (\<lambda>e. \<not> cookie_is_expired (ce_cookie e) now) (scope_entries sm name)))
            (\<lambda>e. Some (with_host (cookie_of_raw (ce_cookie e)) host))))))"

definition jar_contains ::
  "cookie_env \<Rightarrow> store \<Rightarrow> string \<Rightarrow> (error, uri) result \<Rightarrow> int \<Rightarrow> bool"
where
  "jar_contains E st name r now =
     (case r of
        Inl _ \<Rightarrow> False
      | Inr u \<Rightarrow>
          (case request_host E u of
             None \<Rightarrow> False
           | Some host \<Rightarrow>
               (case Option.bind (hm_get (st_cookies st) host) (\<lambda>pm. hm_get pm (uri_path u)) of
                  None \<Rightarrow> False
                | Some sm \<Rightarrow>
                    list_ex (\<lambda>e. \<not> cookie_is_expired (ce_cookie e) now) (scope_entries sm name))))"

definition live_entries :: "store \<Rightarrow> int \<Rightarrow> (host \<times> string \<times> cookie_entry) list" where
  "live_entries st now =
     filter (\<lambda>(_, _, e). \<not> cookie_is_expired (ce_cookie e) now) (all_entries st)"

definition jar_get_all :: "store \<Rightarrow> int \<Rightarrow> cookie list" where
  "jar_get_all st now =
     map snd (sort_key fst
       (map (\<lambda>(h, _, e). (ce_index e, with_host (cookie_of_raw (ce_cookie e)) h))
         (live_entries st now)))"

definition jar_len :: "store \<Rightarrow> int \<Rightarrow> nat" where
  "jar_len st now = length (live_entries st now)"

definition jar_is_empty :: "store \<Rightarrow> int \<Rightarrow> bool" where
  "jar_is_empty st now \<longleftrightarrow>
     \<not> list_ex (\<lambda>(_, _, e). \<not> cookie_is_expired (ce_cookie e) now) (all_entries st)"

definition jar_matches :: "cookie_env \<Rightarrow> store \<Rightarrow> (error, uri) result \<Rightarrow> int \<Rightarrow> cookie list" where
  "jar_matches E st r now =
     (case r of
        Inl _ \<Rightarrow> []
      | Inr u \<Rightarrow>
          (case request_host E u of
             None \<Rightarrow> []
           | Some host \<Rightarrow>
               map (\<lambda>(h, _, e). with_host (cookie_of_raw (ce_cookie e)) h)
                 (matching_cookies st u host now)))"

section \<open>Changing the jar\<close>

definition cookie_domain :: "cookie_env \<Rightarrow> host \<Rightarrow> raw_cookie \<Rightarrow> (host \<times> raw_cookie) option" where
  "cookie_domain E host c =
     (case ck_domain c of
        None \<Rightarrow> Some (host, c)
      | Some raw_domain \<Rightarrow>
          (case canonical_host (env_host_parse E) raw_domain of
             None \<Rightarrow> None
           | Some domain \<Rightarrow>
               if \<not> domain_match host domain then None
               else Some (domain, c\<lparr>ck_domain := Some (env_host_string E domain)\<rparr>)))"

definition effective_expiry :: "cookie_env \<Rightarrow> raw_cookie \<Rightarrow> int \<Rightarrow> bool \<times> raw_cookie" where
  "effective_expiry E c now =
     (case ck_max_age c of
        Some max_age \<Rightarrow>
          if max_age \<le> 0 then (True, c)
          else (False, c\<lparr>ck_max_age := None, ck_expires := Some (DateTime (env_dt_add E now max_age))\<rparr>)
      | None \<Rightarrow>
          (case expires_datetime (ck_expires c) of
             Some deadline \<Rightarrow> deadline \<le> now
           | None \<Rightarrow> False, c))"

definition storage_path :: "uri \<Rightarrow> raw_cookie \<Rightarrow> string" where
  "storage_path u c =
     (case ck_path c of
        Some p \<Rightarrow> if prefix ''/'' p then p else normalize_path (uri_path u)
      | None \<Rightarrow> normalize_path (uri_path u))"

definition jar_add ::
  "cookie_env \<Rightarrow> store \<Rightarrow> cookie_input \<Rightarrow> (error, uri) result \<Rightarrow> int \<Rightarrow> store"
where
  "jar_add E st inp r now =
     (case into_cookie E inp of
        None \<Rightarrow> st
      | Some ck \<Rightarrow>
          (case r of
             Inl _ \<Rightarrow> st
           | Inr u \<Rightarrow>
               (let c = cookie_inner ck; secure_origin = is_https u
                in if ck_secure c = Some True \<and> \<not> secure_origin then st
                   else (case request_host E u of
                       None \<Rightarrow> st
                     | Some host \<Rightarrow>
                         (let host_only = (ck_domain c = None)
                          in case cookie_domain E host c of
                               None \<Rightarrow> st
                             | Some (domain, c1) \<Rightarrow>
                                 (let (expired, c2) = effective_expiry E c1 now;
                                      path = storage_path u c2
                                  in if \<not> secure_origin \<and>
                                        would_overlay_secure_cookie st (ck_name c2) domain path now
                                     then st
                                     else if expired
                                     then remove_stored_cookie st domain path (ck_name c2) host_only
                                     else insert_stored_cookie st domain path
                                            (c2\<lparr>ck_path := Some path\<rparr>)))))))"

definition jar_remove :: "cookie_env \<Rightarrow> store \<Rightarrow> string \<Rightarrow> (error, uri) result \<Rightarrow> store" where
  "jar_remove E st name r =
     (case r of
        Inl _ \<Rightarrow> st
      | Inr u \<Rightarrow>
          (case uri_host u of
             None \<Rightarrow> st
           | Some h \<Rightarrow>
               (case canonical_host (env_host_parse E) h of
                  None \<Rightarrow> st
                | Some host \<Rightarrow> remove_stored_cookies st host (uri_path u) name)))"

definition jar_clear :: "store \<Rightarrow> store" where
  "jar_clear _ = store_default"

section \<open>The \<open>CookieStore\<close> implementation\<close>

text \<open>Each \<^verbatim>\<open>Set-Cookie\<close> value comes with the clock reading of its insertion.\<close>

definition jar_set_cookies :: "cookie_env \<Rightarrow> store \<Rightarrow> (string \<times> int) list \<Rightarrow> uri \<Rightarrow> store" where
  "jar_set_cookies E st hs u =
     fold (\<lambda>(v, now) s.
        case cookie_parse E v of
          Inl _ \<Rightarrow> s
        | Inr c \<Rightarrow> jar_add E s (FromRaw (cookie_inner c)) (into_uri_uri u) now) hs st"

definition request_order :: "host \<times> string \<times> cookie_entry \<Rightarrow> int \<times> nat" where
  "request_order x = (case x of (_, p, e) \<Rightarrow> (- int (length p), ce_index e))"

definition cookie_pair :: "raw_cookie \<Rightarrow> string" where
  "cookie_pair c = ck_name c @ ''='' @ ck_value c"

fun join_pairs :: "string \<Rightarrow> raw_cookie list \<Rightarrow> string" where
  "join_pairs acc [] = acc"
| "join_pairs acc (c # cs) = join_pairs ((if acc \<noteq> [] then acc @ ''; '' else acc) @ cookie_pair c) cs"

definition selected :: "store \<Rightarrow> uri \<Rightarrow> host \<Rightarrow> int \<Rightarrow> raw_cookie list" where
  "selected st u host now =
     map (\<lambda>(_, _, e). ce_cookie e) (sort_key request_order (matching_cookies st u host now))"

definition jar_cookies :: "cookie_env \<Rightarrow> store \<Rightarrow> uri \<Rightarrow> version \<Rightarrow> int \<Rightarrow> cookies" where
  "jar_cookies E st u v now =
     (case request_host E u of
        None \<Rightarrow> Empty
      | Some host \<Rightarrow>
          (let cs = selected st u host now
           in if v = HTTP_2 \<or> v = HTTP_3 then
                Uncompressed (filter (env_header_ok E) (map cookie_pair cs))
              else (let s = join_pairs [] cs
                    in if s = [] then Empty
                       else if env_header_ok E s then Compressed s else Empty)))"

section \<open>Histories\<close>

datatype jar_op =
    OpAdd cookie_input "(error, uri) result" int
  | OpRemove string "(error, uri) result"
  | OpClear
  | OpSetCookies "(string \<times> int) list" uri

fun jar_step :: "cookie_env \<Rightarrow> jar_op \<Rightarrow> store \<Rightarrow> store" where
  "jar_step E (OpAdd inp r now) st = jar_add E st inp r now"
| "jar_step E (OpRemove n r) st = jar_remove E st n r"
| "jar_step E OpClear st = jar_clear st"
| "jar_step E (OpSetCookies hs u) st = jar_set_cookies E st hs u"

definition jar_run :: "cookie_env \<Rightarrow> jar_op list \<Rightarrow> store" where
  "jar_run E ops = fold (jar_step E) ops store_default"

section \<open>What an insertion stores\<close>

text \<open>The part of \<^verbatim>\<open>add\<close> before the store is locked: the origin, its host, the domain and path the
  cookie is stored under, the cookie as stored, and whether it is a removal.\<close>

definition add_target ::
  "cookie_env \<Rightarrow> cookie_input \<Rightarrow> (error, uri) result \<Rightarrow> int \<Rightarrow>
   (uri \<times> host \<times> host \<times> string \<times> raw_cookie \<times> bool) option"
where
  "add_target E inp r now =
     (case (into_cookie E inp, r) of
        (Some ck, Inr u) \<Rightarrow>
          if ck_secure (cookie_inner ck) = Some True \<and> \<not> is_https u then None
          else Option.bind (request_host E u) (\<lambda>host.
               Option.bind (cookie_domain E host (cookie_inner ck)) (\<lambda>(domain, c1).
               let (expired, c2) = effective_expiry E c1 now; path = storage_path u c2
               in Some (u, host, domain, path, c2\<lparr>ck_path := Some path\<rparr>, expired)))
      | _ \<Rightarrow> None)"

lemma cookie_domain_props:
  "cookie_domain E host c = Some (d, c1) \<Longrightarrow>
   domain_match host d \<and> (ck_domain c = None \<longrightarrow> d = host) \<and>
   (ck_domain c1 = None) = (ck_domain c = None) \<and>
   ck_name c1 = ck_name c \<and> ck_value c1 = ck_value c \<and> ck_secure c1 = ck_secure c \<and>
   ck_path c1 = ck_path c \<and> ck_max_age c1 = ck_max_age c \<and> ck_expires c1 = ck_expires c"
  by (auto simp: cookie_domain_def split: option.splits if_splits)

lemma effective_expiry_props:
  "effective_expiry E c now = (x, c') \<Longrightarrow>
   ck_name c' = ck_name c \<and> ck_value c' = ck_value c \<and> ck_domain c' = ck_domain c \<and>
   ck_secure c' = ck_secure c \<and> ck_path c' = ck_path c \<and> (\<not> x \<longrightarrow> ck_max_age c' = None)"
  by (auto simp: effective_expiry_def split: option.splits if_splits)

lemma prefix_storage_path: "prefix ''/'' (storage_path u c)"
  by (simp add: storage_path_def prefix_normalize_path split: option.split)

lemma add_target_props:
  assumes "add_target E inp r now = Some (u, h, d, p, c, x)"
  shows "r = Inr u" "request_host E u = Some h" "domain_match h d"
    "ck_domain c = None \<Longrightarrow> d = h" "ck_secure c = Some True \<Longrightarrow> is_https u"
    "prefix ''/'' p" "ck_path c = Some p" "\<not> x \<Longrightarrow> ck_max_age c = None"
    "\<exists>ck. into_cookie E inp = Some ck \<and> ck_name c = ck_name (cookie_inner ck) \<and>
       ck_value c = ck_value (cookie_inner ck) \<and> ck_secure c = ck_secure (cookie_inner ck)"
proof -
  from assms obtain ck c1 where
    a: "into_cookie E inp = Some ck" "r = Inr u"
      "\<not> (ck_secure (cookie_inner ck) = Some True \<and> \<not> is_https u)"
      "request_host E u = Some h"
    and d: "cookie_domain E h (cookie_inner ck) = Some (d, c1)"
    and x: "x = fst (effective_expiry E c1 now)"
    and c: "p = storage_path u (snd (effective_expiry E c1 now))"
      "c = (snd (effective_expiry E c1 now))\<lparr>ck_path := Some p\<rparr>"
    by (auto simp: add_target_def bind_eq_Some_conv split_beta Let_def
        split: option.split_asm sum.split_asm if_split_asm)
  from x have e: "effective_expiry E c1 now = (x, snd (effective_expiry E c1 now))" by simp
  note props = a c cookie_domain_props [OF d] effective_expiry_props [OF e]
  show "r = Inr u" "request_host E u = Some h" by (fact a)+
  show "domain_match h d" "ck_domain c = None \<Longrightarrow> d = h" "ck_secure c = Some True \<Longrightarrow> is_https u"
    "ck_path c = Some p" "\<not> x \<Longrightarrow> ck_max_age c = None"
    using props by auto
  show "prefix ''/'' p" using c by (simp add: prefix_storage_path)
  show "\<exists>ck. into_cookie E inp = Some ck \<and> ck_name c = ck_name (cookie_inner ck) \<and>
       ck_value c = ck_value (cookie_inner ck) \<and> ck_secure c = ck_secure (cookie_inner ck)"
    using props by auto
qed

lemma jar_add_target:
  "jar_add E st inp r now =
     (case add_target E inp r now of
        None \<Rightarrow> st
      | Some (u, h, d, p, c, x) \<Rightarrow>
          if \<not> is_https u \<and> would_overlay_secure_cookie st (ck_name c) d p now then st
          else if x then remove_stored_cookie st d p (ck_name c) (ck_domain c = None)
          else insert_stored_cookie st d p c)"
proof -
  have "(ck_domain c2 = None) = (ck_domain c = None)"
    if "cookie_domain E h c = Some (d, c1)" "effective_expiry E c1 now = (x, c2)" for h c d c1 x c2
    using cookie_domain_props [OF that(1)] effective_expiry_props [OF that(2)] by simp
  then show ?thesis
    by (auto simp: jar_add_def add_target_def Let_def split: option.split sum.split prod.split)
qed

section \<open>The invariant of the jar\<close>

definition stored_ok :: "store \<Rightarrow> bool" where
  "stored_ok st \<longleftrightarrow>
     (\<forall>d p n ho e. store_get st d p n ho = Some e \<longrightarrow>
        ck_path (ce_cookie e) = Some p \<and> prefix ''/'' p \<and> ck_max_age (ce_cookie e) = None)"

definition jar_inv :: "store \<Rightarrow> bool" where
  "jar_inv st \<longleftrightarrow>
     (store_wf st \<and> flat_keyed (view st) \<and> flat_indexed (view st)) \<and> stored_ok st"

lemma store_get_insert_stored:
  "store_get (insert_stored_cookie st d p c) d' p' n' ho' = Some e \<Longrightarrow>
   (d', p', n', ho') = (d, p, ck_name c, ck_domain c = None) \<and> ce_cookie e = c \<or>
   store_get st d' p' n' ho' = Some e"
  by (auto simp: insert_stored_cookie_def Let_def hash_simps split: option.splits if_splits)

lemma store_get_insert_same:
  "\<exists>i. store_get (insert_stored_cookie st d p c) d p (ck_name c) (ck_domain c = None) =
     Some \<lparr>ce_cookie = c, ce_index = i\<rparr>"
  using nested.ins_lookup [of st d p c] by (simp only: view_get)

lemma store_get_insert_other:
  "(d', p', n', ho') \<noteq> (d, p, ck_name c, ck_domain c = None) \<Longrightarrow>
   store_get (insert_stored_cookie st d p c) d' p' n' ho' = store_get st d' p' n' ho'"
  using nested.ins_other [of "(d', p', n', ho')" d p c st] unfolding view_get .

lemma jar_add_other:
  assumes "\<And>u h d p c x. add_target E inp r now = Some (u, h, d, p, c, x) \<Longrightarrow>
      (d', p', n', ho') \<noteq> (d, p, ck_name c, ck_domain c = None)"
  shows "store_get (jar_add E st inp r now) d' p' n' ho' = store_get st d' p' n' ho'"
proof (cases "add_target E inp r now")
  case (Some a)
  then obtain u h d p c x where a: "add_target E inp r now = Some (u, h, d, p, c, x)"
    by (cases a) auto
  have "store_get (remove_stored_cookie st d p (ck_name c) (ck_domain c = None)) d' p' n' ho' =
      store_get st d' p' n' ho'"
    using assms [OF a] by (auto simp: remove_stored_cookie_def store_get_remove)
  with assms [OF a] a show ?thesis
    by (simp add: jar_add_target store_get_insert_other del: prod.inject)
qed (simp add: jar_add_target)

lemma jar_inv_default: "jar_inv store_default"
  unfolding jar_inv_def by (intro conjI nested.inv_init) (simp add: stored_ok_def)

lemma jar_inv_remove: "jar_inv st \<Longrightarrow> jar_inv (remove_stored_cookie_inner st d p n s)"
  unfolding jar_inv_def
  by (intro conjI nested.inv_rem) (auto simp: stored_ok_def store_get_remove split: if_splits)

lemma stored_ok_insert:
  assumes "stored_ok st" "ck_path c = Some p" "prefix ''/'' p" "ck_max_age c = None"
  shows "stored_ok (insert_stored_cookie st d p c)"
  unfolding stored_ok_def
proof (intro allI impI)
  fix d' p' n' ho' e
  assume "store_get (insert_stored_cookie st d p c) d' p' n' ho' = Some e"
  from store_get_insert_stored [OF this] assms
  show "ck_path (ce_cookie e) = Some p' \<and> prefix ''/'' p' \<and> ck_max_age (ce_cookie e) = None"
    unfolding stored_ok_def by auto
qed

lemma jar_inv_insert:
  assumes "jar_inv st" "ck_path c = Some p" "prefix ''/'' p" "ck_max_age c = None"
  shows "jar_inv (insert_stored_cookie st d p c)"
  using assms nested.inv_ins [of st d p c] stored_ok_insert [of st c p d]
  unfolding jar_inv_def by blast

lemma jar_inv_add:
  assumes "jar_inv st"
  shows "jar_inv (jar_add E st inp r now)"
proof (cases "add_target E inp r now")
  case None
  with assms show ?thesis by (simp add: jar_add_target)
next
  case (Some a)
  then obtain u h d p c x where a: "add_target E inp r now = Some (u, h, d, p, c, x)"
    by (cases a) auto
  show ?thesis
    using assms jar_inv_insert [OF assms add_target_props(7,6,8) [OF a]]
    by (simp add: jar_add_target a remove_stored_cookie_def jar_inv_remove)
qed

text \<open>The insertions an operation performs.\<close>

fun op_adds :: "cookie_env \<Rightarrow> jar_op \<Rightarrow> (cookie_input \<times> (error, uri) result \<times> int) list" where
  "op_adds E (OpAdd inp r now) = [(inp, r, now)]"
| "op_adds E (OpSetCookies hs u) =
     concat (map (\<lambda>(v, now). case cookie_parse E v of
         Inl _ \<Rightarrow> [] | Inr c \<Rightarrow> [(FromRaw (cookie_inner c), into_uri_uri u, now)]) hs)"
| "op_adds E _ = []"

lemma jar_set_cookies_adds:
  "jar_set_cookies E st hs u =
     fold (\<lambda>(inp, r, now) s. jar_add E s inp r now) (op_adds E (OpSetCookies hs u)) st"
  by (induction hs arbitrary: st) (auto simp: jar_set_cookies_def split: sum.splits)

lemma fold_adds_invariant:
  assumes "\<And>inp r now s. (inp, r, now) \<in> set as \<Longrightarrow> P s \<Longrightarrow> P (jar_add E s inp r now)" "P st"
  shows "P (fold (\<lambda>(inp, r, now) s. jar_add E s inp r now) as st)"
  using assms by (induction as arbitrary: st) auto

lemma jar_inv_step: "jar_inv st \<Longrightarrow> jar_inv (jar_step E op st)"
proof (cases op)
  case (OpRemove n r)
  assume "jar_inv st"
  then show ?thesis
    by (simp add: OpRemove jar_remove_def remove_stored_cookies_def jar_inv_remove
        split: sum.split option.split)
next
  case (OpSetCookies hs u)
  assume "jar_inv st"
  then show ?thesis
    unfolding OpSetCookies jar_step.simps jar_set_cookies_adds
    by (rule fold_adds_invariant [rotated]) (rule jar_inv_add)
qed (simp_all add: jar_inv_add jar_inv_default jar_clear_def)

lemma jar_inv_run: "jar_inv (jar_run E ops)"
proof -
  have "jar_inv st \<Longrightarrow> jar_inv (fold (jar_step E) ops st)" for st
    by (induction ops arbitrary: st) (simp_all add: jar_inv_step)
  then show ?thesis by (simp add: jar_run_def jar_inv_default)
qed
section \<open>Properties of the jar\<close>

text \<open>C19: after any history of insertions, \<^verbatim>\<open>Set-Cookie\<close> deliveries, removals and clears the jar
  is well formed: keys are unique and no inner map is empty; each cookie sits under its own name,
  host-only flag and path, the path is absolute and no relative \<^verbatim>\<open>Max-Age\<close> is left; creation
  indices are unique while the counter has not saturated.  The counting operations agree with the
  listing.\<close>

theorem jar_history_invariant:
  "jar_inv (jar_run E ops) \<and>
   length (jar_get_all (jar_run E ops) now) = jar_len (jar_run E ops) now \<and>
   (jar_is_empty (jar_run E ops) now \<longleftrightarrow> jar_len (jar_run E ops) now = 0)"
  by (auto simp: jar_inv_run jar_get_all_def jar_len_def jar_is_empty_def live_entries_def
      list_ex_iff filter_empty_conv)

text \<open>Where a stored cookie comes from.\<close>

definition all_adds ::
  "cookie_env \<Rightarrow> jar_op list \<Rightarrow> (cookie_input \<times> (error, uri) result \<times> int) list"
where
  "all_adds E ops = concat (map (op_adds E) ops)"

definition added_by ::
  "cookie_env \<Rightarrow> (cookie_input \<times> (error, uri) result \<times> int) list \<Rightarrow> store \<Rightarrow> bool"
where
  "added_by E as st \<longleftrightarrow>
     (\<forall>d p n ho e. store_get st d p n ho = Some e \<longrightarrow>
        (\<exists>inp r now u h. (inp, r, now) \<in> set as \<and>
           add_target E inp r now = Some (u, h, d, p, ce_cookie e, False)))"

lemma added_by_mono: "added_by E as st \<Longrightarrow> set as \<subseteq> set bs \<Longrightarrow> added_by E bs st"
  unfolding added_by_def by blast

lemma added_by_remove: "added_by E as st \<Longrightarrow> added_by E as (remove_stored_cookie_inner st d p n s)"
  unfolding added_by_def store_get_remove by (metis option.distinct(1))

lemma added_by_add:
  assumes "added_by E as st" "(inp, r, now) \<in> set as"
  shows "added_by E as (jar_add E st inp r now)"
proof (cases "add_target E inp r now")
  case None
  with assms show ?thesis by (simp add: jar_add_target)
next
  case (Some a)
  then obtain u h d p c x where a: "add_target E inp r now = Some (u, h, d, p, c, x)"
    by (cases a) auto
  have "added_by E as (insert_stored_cookie st d p c)" if nx: "\<not> x"
    unfolding added_by_def
  proof (intro allI impI)
    fix d' p' n' ho' e
    assume "store_get (insert_stored_cookie st d p c) d' p' n' ho' = Some e"
    from store_get_insert_stored [OF this] a nx
    consider "add_target E inp r now = Some (u, h, d', p', ce_cookie e, False)"
      | "store_get st d' p' n' ho' = Some e"
      by auto
    then show "\<exists>inp r now u h. (inp, r, now) \<in> set as \<and>
        add_target E inp r now = Some (u, h, d', p', ce_cookie e, False)"
      using assms unfolding added_by_def by cases blast+
  qed
  with assms show ?thesis
    by (simp add: jar_add_target a remove_stored_cookie_def added_by_remove)
qed

lemma added_by_step:
  assumes "added_by E as st" "set (op_adds E op) \<subseteq> set as"
  shows "added_by E as (jar_step E op st)"
proof (cases op)
  case (OpAdd inp r now)
  with assms show ?thesis by (simp add: added_by_add)
next
  case (OpRemove n r)
  with assms show ?thesis
    by (simp add: jar_remove_def remove_stored_cookies_def added_by_remove
        split: sum.split option.split)
next
  case OpClear
  then show ?thesis by (simp add: jar_clear_def added_by_def)
next
  case (OpSetCookies hs u)
  show ?thesis
    unfolding OpSetCookies jar_step.simps jar_set_cookies_adds
    by (rule fold_adds_invariant) (use assms added_by_add OpSetCookies in blast)+
qed

lemma added_by_run: "added_by E (all_adds E ops) (jar_run E ops)"
proof -
  have "added_by E as (fold (jar_step E) ops st)"
    if "added_by E as st" "set (all_adds E ops) \<subseteq> set as" for as st
    using that by (induction ops arbitrary: st) (simp_all add: all_adds_def added_by_step)
  moreover have "added_by E (all_adds E ops) store_default" by (simp add: added_by_def)
  ultimately show ?thesis unfolding jar_run_def by blast
qed

lemma selected_iff:
  "store_wf st \<Longrightarrow>
   c \<in> set (selected st u h now) \<longleftrightarrow>
     (\<exists>d p n ho e. store_get st d p n ho = Some e \<and> ce_cookie e = c \<and>
        request_matches_cookie u h d p c now)"
  using matching_cookies_iff [of st _ _ _ u h now] unfolding selected_def set_map set_sort image_iff
  by force

lemma request_matches_props:
  "request_matches_cookie u h d p c now \<Longrightarrow>
   (is_http u \<or> is_https u) \<and> domain_match h d \<and> (ck_domain c = None \<longrightarrow> h = d) \<and>
   path_match (uri_path u) p \<and> (ck_secure c = Some True \<longrightarrow> is_https u) \<and> \<not> cookie_is_expired c now"
  by (auto simp: request_matches_cookie_def split: if_splits)

text \<open>C2: confinement of cookies.  Every cookie the jar selects for a request, after any history,
  was inserted unchanged from an origin URI of that history whose host domain-matches the cookie's
  domain, and the request host domain-matches the same domain; a host-only cookie goes back to
  exactly the host that set it; a \<^verbatim>\<open>Secure\<close> cookie was set from an https origin and is sent to an
  https URI only; the request path matches the stored path, and the cookie has not expired.\<close>

theorem cookie_confinement:
  assumes "c \<in> set (selected (jar_run E ops) u h now)"
  shows "\<exists>inp u0 t h0 d p.
           (inp, Inr u0, t) \<in> set (all_adds E ops) \<and>
           add_target E inp (Inr u0) t = Some (u0, h0, d, p, c, False) \<and>
           request_host E u0 = Some h0 \<and> domain_match h0 d \<and> domain_match h d \<and>
           (ck_domain c = None \<longrightarrow> h = h0) \<and>
           (ck_secure c = Some True \<longrightarrow> is_https u0 \<and> is_https u) \<and>
           (is_http u \<or> is_https u) \<and>
           ck_path c = Some p \<and> path_match (uri_path u) p \<and>
           \<not> cookie_is_expired c now"
proof -
  have wf: "store_wf (jar_run E ops)" using jar_inv_run by (simp add: jar_inv_def)
  from assms obtain d p n ho e where g: "store_get (jar_run E ops) d p n ho = Some e"
    and c: "ce_cookie e = c" and m: "request_matches_cookie u h d p c now"
    unfolding selected_iff [OF wf] by blast
  from added_by_run g c obtain inp r t u0 h0 where
    i: "(inp, r, t) \<in> set (all_adds E ops)" and a: "add_target E inp r t = Some (u0, h0, d, p, c, False)"
    unfolding added_by_def by blast
  note p = add_target_props [OF a] request_matches_props [OF m]
  with i a show ?thesis by (metis (no_types, lifting))
qed

definition sample_env :: cookie_env where
  "sample_env =
     \<lparr>env_host_parse = (\<lambda>s. Some (Domain s)), env_host_string = (\<lambda>h. case h of Domain s \<Rightarrow> s | _ \<Rightarrow> []),
      env_dt_add = (+), 
      env_cookie_parse = (\<lambda>s. if s = ''s=2'' then Some (sample_cookie ''s'' ''2'') else None),
      env_header_ok = (\<lambda>_. True)\<rparr>"

definition sample_secure :: raw_cookie where
  "sample_secure = (sample_cookie ''s'' ''1'')\<lparr>ck_secure := Some True, ck_domain := Some ''example.com''\<rparr>"

definition sample_history :: "jar_op list" where
  "sample_history =
     [OpAdd (FromRaw sample_secure) (Inr (sample_uri ''https'' ''www.example.com'' ''/x'')) 0,
      OpAdd (FromRaw (sample_cookie ''s'' ''2'')) (Inr (sample_uri ''http'' ''www.example.com'' ''/x'')) 1,
      OpAdd (FromRaw (sample_cookie ''t'' ''3'')) (Inr (sample_uri ''http'' ''www.example.com'' ''/x'')) 2]"

lemma sample_secure_secure: "(ck_secure sample_secure = Some True) = True"
  by (simp add: sample_secure_def)

lemma sample_selected:
  "selected (jar_run sample_env sample_history) (sample_uri ''https'' ''api.example.com'' ''/y'')
     (Domain ''api.example.com'') 3 = [sample_secure]"
  by code_simp

theorem cookie_confinement_witness:
  "\<exists>inp u0 t h0 d p.
     (inp, Inr u0, t) \<in> set (all_adds sample_env sample_history) \<and>
     add_target sample_env inp (Inr u0) t = Some (u0, h0, d, p, sample_secure, False) \<and>
     domain_match (Domain ''api.example.com'') d \<and> is_https u0"
proof -
  have "sample_secure \<in> set (selected (jar_run sample_env sample_history)
      (sample_uri ''https'' ''api.example.com'' ''/y'') (Domain ''api.example.com'') 3)"
    by (simp add: sample_selected)
  from cookie_confinement [OF this] show ?thesis
    unfolding sample_secure_secure by blast
qed

text \<open>C10: an insecure origin cannot disturb a secure cookie.  Whatever an http response sets
  (any number of \<^verbatim>\<open>Set-Cookie\<close> values, with any attributes, expiring ones included), every
  unexpired \<^verbatim>\<open>Secure\<close> cookie of the jar is still stored as it was, and no cookie with the same
  name was added on an overlapping domain at a path the secure cookie covers.\<close>

theorem secure_cookie_protected:
  assumes "jar_inv st" and "\<not> is_https u"
    and "store_get st d p n ho = Some e" and "ck_secure (ce_cookie e) = Some True"
    and "\<forall>(v, t) \<in> set hs. \<not> cookie_is_expired (ce_cookie e) t"
  shows "store_get (jar_set_cookies E st hs u) d p n ho = Some e \<and>
         (\<forall>d' p' ho' e'. store_get (jar_set_cookies E st hs u) d' p' n ho' = Some e' \<and>
            (domain_match d' d \<or> domain_match d d') \<and> path_match p' p \<longrightarrow>
            store_get st d' p' n ho' = Some e')"
  (is "?keep \<and> ?none (jar_set_cookies E st hs u)")
proof -
  let ?P = "\<lambda>s. jar_inv s \<and> store_get s d p n ho = Some e \<and>
    (\<forall>d' p' ho' e'. store_get s d' p' n ho' = Some e' \<and>
            (domain_match d' d \<or> domain_match d d') \<and> path_match p' p \<longrightarrow>
            store_get st d' p' n ho' = Some e')"
  have "?P (fold (\<lambda>(inp, r, now) s. jar_add E s inp r now) (op_adds E (OpSetCookies hs u)) st)"
  proof (rule fold_adds_invariant)
    fix inp r now s
    assume i: "(inp, r, now) \<in> set (op_adds E (OpSetCookies hs u))" and s: "?P s"
    from i assms(5) have ne: "\<not> cookie_is_expired (ce_cookie e) now" and r: "r = into_uri_uri u"
      by (auto split: sum.splits)
    show "?P (jar_add E s inp r now)"
    proof (cases "\<exists>u' h' d' p' c x. add_target E inp r now = Some (u', h', d', p', c, x) \<and>
        would_overlay_secure_cookie s (ck_name c) d' p' now")
      case True
      then obtain u' h' d' p' c x where a: "add_target E inp r now = Some (u', h', d', p', c, x)"
        and ov: "would_overlay_secure_cookie s (ck_name c) d' p' now" by blast
      have "\<not> is_https u'"
        using add_target_props(1) [OF a] r assms(2) by (simp add: into_uri_uri_Inr)
      with a ov have "jar_add E s inp r now = s" by (simp add: jar_add_target)
      with s show ?thesis by simp
    next
      case False
      have "store_get (jar_add E s inp r now) d1 p1 n ho1 = store_get s d1 p1 n ho1"
        if m: "(domain_match d1 d \<or> domain_match d d1) \<and> path_match p1 p" for d1 p1 ho1
      proof (rule jar_add_other)
        fix u' h' d' p' c x
        assume "add_target E inp r now = Some (u', h', d', p', c, x)"
        with False have "\<not> would_overlay_secure_cookie s (ck_name c) d' p' now" by blast
        moreover have "store_wf s" using s by (simp add: jar_inv_def)
        ultimately have "\<not> (ck_name c = n \<and> d' = d1 \<and> p' = p1)"
          using s assms(4) ne m unfolding would_overlay_iff [OF \<open>store_wf s\<close>] by blast
        then show "(d1, p1, n, ho1) \<noteq> (d', p', ck_name c, ck_domain c = None)" by auto
      qed
      moreover from this [of d p] have "store_get (jar_add E s inp r now) d p n ho = Some e"
        using s by (simp add: path_match_def)
      ultimately show ?thesis using s jar_inv_add by metis
    qed
  qed (use assms in simp)
  then show ?thesis by (simp add: jar_set_cookies_adds)
qed

theorem secure_cookie_protected_witness:
  "store_get (jar_set_cookies sample_env (jar_run sample_env (take 1 sample_history))
       [(''s=2'', 5)] (sample_uri ''http'' ''example.com'' ''/''))
     (Domain ''example.com'') ''/'' ''s'' False = Some \<lparr>ce_cookie = sample_secure, ce_index = 0\<rparr>"
proof -
  have "store_get (jar_run sample_env (take 1 sample_history)) (Domain ''example.com'') ''/'' ''s'' False
      = Some \<lparr>ce_cookie = sample_secure, ce_index = 0\<rparr>"
    "\<not> cookie_is_expired sample_secure 5"
    "\<not> is_https (sample_uri ''http'' ''example.com'' ''/'')"
    by code_simp+
  then show ?thesis
    using secure_cookie_protected [OF jar_inv_run, of _ sample_env "take 1 sample_history"
        "Domain ''example.com''" "''/''" "''s''" False "\<lparr>ce_cookie = sample_secure, ce_index = 0\<rparr>"
        "[(''s=2'', 5)]"]
    by (simp add: sample_secure_secure)
qed

definition opt_list :: "'a option \<Rightarrow> 'a list" where
  "opt_list x = (case x of None \<Rightarrow> [] | Some y \<Rightarrow> [y])"

lemma jar_get_eq:
  assumes "request_host E u = Some d"
  shows "jar_get E st n (Inr u) now =
    map_option (\<lambda>e. \<lparr>cookie_inner = ce_cookie e, cookie_host = Some d\<rparr>)
      (min_by_key ce_index (filter (\<lambda>e. \<not> cookie_is_expired (ce_cookie e) now)
        (opt_list (store_get st d (uri_path u) n True) @ opt_list (store_get st d (uri_path u) n False))))"
proof (cases "Option.bind (hm_get (st_cookies st) d) (\<lambda>pm. hm_get pm (uri_path u))")
  case None
  then show ?thesis
    using assms
    by (cases "hm_get (st_cookies st) d") (simp_all add: jar_get_def store_get_def opt_list_def)
next
  case (Some sm)
  then obtain pm where pm: "hm_get (st_cookies st) d = Some pm" "hm_get pm (uri_path u) = Some sm"
    by (auto simp: bind_eq_Some_conv)
  have "scope_entries sm n = opt_list (store_get st d (uri_path u) n True) @
      opt_list (store_get st d (uri_path u) n False)"
    by (simp add: scope_entries_def store_get_def pm scope_get_def opt_list_def)
  then show ?thesis
    using assms pm
    by (simp add: jar_get_def with_host_def cookie_of_raw_def map_option_case
        split: option.split)
qed

lemma jar_contains_get: "jar_contains E st n r now \<longleftrightarrow> jar_get E st n r now \<noteq> None"
proof (cases "\<exists>u h pm sm. r = Inr u \<and> request_host E u = Some h \<and>
    hm_get (st_cookies st) h = Some pm \<and> hm_get pm (uri_path u) = Some sm")
  case True
  then obtain u h pm sm where r: "r = Inr u" "request_host E u = Some h"
    "hm_get (st_cookies st) h = Some pm" "hm_get pm (uri_path u) = Some sm" by blast
  let ?live = "filter (\<lambda>e. \<not> cookie_is_expired (ce_cookie e) now) (scope_entries sm n)"
  have "jar_contains E st n r now \<longleftrightarrow> ?live \<noteq> []"
    by (simp add: jar_contains_def r list_ex_iff filter_empty_conv)
  also have "\<dots> \<longleftrightarrow> min_by_key ce_index ?live \<noteq> None" by (simp only: min_by_key_None)
  also have "\<dots> \<longleftrightarrow> jar_get E st n r now \<noteq> None"
    by (cases "min_by_key ce_index ?live") (simp_all add: jar_get_def r)
  finally show ?thesis .
next
  case False
  then show ?thesis
    by (auto simp: jar_contains_def jar_get_def bind_eq_Some_conv split: sum.splits option.splits)
qed

text \<open>C36: insertion and lookup.  When an insertion reaches the store (it names a valid target and is
  not an insecure overlay), every other key keeps its entry; a non-positive \<^verbatim>\<open>Max-Age\<close> or a past
  \<^verbatim>\<open>Expires\<close> removes the entry of the key, and otherwise an exact lookup on the stored host and path
  finds the name until the deadline passes, returning the inserted cookie itself with its host when
  the other storage scope does not hold the same name.\<close>

theorem add_then_get:
  assumes a: "add_target E inp r now = Some (u, h, d, p, c, x)"
    and ok: "is_https u \<or> \<not> would_overlay_secure_cookie st (ck_name c) d p now"
    and u': "request_host E u' = Some d" "uri_path u' = p"
  shows "((d', p', n', ho') \<noteq> (d, p, ck_name c, ck_domain c = None) \<longrightarrow>
            store_get (jar_add E st inp r now) d' p' n' ho' = store_get st d' p' n' ho') \<and>
         (x \<longrightarrow> store_get (jar_add E st inp r now) d p (ck_name c) (ck_domain c = None) = None) \<and>
         (\<not> x \<and> \<not> cookie_is_expired c t \<longrightarrow>
            jar_contains E (jar_add E st inp r now) (ck_name c) (Inr u') t \<and>
            (store_get st d p (ck_name c) (ck_domain c \<noteq> None) = None \<longrightarrow>
               jar_get E (jar_add E st inp r now) (ck_name c) (Inr u') t =
                 Some \<lparr>cookie_inner = c, cookie_host = Some d\<rparr>))"
proof (intro conjI impI)
  assume "(d', p', n', ho') \<noteq> (d, p, ck_name c, ck_domain c = None)"
  then show "store_get (jar_add E st inp r now) d' p' n' ho' = store_get st d' p' n' ho'"
    by (intro jar_add_other) (simp add: a)
next
  assume x
  with a ok show "store_get (jar_add E st inp r now) d p (ck_name c) (ck_domain c = None) = None"
    by (auto simp: jar_add_target remove_stored_cookie_def store_get_remove)
next
  let ?st = "jar_add E st inp r now"
  assume l: "\<not> x \<and> \<not> cookie_is_expired c t"
  with a ok obtain i where
    i: "store_get ?st d p (ck_name c) (ck_domain c = None) = Some \<lparr>ce_cookie = c, ce_index = i\<rparr>"
    using store_get_insert_same [of st d p c] by (auto simp: jar_add_target)
  then have o: "opt_list (store_get ?st d p (ck_name c) (ck_domain c = None)) =
      [\<lparr>ce_cookie = c, ce_index = i\<rparr>]"
    by (simp add: opt_list_def)
  have g: "jar_get E ?st (ck_name c) (Inr u') t =
    map_option (\<lambda>e. \<lparr>cookie_inner = ce_cookie e, cookie_host = Some d\<rparr>)
      (min_by_key ce_index (filter (\<lambda>e. \<not> cookie_is_expired (ce_cookie e) t)
        (opt_list (store_get ?st d p (ck_name c) True) @ opt_list (store_get ?st d p (ck_name c) False))))"
    using jar_get_eq [OF u'(1), of ?st "ck_name c" t] unfolding u'(2) .
  have "filter (\<lambda>e. \<not> cookie_is_expired (ce_cookie e) t)
      (opt_list (store_get ?st d p (ck_name c) True) @ opt_list (store_get ?st d p (ck_name c) False)) \<noteq> []"
    using o l by (cases "ck_domain c = None") simp_all
  then show "jar_contains E ?st (ck_name c) (Inr u') t"
    unfolding jar_contains_get g map_option_is_None min_by_key_None .
  assume "store_get st d p (ck_name c) (ck_domain c \<noteq> None) = None"
  then have "store_get ?st d p (ck_name c) (ck_domain c \<noteq> None) = None"
    by (subst jar_add_other) (auto simp: a)
  then show "jar_get E ?st (ck_name c) (Inr u') t = Some \<lparr>cookie_inner = c, cookie_host = Some d\<rparr>"
    unfolding g using i l
    by (cases "ck_domain c = None") (simp_all add: opt_list_def)
qed

theorem add_then_get_witness:
  "jar_get sample_env
     (jar_add sample_env store_default (FromRaw ((sample_cookie ''a'' ''1'')\<lparr>ck_max_age := Some 10\<rparr>))
        (Inr (sample_uri ''http'' ''h'' ''/'')) 100) ''a'' (Inr (sample_uri ''http'' ''h'' ''/'')) 109 =
   Some \<lparr>cookie_inner = (sample_cookie ''a'' ''1'')\<lparr>ck_expires := Some (DateTime 110)\<rparr>,
         cookie_host = Some (Domain ''h'')\<rparr>"
proof -
  let ?c = "(sample_cookie ''a'' ''1'')\<lparr>ck_expires := Some (DateTime 110)\<rparr>"
  let ?u = "sample_uri ''http'' ''h'' ''/''"
  have a: "add_target sample_env (FromRaw ((sample_cookie ''a'' ''1'')\<lparr>ck_max_age := Some 10\<rparr>))
      (Inr ?u) 100 = Some (?u, Domain ''h'', Domain ''h'', ''/'', ?c, False)"
    and b: "\<not> would_overlay_secure_cookie store_default (ck_name ?c) (Domain ''h'') ''/'' 100"
    and c: "request_host sample_env ?u = Some (Domain ''h'')" "uri_path ?u = ''/''"
    and d: "\<not> cookie_is_expired ?c 109" "ck_name ?c = ''a''"
    by code_simp+
  from add_then_get [OF a disjI2 [OF b] c, of _ _ _ _ 109] d show ?thesis by simp
qed

section \<open>The request header\<close>

text \<open>The order of the selected cookies and the text of the header do not depend on the iteration
  order of the hash maps.\<close>

lemma sort_key_canonical:
  fixes f :: "'a \<Rightarrow> 'b :: linorder"
  assumes "distinct xs" "distinct ys" "set xs = set ys" "inj_on f (set xs)"
  shows "sort_key f xs = sort_key f ys"
proof -
  have "map f (sort_key f xs) = map f (sort_key f ys)"
  proof (rule sorted_distinct_set_unique)
    show "distinct (map f (sort_key f xs))" "distinct (map f (sort_key f ys))"
      using assms by (simp_all add: distinct_map)
  qed (use assms in simp_all)
  with assms show ?thesis by (simp add: inj_on_map_eq_map)
qed

definition nest :: "('v \<Rightarrow> ('l \<times> 'e) list) \<Rightarrow> ('k \<times> 'v) list \<Rightarrow> (('k \<times> 'l) \<times> 'e) list" where
  "nest g m = concat (map (\<lambda>(k, v). map (\<lambda>(l, e). ((k, l), e)) (g v)) m)"

lemma mem_nest: "((k, l), e) \<in> set (nest g m) \<longleftrightarrow> (\<exists>v. (k, v) \<in> set m \<and> (l, e) \<in> set (g v))"
  unfolding nest_def in_concat_map split_paired_Ex prod.case set_map image_iff Bex_def prod.inject
  by blast

lemma keys_nest: "x \<in> set (map fst (nest g m)) \<Longrightarrow> fst x \<in> set (map fst m)"
  by (auto simp: nest_def) force

lemma map_fst_nest_Cons:
  "map fst (nest g ((k, v) # m)) = map (Pair k) (map fst (g v)) @ map fst (nest g m)"
  by (simp add: nest_def split_beta)

lemma distinct_nest:
  assumes "distinct (map fst m)" "\<And>k v. (k, v) \<in> set m \<Longrightarrow> distinct (map fst (g v))"
  shows "distinct (map fst (nest g m))"
  using assms
proof (induction m)
  case Nil
  then show ?case by (simp add: nest_def)
next
  case (Cons kv m)
  obtain k v where kv: "kv = (k, v)" by (cases kv)
  have "distinct (map fst (nest g m))"
    by (rule Cons.IH) (use Cons.prems in auto)
  moreover have "distinct (map (Pair k) (map fst (g v)))"
    using Cons.prems(2) [of k v] kv by (subst distinct_map) (simp add: inj_on_def)
  moreover have "set (map (Pair k) (map fst (g v))) \<inter> set (map fst (nest g m)) = {}"
    using Cons.prems(1) kv keys_nest [of _ g m] by fastforce
  ultimately show ?case unfolding kv map_fst_nest_Cons distinct_append by blast
qed

definition scope_keyed :: "scope_map \<Rightarrow> ((string \<times> bool) \<times> cookie_entry) list" where
  "scope_keyed sm =
     map (\<lambda>(n, e). ((n, True), e)) (sm_host_only sm) @ map (\<lambda>(n, e). ((n, False), e)) (sm_domain sm)"

lemma map_fst_scope_keyed:
  "map fst (scope_keyed sm) =
     map (\<lambda>n. (n, True)) (map fst (sm_host_only sm)) @ map (\<lambda>n. (n, False)) (map fst (sm_domain sm))"
  by (simp add: scope_keyed_def split_beta)

lemma distinct_scope_keyed: "scope_wf sm \<Longrightarrow> distinct (map fst (scope_keyed sm))"
  unfolding map_fst_scope_keyed distinct_append
  by (subst (1 2) distinct_map) (auto simp: scope_wf_def hm_wf_def inj_on_def)

lemma map_snd_scope_keyed: "map snd (scope_keyed sm) = scope_values sm"
  by (simp add: scope_keyed_def scope_values_def split_beta)

lemma all_entries_nest:
  "all_entries st = map (\<lambda>((d, p, k), e). (d, p, e)) (nest (nest scope_keyed) (st_cookies st))"
  by (simp add: all_entries_def nest_def map_concat comp_def case_prod_unfold
      map_snd_scope_keyed [symmetric])

lemma mem_scope_keyed:
  "scope_wf sm \<Longrightarrow> ((n, ho), e) \<in> set (scope_keyed sm) \<longleftrightarrow> scope_get sm n ho = Some e"
  unfolding scope_keyed_def scope_get_def scope_wf_def
  by (cases ho) (auto simp: hm_mem_iff [symmetric])

lemma mem_keyed:
  assumes "store_wf st"
  shows "((d, p, n, ho), e) \<in> set (nest (nest scope_keyed) (st_cookies st)) \<longleftrightarrow>
    store_get st d p n ho = Some e"
proof -
  have w: "hm_wf (st_cookies st)" "\<And>pm. hm_get (st_cookies st) d = Some pm \<Longrightarrow> hm_wf pm"
    "\<And>pm sm. hm_get (st_cookies st) d = Some pm \<Longrightarrow> hm_get pm p = Some sm \<Longrightarrow> scope_wf sm"
    using assms by (auto simp: store_wf_def paths_wf_def)
  show ?thesis
    unfolding mem_nest hm_mem_iff [OF w(1)] store_get_def bind_eq_Some_conv
    using hm_mem_iff [OF w(2)] mem_scope_keyed [OF w(3)] by blast
qed

lemma distinct_keyed:
  assumes "store_wf st"
  shows "distinct (map fst (nest (nest scope_keyed) (st_cookies st)))"
proof -
  from assms have "distinct (map fst (st_cookies st))" by (simp add: store_wf_def hm_wf_def)
  moreover have "distinct (map fst (nest scope_keyed pm))" if "(d, pm) \<in> set (st_cookies st)" for d pm
  proof -
    from that assms have pm: "paths_wf pm" by (auto simp: store_wf_def hm_mem_iff)
    then have "distinct (map fst pm)" by (simp add: paths_wf_def hm_wf_def)
    moreover have "distinct (map fst (scope_keyed sm))" if "(p, sm) \<in> set pm" for p sm
      using that pm by (intro distinct_scope_keyed) (auto simp: paths_wf_def hm_mem_iff)
    ultimately show ?thesis by (rule distinct_nest)
  qed
  ultimately show ?thesis by (rule distinct_nest)
qed

lemma distinct_indices:
  assumes "jar_inv st" "st_next st < u64_max"
  shows "distinct (map (\<lambda>(d, p, e). ce_index e) (all_entries st))"
proof -
  let ?K = "nest (nest scope_keyed) (st_cookies st)"
  from assms have wf: "store_wf st" and fi: "flat_indexed (view st)" and n: "fl_next (view st) < u64_max"
    by (simp_all add: jar_inv_def view_def)
  have g: "fl_map (view st) k = Some e" if "(k, e) \<in> set ?K" for k e
    using that mem_keyed [OF wf] by (cases k) simp
  have "distinct ?K" using distinct_keyed [OF wf] by (simp add: distinct_map)
  moreover have "inj_on (\<lambda>x. ce_index (snd x)) (set ?K)"
  proof (rule inj_onI)
    fix x y assume x: "x \<in> set ?K" "y \<in> set ?K" and i: "ce_index (snd x) = ce_index (snd y)"
    then have xy: "fl_map (view st) (fst x) = Some (snd x)" "fl_map (view st) (fst y) = Some (snd y)"
      using g by simp_all
    with fi n i have "fst x = fst y" unfolding flat_indexed_def by blast
    with xy show "x = y" by (simp add: prod_eq_iff)
  qed
  ultimately have "distinct (map (\<lambda>x. ce_index (snd x)) ?K)" by (simp add: distinct_map)
  then show ?thesis by (simp add: all_entries_nest comp_def split_beta)
qed

lemma join_pairs_acc:
  "acc \<noteq> [] \<Longrightarrow> join_pairs acc cs = acc @ concat (map (\<lambda>c. ''; '' @ cookie_pair c) cs)"
  by (induction cs arbitrary: acc) (simp_all add: cookie_pair_def)

lemma join_pairs_join: "join_pairs [] cs = join ''; '' (map cookie_pair cs)"
proof (cases cs)
  case (Cons c cs')
  have "cookie_pair c \<noteq> []" by (simp add: cookie_pair_def)
  with Cons show ?thesis by (simp add: join_pairs_acc join_Cons comp_def)
qed simp

lemma view_rev:
  assumes "jar_inv st"
  shows "view st = view (st\<lparr>st_cookies := rev (st_cookies st)\<rparr>)"
proof -
  have "hm_get (rev (st_cookies st)) = hm_get (st_cookies st)"
    using assms by (intro map_of_rev_distinct) (simp add: jar_inv_def store_wf_def hm_wf_def)
  then show ?thesis by (simp add: view_def store_get_def)
qed

lemma jar_inv_rev:
  assumes "jar_inv st"
  shows "jar_inv (st\<lparr>st_cookies := rev (st_cookies st)\<rparr>)"
proof -
  have m: "hm_get (rev (st_cookies st)) = hm_get (st_cookies st)"
    using assms by (intro map_of_rev_distinct) (simp add: jar_inv_def store_wf_def hm_wf_def)
  then have "store_wf (st\<lparr>st_cookies := rev (st_cookies st)\<rparr>)"
    using assms by (simp add: jar_inv_def store_wf_def hm_wf_def rev_map [symmetric])
  with assms m show ?thesis
    using view_rev [OF assms, symmetric] by (simp add: jar_inv_def stored_ok_def store_get_def)
qed

definition before_in_header :: "host \<times> string \<times> cookie_entry \<Rightarrow> host \<times> string \<times> cookie_entry \<Rightarrow> bool" where
  "before_in_header x y \<longleftrightarrow>
     (case (x, y) of ((_, p, e), (_, q, f)) \<Rightarrow>
        length q < length p \<or> length p = length q \<and> ce_index e < ce_index f)"

lemma request_order_less: "before_in_header x y \<longleftrightarrow> request_order x < request_order y"
  by (auto simp: before_in_header_def request_order_def less_prod_def split: prod.splits)

lemma matching_inj:
  assumes "jar_inv st" "st_next st < u64_max"
  shows "distinct (matching_cookies st u h now)"
    "inj_on request_order (set (matching_cookies st u h now))"
proof -
  have "distinct (map (\<lambda>x. ce_index (snd (snd x))) (all_entries st))"
    using distinct_indices [OF assms] by (simp add: case_prod_unfold)
  then have d: "distinct (all_entries st)" "inj_on (\<lambda>x. ce_index (snd (snd x))) (set (all_entries st))"
    by (simp_all add: distinct_map)
  from d show "distinct (matching_cookies st u h now)" by (simp add: matching_cookies_def)
  show "inj_on request_order (set (matching_cookies st u h now))"
  proof (rule inj_onI)
    fix x y
    assume "x \<in> set (matching_cookies st u h now)" "y \<in> set (matching_cookies st u h now)"
      and "request_order x = request_order y"
    then have "x \<in> set (all_entries st)" "y \<in> set (all_entries st)"
      and "ce_index (snd (snd x)) = ce_index (snd (snd y))"
      by (auto simp: matching_cookies_def request_order_def split: prod.splits)
    with d(2) show "x = y" by (auto dest: inj_onD)
  qed
qed

lemma view_next [simp]: "fl_next (view st) = st_next st"
  by (simp add: view_def)

lemma sorted_key_strict:
  fixes f :: "'a \<Rightarrow> 'b :: linorder"
  assumes "distinct xs" "inj_on f (set xs)"
  shows "sorted_wrt (\<lambda>x y. f x < f y) (sort_key f xs)"
proof -
  have "sorted (map f (sort_key f xs))" "distinct (map f (sort_key f xs))"
    using assms by (simp_all add: distinct_map)
  then have "sorted_wrt (<) (map f (sort_key f xs))" by (simp add: strict_sorted_iff)
  then show ?thesis by (simp add: sorted_wrt_map)
qed

text \<open>C20: the cookies of a request are listed by decreasing path length and then by increasing
  creation index, strictly, so that the list is a function of the stored cookies alone: two
  well-formed stores with the same contents, laid out in any iteration order of their hash maps,
  produce the same \<^verbatim>\<open>Cookie\<close> header.\<close>

theorem cookie_order_canonical:
  assumes "jar_inv st" "jar_inv st'" "view st = view st'" "st_next st < u64_max"
  shows "sorted_wrt before_in_header (sort_key request_order (matching_cookies st u h now)) \<and>
         jar_cookies E st u v now = jar_cookies E st' u v now"
proof
  show "sorted_wrt before_in_header (sort_key request_order (matching_cookies st u h now))"
    unfolding request_order_less using matching_inj [OF assms(1,4)] by (rule sorted_key_strict)
  have n': "st_next st' < u64_max"
    using assms(3,4) view_next [of st] view_next [of st'] by simp
  have g: "store_get st = store_get st'"
    using assms(3) view_get [of st] view_get [of st'] by (intro ext) metis
  have wf: "store_wf st" "store_wf st'" using assms by (simp_all add: jar_inv_def)
  have "set (matching_cookies st u h now) = set (matching_cookies st' u h now)" for h
    by (simp add: set_eq_iff matching_cookies_iff wf g)
  then have "selected st u h now = selected st' u h now" for h
    unfolding selected_def
    using sort_key_canonical [OF matching_inj(1) [OF assms(1,4)] matching_inj(1) [OF assms(2) n']
        _ matching_inj(2) [OF assms(1,4)]] by metis
  then show "jar_cookies E st u v now = jar_cookies E st' u v now"
    by (simp add: jar_cookies_def split: option.split)
qed

theorem cookie_order_canonical_witness:
  "jar_cookies sample_env (jar_run sample_env sample_history)
     (sample_uri ''https'' ''www.example.com'' ''/x'') HTTP_11 3 = Compressed ''s=1; t=3''"
proof -
  let ?r = "(jar_run sample_env sample_history)
    \<lparr>st_cookies := rev (st_cookies (jar_run sample_env sample_history))\<rparr>"
  have n: "st_next (jar_run sample_env sample_history) < u64_max" by code_simp
  have "jar_cookies sample_env ?r
     (sample_uri ''https'' ''www.example.com'' ''/x'') HTTP_11 3 = Compressed ''s=1; t=3''"
    by code_simp
  with cookie_order_canonical [OF jar_inv_run jar_inv_rev [OF jar_inv_run] view_rev [OF jar_inv_run] n]
  show ?thesis by metis
qed

text \<open>the header text.  HTTP/2 and HTTP/3 requests get one \<^verbatim>\<open>name=value\<close> field per selected
  cookie, in order; every other version gets these fields joined by a semicolon and a space, and no
  header at all when nothing is selected or the text is not a legal header value.\<close>

theorem cookie_header_text:
  assumes "request_host E u = Some h"
  shows "jar_cookies E st u v now =
    (let fields = map cookie_pair (selected st u h now)
     in if v \<in> {HTTP_2, HTTP_3} then Uncompressed (filter (env_header_ok E) fields)
        else if fields \<noteq> [] \<and> env_header_ok E (join ''; '' fields)
        then Compressed (join ''; '' fields) else Empty)"
proof -
  let ?cs = "selected st u h now"
  have "join_pairs [] ?cs = join ''; '' (map cookie_pair ?cs)"
    by (rule join_pairs_join)
  moreover have "join ''; '' (map cookie_pair ?cs) = [] \<longleftrightarrow> ?cs = []"
    by (cases ?cs) (simp_all add: cookie_pair_def join_Cons)
  ultimately show ?thesis
    using assms by (simp add: jar_cookies_def Let_def)
qed

theorem cookie_header_text_witness:
  "jar_cookies sample_env (jar_run sample_env sample_history)
     (sample_uri ''https'' ''www.example.com'' ''/x'') HTTP_2 3 = Uncompressed [''s=1'', ''t=3'']"
proof -
  let ?u = "sample_uri ''https'' ''www.example.com'' ''/x''"
  have "request_host sample_env ?u = Some (Domain ''www.example.com'')"
    "map cookie_pair (selected (jar_run sample_env sample_history) ?u (Domain ''www.example.com'') 3)
       = [''s=1'', ''t=3'']"
    "filter (env_header_ok sample_env) [''s=1'', ''t=3''] = [''s=1'', ''t=3'']"
    by code_simp+
  with cookie_header_text [of sample_env ?u] show ?thesis by simp
qed

end
