(* ===== verification/Redirect_Policy.thy ===== *)
theory Redirect_Policy
  imports Request_Model
begin

text \<open>
  The redirect policies of \<^verbatim>\<open>src/src/redirect.rs\<close> and \<^verbatim>\<open>src/src/client/layer/redirect/policy.rs\<close>:
  the user's policy, the scheme and HTTPS checks, the history, the removal of sensitive headers and
  the computation of the \<^verbatim>\<open>Referer\<close> header.

  An asynchronous decision (\<^verbatim>\<open>Action::Pending\<close>) holds a future.  It is modelled by the number of
  polls it stays pending and the action it resolves to.  \<^verbatim>\<open>url::Url\<close> is a type parameter with the
  operations the code calls on it, collected in \<open>url_lib\<close>.
\<close>

section \<open>Policies and actions\<close>

datatype action = Follow | Stop | Pending nat action | Error error

record attempt =
  at_status :: nat
  at_headers :: header_map
  at_uri :: uri
  at_previous :: "uri list"

datatype policy = Custom "attempt \<Rightarrow> action" | Limit nat | NoRedirect

definition policy_redirect :: "policy \<Rightarrow> attempt \<Rightarrow> action" where
  "policy_redirect p a =
     (case p of
        Custom f \<Rightarrow> f a
      | Limit m \<Rightarrow> if m < length (at_previous a) then Error TooManyRedirects else Follow
      | NoRedirect \<Rightarrow> Stop)"

definition policy_check :: "policy \<Rightarrow> nat \<Rightarrow> header_map \<Rightarrow> uri \<Rightarrow> uri list \<Rightarrow> action" where
  "policy_check p status headers next previous =
     policy_redirect p
       \<lparr>at_status = status, at_headers = headers, at_uri = next, at_previous = previous\<rparr>"

definition policy_default :: policy where
  "policy_default = Limit 10"

definition is_none_policy :: "policy \<Rightarrow> bool" where
  "is_none_policy p \<longleftrightarrow> (case p of NoRedirect \<Rightarrow> True | _ \<Rightarrow> False)"

section \<open>The referrer\<close>

datatype referrer_policy =
    NonePolicy
  | NoReferrer
  | NoReferrerWhenDowngrade
  | SameOrigin
  | Origin
  | StrictOrigin
  | OriginWhenCrossOrigin
  | StrictOriginWhenCrossOrigin
  | UnsafeUrl

record 'u url_lib =
  ul_parse :: "string \<Rightarrow> 'u option"
  ul_as_str :: "'u \<Rightarrow> string"
  ul_scheme :: "'u \<Rightarrow> string option"
  ul_host :: "'u \<Rightarrow> string option"
  ul_port :: "'u \<Rightarrow> 16 word option"
  ul_no_username :: "'u \<Rightarrow> 'u option"
  ul_no_password :: "'u \<Rightarrow> 'u option"
  ul_no_fragment :: "'u \<Rightarrow> 'u"
  ul_no_path :: "'u \<Rightarrow> 'u"
  ul_no_query :: "'u \<Rightarrow> 'u"
  ul_to_str :: "header_value \<Rightarrow> string option"
  ul_header_ok :: "string \<Rightarrow> bool"

record 'u referrer =
  rf_source :: "'u option"
  rf_policy :: referrer_policy

definition strip_to_origin_url :: "'u url_lib \<Rightarrow> 'u \<Rightarrow> 'u" where
  "strip_to_origin_url L u = ul_no_fragment L (ul_no_query L (ul_no_path L u))"

definition parse_referrer :: "'u url_lib \<Rightarrow> header_value \<Rightarrow> 'u option" where
  "parse_referrer L v =
     Option.bind (ul_to_str L v) (\<lambda>s.
     Option.bind (ul_parse L s) (\<lambda>u.
     Option.bind (ul_scheme L u) (\<lambda>sch.
     if sch \<noteq> ''http'' \<and> sch \<noteq> ''https'' then None
     else Option.bind (ul_no_username L u) (\<lambda>u1.
          Option.bind (ul_no_password L u1) (\<lambda>u2.
          let u3 = ul_no_fragment L u2
          in Some (if 4096 < length (ul_as_str L u3) then strip_to_origin_url L u3 else u3))))))"

definition referrer_new :: "'u url_lib \<Rightarrow> header_map \<Rightarrow> 'u referrer" where
  "referrer_new L h =
     \<lparr>rf_source = Option.bind (hdr_get h ''referer'') (parse_referrer L),
      rf_policy = StrictOriginWhenCrossOrigin\<rparr>"

definition policy_tokens :: "(string \<times> referrer_policy) list" where
  "policy_tokens =
     [(''no-referrer'', NoReferrer),
      (''no-referrer-when-downgrade'', NoReferrerWhenDowngrade),
      (''same-origin'', SameOrigin),
      (''origin'', Origin),
      (''strict-origin'', StrictOrigin),
      (''origin-when-cross-origin'', OriginWhenCrossOrigin),
      (''strict-origin-when-cross-origin'', StrictOriginWhenCrossOrigin),
      (''unsafe-url'', UnsafeUrl)]"

definition policy_from_token :: "string \<Rightarrow> referrer_policy" where
  "policy_from_token t =
     (case List.find (\<lambda>(name, _). eq_ignore_ascii_case t name) policy_tokens of
        Some (_, p) \<Rightarrow> p
      | None \<Rightarrow> NonePolicy)"

definition keep_recognised :: "referrer_policy \<Rightarrow> string \<Rightarrow> referrer_policy" where
  "keep_recognised p token =
     (let q = policy_from_token (trim token) in if q \<noteq> NonePolicy then q else p)"

definition policy_from_headers :: "'u url_lib \<Rightarrow> header_map \<Rightarrow> referrer_policy" where
  "policy_from_headers L h =
     fold (\<lambda>v p. case ul_to_str L v of
                   None \<Rightarrow> p
                 | Some s \<Rightarrow> fold (\<lambda>t q. keep_recognised q t) (split_on CHR '','' s) p)
       (hdr_get_all h ''referrer-policy'') NonePolicy"

definition referrer_on_redirect :: "'u url_lib \<Rightarrow> header_map \<Rightarrow> 'u referrer \<Rightarrow> 'u referrer" where
  "referrer_on_redirect L h r =
     (case policy_from_headers L h of
        NonePolicy \<Rightarrow> r
      | p \<Rightarrow> r\<lparr>rf_policy := p\<rparr>)"

definition referrer_same_origin :: "'u url_lib \<Rightarrow> 'u \<Rightarrow> string \<Rightarrow> uri \<Rightarrow> bool" where
  "referrer_same_origin L source source_scheme dest \<longleftrightarrow>
     (case (ul_host L source, uri_host dest) of
        (Some a, Some b) \<Rightarrow> eq_ignore_ascii_case a b
      | (None, None) \<Rightarrow> True
      | _ \<Rightarrow> False) \<and>
     uri_scheme dest = Some source_scheme \<and>
     ul_port L source = Some (port_or_default dest)"

text \<open>The match on the policy: \<open>None\<close> removes the header, otherwise whether to strip to the origin.\<close>

definition referrer_decision :: "referrer_policy \<Rightarrow> bool \<Rightarrow> bool \<Rightarrow> bool option" where
  "referrer_decision p same downgrade =
     (case p of
        NoReferrer \<Rightarrow> None
      | NoReferrerWhenDowngrade \<Rightarrow> if downgrade then None else Some False
      | SameOrigin \<Rightarrow> if \<not> same then None else Some False
      | StrictOrigin \<Rightarrow> if downgrade then None else Some True
      | StrictOriginWhenCrossOrigin \<Rightarrow> if \<not> same \<and> downgrade then None else Some (\<not> same)
      | NonePolicy \<Rightarrow> if \<not> same \<and> downgrade then None else Some (\<not> same)
      | Origin \<Rightarrow> Some True
      | OriginWhenCrossOrigin \<Rightarrow> Some (\<not> same)
      | UnsafeUrl \<Rightarrow> Some False)"

definition referrer_apply ::
  "'u url_lib \<Rightarrow> 'u referrer \<Rightarrow> uri \<Rightarrow> header_map \<Rightarrow> 'u referrer \<times> header_map"
where
  "referrer_apply L r dest h =
     (let gone = (r\<lparr>rf_source := None\<rparr>, hdr_remove ''referer'' h)
      in case rf_source r of
           None \<Rightarrow> gone
         | Some source \<Rightarrow>
             (let sensitive = (case hdr_get h ''referer'' of Some v \<Rightarrow> hv_sensitive v | None \<Rightarrow> False)
              in case ul_scheme L source of
                   None \<Rightarrow> gone
                 | Some sch \<Rightarrow>
                     (let same = referrer_same_origin L source sch dest;
                          downgrade = (sch = ''https'' \<and> uri_scheme dest = Some ''http'')
                      in case referrer_decision (rf_policy r) same downgrade of
                           None \<Rightarrow> gone
                         | Some strip \<Rightarrow>
                             (let s = (if strip then strip_to_origin_url L source else source)
                              in if ul_header_ok L (ul_as_str L s)
                                 then (r\<lparr>rf_source := Some s\<rparr>,
                                       hdr_insert ''referer''
                                         \<lparr>hv_bytes = ul_as_str L s, hv_sensitive = sensitive\<rparr> h)
                                 else gone))))"

section \<open>\<open>FollowRedirectPolicy\<close>\<close>

record 'u follow_policy =
  fp_policy :: "policy request_config"
  fp_referrer :: "'u referrer option"
  fp_uris :: "uri list"
  fp_https_only :: bool
  fp_history :: "history_entry list option"

definition follow_new :: "policy \<Rightarrow> 'u follow_policy" where
  "follow_new p =
     \<lparr>fp_policy = Some p, fp_referrer = None, fp_uris = [], fp_https_only = False,
      fp_history = None\<rparr>"

definition with_referer :: "bool \<Rightarrow> 'u follow_policy \<Rightarrow> 'u follow_policy" where
  "with_referer b fp =
     fp\<lparr>fp_referrer :=
         (if b then Some \<lparr>rf_source = None, rf_policy = StrictOriginWhenCrossOrigin\<rparr> else None)\<rparr>"

definition with_https_only :: "bool \<Rightarrow> 'u follow_policy \<Rightarrow> 'u follow_policy" where
  "with_https_only b fp = fp\<lparr>fp_https_only := b\<rparr>"

text \<open>\<^verbatim>\<open>redirect\<close> returns the new state with the action or the error.  The \<^verbatim>\<open>expect\<close> on a missing
  policy is the error branch \<open>Other\<close>.\<close>

definition follow_redirect ::
  "'u url_lib \<Rightarrow> 'u follow_policy \<Rightarrow> nat \<Rightarrow> header_map \<Rightarrow> uri \<Rightarrow> uri \<Rightarrow>
   'u follow_policy \<times> (error, action) result"
where
  "follow_redirect L fp status headers location previous =
     (let fp1 = fp\<lparr>fp_uris := fp_uris fp @ [previous],
                   fp_referrer := map_option (referrer_on_redirect L headers) (fp_referrer fp)\<rparr>
      in case fp_policy fp1 of
           None \<Rightarrow> (fp1, Inl (Other ''panic'' None))
         | Some p \<Rightarrow>
             (case policy_check p status headers location (fp_uris fp1) of
                Error e \<Rightarrow> (fp1, Inl (err_redirect e previous))
              | Follow \<Rightarrow>
                  if \<not> (is_http location \<or> is_https location) then (fp1, Inl (uri_bad_scheme location))
                  else if fp_https_only fp1 \<and> \<not> is_https location then
                    (fp1, Inl (err_redirect (uri_bad_scheme location) location))
                  else
                    (if \<not> is_none_policy p then
                       fp1\<lparr>fp_history :=
                         Some ((case fp_history fp1 of None \<Rightarrow> [] | Some h \<Rightarrow> h) @
                           [\<lparr>he_status = status, he_uri = location, he_previous = previous,
                             he_headers = headers\<rparr>])\<rparr>
                     else fp1, Inr Follow)
              | a \<Rightarrow> (fp1, Inr a)))"

definition follow_for_request ::
  "'u url_lib \<Rightarrow> 'u follow_policy \<Rightarrow> (policy, 'o) request \<Rightarrow>
   'u follow_policy \<times> (policy, 'o) request \<times> 'u follow_policy option"
where
  "follow_for_request L fp req =
     (let (p, slot) = rc_load (fp_policy fp) (ext_redirect (rq_ext req));
          fp' = fp\<lparr>fp_policy := p\<rparr>;
          req' = req\<lparr>rq_ext := (rq_ext req)\<lparr>ext_redirect := slot\<rparr>\<rparr>
      in (fp', req',
          if (case p of Some q \<Rightarrow> \<not> is_none_policy q | None \<Rightarrow> False)
          then Some (fp'\<lparr>fp_referrer :=
                 map_option (\<lambda>_. referrer_new L (rq_headers req)) (fp_referrer fp')\<rparr>)
          else None))"

definition same_origin :: "uri \<Rightarrow> uri \<Rightarrow> bool" where
  "same_origin a b \<longleftrightarrow>
     (case (uri_host a, uri_host b) of
        (Some x, Some y) \<Rightarrow> eq_ignore_ascii_case x y
      | (None, None) \<Rightarrow> True
      | _ \<Rightarrow> False) \<and>
     uri_scheme a = uri_scheme b \<and>
     port_or_default a = port_or_default b"

definition sensitive_names :: "string list" where
  "sensitive_names =
     [''authorization'', ''cookie'', ''cookie2'', ''proxy-authorization'', ''www-authenticate'']"

definition remove_sensitive_headers :: "uri \<Rightarrow> uri list \<Rightarrow> header_map \<Rightarrow> header_map" where
  "remove_sensitive_headers u previous h =
     (if previous \<noteq> [] \<and> \<not> same_origin u (last previous)
      then fold hdr_remove sensitive_names h else h)"

definition follow_on_request ::
  "'u url_lib \<Rightarrow> 'u follow_policy \<Rightarrow> (policy, 'o) request \<Rightarrow> 'u follow_policy \<times> (policy, 'o) request"
where
  "follow_on_request L fp req =
     (let h = remove_sensitive_headers (rq_uri req) (fp_uris fp) (rq_headers req)
      in case fp_referrer fp of
           Some r \<Rightarrow>
             if fp_uris fp \<noteq> [] then
               (let (r', h') = referrer_apply L r (rq_uri req) h
                in (fp\<lparr>fp_referrer := Some r'\<rparr>, req\<lparr>rq_headers := h'\<rparr>))
             else (fp, req\<lparr>rq_headers := h\<rparr>)
         | None \<Rightarrow> (fp, req\<lparr>rq_headers := h\<rparr>))"

definition follow_on_response :: "'u follow_policy \<Rightarrow> response \<Rightarrow> 'u follow_policy \<times> response" where
  "follow_on_response fp res =
     (case fp_history fp of
        Some h \<Rightarrow> (fp\<lparr>fp_history := None\<rparr>, res\<lparr>rs_history := Some h\<rparr>)
      | None \<Rightarrow> (fp, res))"

end
