(* ===== verification/Redirect_Layer.thy ===== *)
theory Redirect_Layer
  imports Redirect_Policy Into_Uri
begin

text \<open>
  The redirect middleware of \<^verbatim>\<open>src/src/client/layer/redirect.rs\<close> and
  \<^verbatim>\<open>src/src/client/layer/redirect/future.rs\<close>: the request and its reusable body, the rewriting of
  method and body by status, the decision of the policy and the next request.

  The response future is a state machine.  One step is one \<^verbatim>\<open>poll\<close>; its input is what the inner
  future returns if it is polled.  A run is a sequence of such steps, and its trace is the list of
  requests handed to the inner service.
\<close>

section \<open>Reusable bodies\<close>

datatype body_repr = BSome body | BEmpty | BNone

fun repr_take :: "body_repr \<Rightarrow> body_repr \<times> body option" where
  "repr_take (BSome b) = (BNone, Some b)"
| "repr_take BEmpty = (BEmpty, Some body_empty)"
| "repr_take BNone = (BNone, None)"

fun repr_try_clone_from :: "body_repr \<Rightarrow> body \<Rightarrow> body_repr" where
  "repr_try_clone_from (BSome x) b = BSome x"
| "repr_try_clone_from BEmpty b = BEmpty"
| "repr_try_clone_from BNone b =
     (if body_exact b = Some 0 then BSome body_empty
      else (case body_try_clone b of Some c \<Rightarrow> BSome c | None \<Rightarrow> BNone))"

section \<open>The response future\<close>

record 'u redirect_lib =
  rl_url :: "'u url_lib"
  rl_join :: "'u \<Rightarrow> string \<Rightarrow> 'u option"
  rl_uri_string :: "uri \<Rightarrow> string"
  rl_parse :: parse_lib

record pending =
  pd_polls :: nat
  pd_action :: action
  pd_location :: uri
  pd_body :: body
  pd_res :: response

record ('u, 'o) redirect_state =
  rd_policy :: "'u follow_policy"
  rd_request :: "(policy, 'o) request"
  rd_repr :: body_repr
  rd_pending :: "pending option"

datatype 'o redirect_out =
    Resolved "(error, response) result"
  | Waiting
  | Send "(policy, 'o) request" body
  | Panic

definition resolve_uri :: "'u redirect_lib \<Rightarrow> string \<Rightarrow> uri \<Rightarrow> uri option" where
  "resolve_uri R relative base =
     Option.bind (ul_parse (rl_url R) (rl_uri_string R base)) (\<lambda>u.
     Option.bind (rl_join R u relative) (\<lambda>j.
     case into_uri_bytes (rl_parse R) (ul_as_str (rl_url R) j) of
       Inr v \<Rightarrow> Some v
     | Inl _ \<Rightarrow> None))"

definition payload_headers :: "string list" where
  "payload_headers = [''content-type'', ''content-length'', ''content-encoding'', ''transfer-encoding'']"

definition drop_payload_headers :: "header_map \<Rightarrow> header_map" where
  "drop_payload_headers h = fold hdr_remove payload_headers h"

definition handle_action ::
  "'u redirect_lib \<Rightarrow> ('u, 'o) redirect_state \<Rightarrow> action \<Rightarrow> uri \<Rightarrow> body \<Rightarrow> response \<Rightarrow>
   ('u, 'o) redirect_state \<times> 'o redirect_out"
where
  "handle_action R st a location body res =
     (case a of
        Follow \<Rightarrow>
          (let req1 = (rd_request st)\<lparr>rq_uri := location\<rparr>;
               repr1 = repr_try_clone_from (rd_repr st) body;
               (fp, req2) = follow_on_request (rl_url R) (rd_policy st) req1
           in (st\<lparr>rd_policy := fp, rd_request := req2, rd_repr := repr1\<rparr>, Send req2 body))
      | Stop \<Rightarrow> (st, Resolved (Inr res))
      | Error e \<Rightarrow> (st, Resolved (Inl e))
      | Pending _ _ \<Rightarrow> (st, Panic))"

text \<open>The rewriting by status; \<open>None\<close> when the status is no redirect.\<close>

definition rewrite_request ::
  "nat \<Rightarrow> (policy, 'o) request \<Rightarrow> body_repr \<Rightarrow> ((policy, 'o) request \<times> body_repr) option"
where
  "rewrite_request status req repr =
     (if status = 301 \<or> status = 302 then
        (if rq_method req = ''POST'' then
           Some (req\<lparr>rq_method := ''GET'', rq_headers := drop_payload_headers (rq_headers req)\<rparr>, BEmpty)
         else Some (req, repr))
      else if status = 303 then
        Some ((if rq_method req \<noteq> ''HEAD'' then req\<lparr>rq_method := ''GET''\<rparr> else req)
                \<lparr>rq_headers := drop_payload_headers (rq_headers req)\<rparr>, BEmpty)
      else if status = 307 \<or> status = 308 then Some (req, repr)
      else None)"

definition response_location :: "'u redirect_lib \<Rightarrow> response \<Rightarrow> uri \<Rightarrow> uri option" where
  "response_location R res base =
     Option.bind (hdr_get (rs_headers res) ''location'') (\<lambda>v.
     if utf8_valid (hv_bytes v) then resolve_uri R (hv_bytes v) base else None)"

definition redirect_response ::
  "'u redirect_lib \<Rightarrow> ('u, 'o) redirect_state \<Rightarrow> response \<Rightarrow>
   ('u, 'o) redirect_state \<times> 'o redirect_out"
where
  "redirect_response R st res0 =
     (let res = res0\<lparr>rs_uri := Some (rq_uri (rd_request st))\<rparr>
      in case rewrite_request (rs_status res) (rd_request st) (rd_repr st) of
           None \<Rightarrow>
             (let (fp, res') = follow_on_response (rd_policy st) res
              in (st\<lparr>rd_policy := fp\<rparr>, Resolved (Inr res')))
         | Some (req1, repr1) \<Rightarrow>
             (case repr_take repr1 of
                (repr2, None) \<Rightarrow> (st\<lparr>rd_request := req1, rd_repr := repr2\<rparr>, Resolved (Inr res))
              | (repr2, Some body) \<Rightarrow>
                  (let st1 = st\<lparr>rd_request := req1, rd_repr := repr2\<rparr>
                   in case response_location R res (rq_uri req1) of
                        None \<Rightarrow> (st1, Resolved (Inr res))
                      | Some location \<Rightarrow>
                          (let (fp, r) = follow_redirect (rl_url R) (rd_policy st1) (rs_status res)
                                 (rs_headers res) location (rq_uri req1);
                               st2 = st1\<lparr>rd_policy := fp\<rparr>
                           in case r of
                                Inl e \<Rightarrow> (st2, Resolved (Inl e))
                              | Inr (Pending n a) \<Rightarrow>
                                  (st2\<lparr>rd_pending := Some \<lparr>pd_polls = n, pd_action = a,
                                      pd_location = location, pd_body = body, pd_res = res\<rparr>\<rparr>, Waiting)
                              | Inr a \<Rightarrow> handle_action R st2 a location body res))))"

definition redirect_poll ::
  "'u redirect_lib \<Rightarrow> ('u, 'o) redirect_state \<Rightarrow> (error, response) result poll \<Rightarrow>
   ('u, 'o) redirect_state \<times> 'o redirect_out"
where
  "redirect_poll R st inner =
     (case rd_pending st of
        Some pd \<Rightarrow>
          (case pd_polls pd of
             Suc n \<Rightarrow> (st\<lparr>rd_pending := Some (pd\<lparr>pd_polls := n\<rparr>)\<rparr>, Waiting)
           | 0 \<Rightarrow> handle_action R (st\<lparr>rd_pending := None\<rparr>) (pd_action pd) (pd_location pd)
                    (pd_body pd) (pd_res pd))
      | None \<Rightarrow>
          (case inner of
             NotReady \<Rightarrow> (st, Waiting)
           | Ready (Inl e) \<Rightarrow> (st, Resolved (Inl e))
           | Ready (Inr res) \<Rightarrow> redirect_response R st res))"

section \<open>The service\<close>

datatype ('u, 'o) redirect_future =
    Direct "(policy, 'o) request" body
  | Redirect "('u, 'o) redirect_state" "(policy, 'o) request" body

definition redirect_call ::
  "'u redirect_lib \<Rightarrow> 'u follow_policy \<Rightarrow> (policy, 'o) request \<Rightarrow> body \<Rightarrow>
   'u follow_policy \<times> ('u, 'o) redirect_future"
where
  "redirect_call R fp req body =
     (case follow_for_request (rl_url R) fp req of
        (fp', req', None) \<Rightarrow> (fp', Direct req' body)
      | (fp', req', Some policy) \<Rightarrow>
          (let repr = repr_try_clone_from BNone body;
               (policy', req'') = follow_on_request (rl_url R) policy req'
           in (fp', Redirect \<lparr>rd_policy = policy', rd_request = req'', rd_repr = repr,
                     rd_pending = None\<rparr> req'' body)))"

fun redirect_run ::
  "'u redirect_lib \<Rightarrow> ('u, 'o) redirect_state \<Rightarrow> (error, response) result poll list \<Rightarrow>
   ((policy, 'o) request \<times> body) list \<times> 'o redirect_out"
where
  "redirect_run R st [] = ([], Waiting)"
| "redirect_run R st (ev # evs) =
     (case redirect_poll R st ev of
        (st', Waiting) \<Rightarrow> redirect_run R st' evs
      | (st', Send r b) \<Rightarrow> (case redirect_run R st' evs of (sent, out) \<Rightarrow> ((r, b) # sent, out))
      | (st', out) \<Rightarrow> ([], out))"

fun direct_run :: "(error, response) result poll list \<Rightarrow> 'o redirect_out" where
  "direct_run [] = Waiting"
| "direct_run (NotReady # evs) = direct_run evs"
| "direct_run (Ready r # evs) = Resolved r"

definition redirect_exec ::
  "'u redirect_lib \<Rightarrow> 'u follow_policy \<Rightarrow> (policy, 'o) request \<Rightarrow> body \<Rightarrow>
   (error, response) result poll list \<Rightarrow> ((policy, 'o) request \<times> body) list \<times> 'o redirect_out"
where
  "redirect_exec R fp req body evs =
     (case snd (redirect_call R fp req body) of
        Direct r b \<Rightarrow> ([(r, b)], direct_run evs)
      | Redirect st r b \<Rightarrow> (case redirect_run R st evs of (sent, out) \<Rightarrow> ((r, b) # sent, out)))"

section \<open>Lemmas on the steps\<close>

lemma hdr_get_all_fold_remove:
  "hdr_get_all (fold hdr_remove ns h) n = (if n \<in> set ns then [] else hdr_get_all h n)"
  by (induction ns arbitrary: h) (auto simp: hash_simps)

lemma get_remove_sensitive:
  "hdr_get_all (remove_sensitive_headers u prev h) n =
     (if n \<in> set sensitive_names \<and> prev \<noteq> [] \<and> \<not> same_origin u (last prev) then []
      else hdr_get_all h n)"
  by (auto simp: remove_sensitive_headers_def hdr_get_all_fold_remove)

lemma referrer_apply_other:
  "n \<noteq> ''referer'' \<Longrightarrow> hdr_get_all (snd (referrer_apply L r d h)) n = hdr_get_all h n"
  by (simp add: referrer_apply_def Let_def hash_simps split: option.split)

lemma on_request_props:
  assumes "follow_on_request L fp req = (fp', req')"
  shows "fp_uris fp' = fp_uris fp" "fp_policy fp' = fp_policy fp"
    "fp_https_only fp' = fp_https_only fp" "fp_history fp' = fp_history fp"
    "rq_uri req' = rq_uri req" "rq_method req' = rq_method req"
    "n \<noteq> ''referer'' \<Longrightarrow> hdr_get_all (rq_headers req') n =
       hdr_get_all (remove_sensitive_headers (rq_uri req) (fp_uris fp) (rq_headers req)) n"
proof -
  let ?h = "remove_sensitive_headers (rq_uri req) (fp_uris fp) (rq_headers req)"
  have r: "n \<noteq> ''referer'' \<Longrightarrow> referrer_apply L r d ?h = (r', h') \<Longrightarrow>
      hdr_get_all h' n = hdr_get_all ?h n" for r d r' h'
    using referrer_apply_other [of n L r d ?h] by simp
  show "fp_uris fp' = fp_uris fp" "fp_policy fp' = fp_policy fp"
    "fp_https_only fp' = fp_https_only fp" "fp_history fp' = fp_history fp"
    "rq_uri req' = rq_uri req" "rq_method req' = rq_method req"
    "n \<noteq> ''referer'' \<Longrightarrow> hdr_get_all (rq_headers req') n = hdr_get_all ?h n"
    using assms by (auto simp: follow_on_request_def Let_def dest: r
        split: option.split_asm if_split_asm prod.split_asm)
qed

lemma follow_redirect_state:
  assumes "follow_redirect L fp status headers location previous = (fp', r)"
  shows "fp_uris fp' = fp_uris fp @ [previous]" "fp_policy fp' = fp_policy fp"
    "fp_https_only fp' = fp_https_only fp"
  using assms
  by (auto simp: follow_redirect_def Let_def split: option.split_asm action.split_asm if_split_asm)

lemma follow_redirect_follow:
  assumes "follow_redirect L fp status headers location previous = (fp', Inr Follow)"
  shows "\<exists>p. fp_policy fp = Some p \<and>
      policy_check p status headers location (fp_uris fp @ [previous]) = Follow"
    "is_http location \<or> is_https location" "fp_https_only fp \<Longrightarrow> is_https location"
  using assms
  by (auto simp: follow_redirect_def Let_def split: option.split_asm action.split_asm if_split_asm)

lemma handle_action_send:
  "handle_action R st a location body res = (st', Send r b) \<longleftrightarrow>
     a = Follow \<and> b = body \<and>
     follow_on_request (rl_url R) (rd_policy st) ((rd_request st)\<lparr>rq_uri := location\<rparr>) =
       (rd_policy st', r) \<and>
     st' = st\<lparr>rd_policy := rd_policy st', rd_request := r,
              rd_repr := repr_try_clone_from (rd_repr st) body\<rparr>"
  by (auto simp: handle_action_def Let_def split: action.split prod.split)

lemma rewrite_request_props:
  assumes "rewrite_request status req repr = Some (req', repr')"
  shows "rq_uri req' = rq_uri req"
    "n \<notin> set payload_headers \<Longrightarrow> hdr_get_all (rq_headers req') n = hdr_get_all (rq_headers req) n"
  using assms
  by (auto simp: rewrite_request_def drop_payload_headers_def hdr_get_all_fold_remove
      split: if_split_asm)

text \<open>The request that a step sends, from the state before the step.\<close>

lemma redirect_response_send:
  assumes "redirect_response R st res = (st', Send r b)"
  shows "\<exists>req1 repr1 repr2 location fp.
      rewrite_request (rs_status res) (rd_request st) (rd_repr st) = Some (req1, repr1) \<and>
      repr_take repr1 = (repr2, Some b) \<and>
      response_location R (res\<lparr>rs_uri := Some (rq_uri (rd_request st))\<rparr>) (rq_uri req1) = Some location \<and>
      follow_redirect (rl_url R) (rd_policy st) (rs_status res) (rs_headers res) location (rq_uri req1)
        = (fp, Inr Follow) \<and>
      follow_on_request (rl_url R) fp (req1\<lparr>rq_uri := location\<rparr>) = (rd_policy st', r) \<and>
      st' = st\<lparr>rd_policy := rd_policy st', rd_request := r, rd_repr := repr_try_clone_from repr2 b\<rparr>"
  using assms
  by (auto simp: redirect_response_def Let_def handle_action_send
      split: option.split_asm prod.split_asm sum.split_asm action.split_asm)

definition rd_inv :: "('u, 'o) redirect_state \<Rightarrow> bool" where
  "rd_inv st \<longleftrightarrow>
     (rd_pending st \<noteq> None \<longrightarrow>
        fp_uris (rd_policy st) \<noteq> [] \<and> last (fp_uris (rd_policy st)) = rq_uri (rd_request st))"

text \<open>The URIs requested before the current one.\<close>

definition rd_prevs :: "('u, 'o) redirect_state \<Rightarrow> uri list" where
  "rd_prevs st =
     (if rd_pending st = None then fp_uris (rd_policy st) else butlast (fp_uris (rd_policy st)))"

definition req_values :: "('p, 'o) request \<Rightarrow> string \<Rightarrow> header_value list" where
  "req_values r n = hdr_get_all (rq_headers r) n"

lemma sensitive_not_payload:
  "n \<in> set sensitive_names \<Longrightarrow> n \<notin> set payload_headers \<and> n \<noteq> ''referer''"
  by (auto simp: sensitive_names_def payload_headers_def)

lemma on_request_values:
  assumes "follow_on_request L fp req = (fp', r)" "n \<in> set sensitive_names"
    "fp_uris fp \<noteq> []"
  shows "req_values r n = (if same_origin (rq_uri r) (last (fp_uris fp)) then req_values req n else [])"
  using on_request_props(5,7) [OF assms(1)] assms(2,3) sensitive_not_payload [OF assms(2)]
  by (simp add: req_values_def get_remove_sensitive)

lemma redirect_poll_send:
  assumes poll: "redirect_poll R st ev = (st', Send r b)" and inv: "rd_inv st"
  shows "rd_request st' = r" "rd_pending st' = None"
    "fp_uris (rd_policy st') = rd_prevs st @ [rq_uri (rd_request st)]"
    "fp_policy (rd_policy st') = fp_policy (rd_policy st)"
    "fp_https_only (rd_policy st') = fp_https_only (rd_policy st)"
    "n \<in> set sensitive_names \<Longrightarrow> req_values r n =
       (if same_origin (rq_uri r) (rq_uri (rd_request st)) then req_values (rd_request st) n else [])"
proof -
  have "rd_request st' = r \<and> rd_pending st' = None \<and>
    fp_uris (rd_policy st') = rd_prevs st @ [rq_uri (rd_request st)] \<and>
    fp_policy (rd_policy st') = fp_policy (rd_policy st) \<and>
    fp_https_only (rd_policy st') = fp_https_only (rd_policy st) \<and>
    (n \<in> set sensitive_names \<longrightarrow> req_values r n =
       (if same_origin (rq_uri r) (rq_uri (rd_request st)) then req_values (rd_request st) n else []))"
  proof (cases "rd_pending st")
    case None
    with poll obtain res where "redirect_response R st res = (st', Send r b)"
      by (auto simp: redirect_poll_def split: poll.splits sum.splits)
    from redirect_response_send [OF this] obtain req1 repr1 repr2 location fp where
      rw: "rewrite_request (rs_status res) (rd_request st) (rd_repr st) = Some (req1, repr1)" and
      fr: "follow_redirect (rl_url R) (rd_policy st) (rs_status res) (rs_headers res) location
        (rq_uri req1) = (fp, Inr Follow)" and
      oreq: "follow_on_request (rl_url R) fp (req1\<lparr>rq_uri := location\<rparr>) = (rd_policy st', r)" and
      st': "st' = st\<lparr>rd_policy := rd_policy st', rd_request := r,
        rd_repr := repr_try_clone_from repr2 b\<rparr>"
      by blast
    note f = follow_redirect_state [OF fr] and o = on_request_props [OF oreq]
    have rst: "rd_request st' = r" "rd_pending st' = None"
      using arg_cong [OF st', of rd_request] arg_cong [OF st', of rd_pending] None by simp_all
    have "req_values r n =
        (if same_origin (rq_uri r) (rq_uri req1) then req_values (req1\<lparr>rq_uri := location\<rparr>) n else [])"
      if "n \<in> set sensitive_names"
      using on_request_values [OF oreq that] f(1) by simp
    then show ?thesis
      using f o rst rewrite_request_props(1) [OF rw] rewrite_request_props(2) [OF rw, of n] None sensitive_not_payload [of n]
      by (simp add: rd_prevs_def req_values_def)
  next
    case (Some pd)
    with poll have "handle_action R (st\<lparr>rd_pending := None\<rparr>) (pd_action pd) (pd_location pd)
        (pd_body pd) (pd_res pd) = (st', Send r b)"
      by (auto simp: redirect_poll_def split: nat.splits)
    then have oreq: "follow_on_request (rl_url R) (rd_policy st)
        ((rd_request st)\<lparr>rq_uri := pd_location pd\<rparr>) = (rd_policy st', r)"
      and st': "st' = st\<lparr>rd_pending := None, rd_policy := rd_policy st', rd_request := r,
        rd_repr := repr_try_clone_from (rd_repr st) (pd_body pd)\<rparr>"
      by (auto simp: handle_action_send)
    note o = on_request_props [OF oreq]
    have rst: "rd_request st' = r" "rd_pending st' = None"
      using arg_cong [OF st', of rd_request] arg_cong [OF st', of rd_pending] by simp_all
    from inv Some have u: "fp_uris (rd_policy st) \<noteq> []"
      "last (fp_uris (rd_policy st)) = rq_uri (rd_request st)"
      by (simp_all add: rd_inv_def)
    then have "fp_uris (rd_policy st) = rd_prevs st @ [rq_uri (rd_request st)]"
      using Some append_butlast_last_id [OF u(1)] by (simp add: rd_prevs_def)
    with o rst on_request_values [OF oreq _ u(1), of n] u(2) show ?thesis
      by (simp add: req_values_def)
  qed
  then show "rd_request st' = r" "rd_pending st' = None"
    "fp_uris (rd_policy st') = rd_prevs st @ [rq_uri (rd_request st)]"
    "fp_policy (rd_policy st') = fp_policy (rd_policy st)"
    "fp_https_only (rd_policy st') = fp_https_only (rd_policy st)"
    "n \<in> set sensitive_names \<Longrightarrow> req_values r n =
       (if same_origin (rq_uri r) (rq_uri (rd_request st)) then req_values (rd_request st) n else [])"
    by auto
qed

lemma redirect_response_waiting:
  assumes "redirect_response R st res = (st', Waiting)"
  shows "\<exists>req1 repr1 fp location n a.
      rewrite_request (rs_status res) (rd_request st) (rd_repr st) = Some (req1, repr1) \<and>
      follow_redirect (rl_url R) (rd_policy st) (rs_status res) (rs_headers res) location (rq_uri req1)
        = (fp, Inr (Pending n a)) \<and>
      rd_policy st' = fp \<and> rd_request st' = req1 \<and> rd_pending st' \<noteq> None"
  using assms
  by (auto simp: redirect_response_def Let_def handle_action_def
      split: option.split_asm prod.split_asm sum.split_asm action.split_asm) blast

lemma redirect_poll_waiting:
  assumes poll: "redirect_poll R st ev = (st', Waiting)" and inv: "rd_inv st"
  shows "rd_inv st'" "rd_prevs st' = rd_prevs st"
    "rq_uri (rd_request st') = rq_uri (rd_request st)"
    "fp_policy (rd_policy st') = fp_policy (rd_policy st)"
    "fp_https_only (rd_policy st') = fp_https_only (rd_policy st)"
    "n \<in> set sensitive_names \<Longrightarrow> req_values (rd_request st') n = req_values (rd_request st) n"
proof -
  have "rd_inv st' \<and> rd_prevs st' = rd_prevs st \<and>
    rq_uri (rd_request st') = rq_uri (rd_request st) \<and>
    fp_policy (rd_policy st') = fp_policy (rd_policy st) \<and>
    fp_https_only (rd_policy st') = fp_https_only (rd_policy st) \<and>
    (n \<in> set sensitive_names \<longrightarrow> req_values (rd_request st') n = req_values (rd_request st) n)"
  proof (cases "rd_pending st")
    case (Some pd)
    with poll obtain p where "st' = st\<lparr>rd_pending := Some p\<rparr>"
      by (auto simp: redirect_poll_def handle_action_def split: nat.splits action.splits prod.splits)
    with inv Some show ?thesis
      by (simp add: rd_inv_def rd_prevs_def)
  next
    case None
    with poll have "st' = st \<or> (\<exists>res. redirect_response R st res = (st', Waiting))"
      by (simp add: redirect_poll_def split: poll.split_asm sum.split_asm) blast
    then consider "st' = st" | res where "redirect_response R st res = (st', Waiting)" by blast
    then show ?thesis
    proof cases
      case 1
      with inv show ?thesis by simp
    next
      case 2
      from redirect_response_waiting [OF this] obtain req1 repr1 fp location m a where
        rw: "rewrite_request (rs_status res) (rd_request st) (rd_repr st) = Some (req1, repr1)" and
        fr: "follow_redirect (rl_url R) (rd_policy st) (rs_status res) (rs_headers res) location
          (rq_uri req1) = (fp, Inr (Pending m a))" and
        s: "rd_policy st' = fp" "rd_request st' = req1" "rd_pending st' \<noteq> None"
        by blast
      show ?thesis
        using follow_redirect_state [OF fr] rewrite_request_props(1) [OF rw] rewrite_request_props(2) [OF rw, of n] s None
          sensitive_not_payload [of n]
        by (simp add: rd_inv_def rd_prevs_def req_values_def)
    qed
  qed
  then show "rd_inv st'" "rd_prevs st' = rd_prevs st"
    "rq_uri (rd_request st') = rq_uri (rd_request st)"
    "fp_policy (rd_policy st') = fp_policy (rd_policy st)"
    "fp_https_only (rd_policy st') = fp_https_only (rd_policy st)"
    "n \<in> set sensitive_names \<Longrightarrow> req_values (rd_request st') n = req_values (rd_request st) n"
    by auto
qed

section \<open>Credentials along a chain\<close>

lemma same_origin_refl [simp]: "same_origin u u"
  by (simp add: same_origin_def split: option.split)

lemma same_origin_sym: "same_origin a b \<Longrightarrow> same_origin b a"
  by (auto simp: same_origin_def eq_ignore_ascii_case_sym split: option.splits)

lemma same_origin_trans: "same_origin a b \<Longrightarrow> same_origin b c \<Longrightarrow> same_origin a c"
  by (auto simp: same_origin_def intro: eq_ignore_ascii_case_trans split: option.splits)

fun sens_chain :: "string \<Rightarrow> uri \<Rightarrow> header_value list \<Rightarrow> ('p, 'o) request list \<Rightarrow> bool" where
  "sens_chain n u v [] = True"
| "sens_chain n u v (r # rs) =
     (req_values r n = (if same_origin (rq_uri r) u then v else []) \<and>
      sens_chain n (rq_uri r) (req_values r n) rs)"

lemma run_sens_chain:
  assumes "rd_inv st" "n \<in> set sensitive_names"
  shows "sens_chain n (rq_uri (rd_request st)) (req_values (rd_request st) n)
    (map fst (fst (redirect_run R st evs)))"
  using assms(1)
proof (induction evs arbitrary: st)
  case (Cons ev evs)
  obtain st' out where p: "redirect_poll R st ev = (st', out)" by fastforce
  show ?case
  proof (cases out)
    case Waiting
    with p Cons.IH [of st'] redirect_poll_waiting [OF p [unfolded Waiting] Cons.prems] assms(2)
    show ?thesis by simp
  next
    case (Send r b)
    note s = redirect_poll_send [OF p [unfolded Send] Cons.prems]
    from s(2) have "rd_inv st'" by (simp add: rd_inv_def)
    from Cons.IH [OF this] s(1) s(6) [OF assms(2)] p Send
    show ?thesis by (simp add: split_beta)
  qed (use p in simp_all)
qed simp

lemma sens_chain_nth:
  "sens_chain n u v rs \<Longrightarrow> j < length rs \<Longrightarrow> req_values (rs ! j) n \<noteq> [] \<Longrightarrow>
   same_origin (rq_uri (rs ! j)) u \<and> req_values (rs ! j) n = v \<and>
   (\<forall>i\<le>j. same_origin (rq_uri (rs ! j)) (rq_uri (rs ! i)))"
proof (induction rs arbitrary: u v j)
  case (Cons r rs)
  show ?case
  proof (cases j)
    case 0
    with Cons.prems show ?thesis by (auto split: if_splits)
  next
    case (Suc j')
    have "sens_chain n (rq_uri r) (req_values r n) rs" using Cons.prems(1) unfolding sens_chain.simps by blast
    from Cons.IH [OF this, of j'] Cons.prems(2,3) Suc
    have a: "same_origin (rq_uri (rs ! j')) (rq_uri r)" "req_values (rs ! j') n = req_values r n"
      "\<forall>i\<le>j'. same_origin (rq_uri (rs ! j')) (rq_uri (rs ! i))"
      by auto
    from a(2) Cons.prems Suc have "req_values r n \<noteq> []" by simp
    with Cons.prems(1) have b: "same_origin (rq_uri r) u" "req_values r n = v"
      by (cases "same_origin (rq_uri r) u"; simp)+
    have "same_origin (rq_uri (rs ! j')) (rq_uri ((r # rs) ! i))" if "i \<le> Suc j'" for i
      using a that by (cases i) auto
    with a b Suc same_origin_trans [OF a(1) b(1)] show ?thesis by simp
  qed
qed simp

text \<open>The policy the client builds (\<^verbatim>\<open>ClientBuilder::build\<close>).\<close>

definition client_redirect_policy :: "policy \<Rightarrow> bool \<Rightarrow> bool \<Rightarrow> 'u follow_policy" where
  "client_redirect_policy p referer https_only =
     with_https_only https_only (with_referer referer (follow_new p))"

lemma client_redirect_policy_simps [simp]:
  "fp_policy (client_redirect_policy p rf ho) = Some p"
  "fp_uris (client_redirect_policy p rf ho) = []"
  "fp_https_only (client_redirect_policy p rf ho) = ho"
  "fp_history (client_redirect_policy p rf ho) = None"
  by (simp_all add: client_redirect_policy_def with_https_only_def with_referer_def follow_new_def)

definition effective_policy :: "policy \<Rightarrow> (policy, 'o) request \<Rightarrow> policy option" where
  "effective_policy p req = rc_fetch (Some p) (ext_redirect (rq_ext req))"

lemma effective_policy_Some: "\<exists>q. effective_policy p req = Some q"
  by (simp add: effective_policy_def rc_fetch_def split: option.split)

lemma call_redirect:
  assumes "snd (redirect_call R (client_redirect_policy p rf ho) req body) = Redirect st r b"
  shows "rd_inv st" "rd_request st = r" "rd_pending st = None" "rd_prevs st = []"
    "fp_policy (rd_policy st) = effective_policy p req"
    "fp_https_only (rd_policy st) = ho" "fp_history (rd_policy st) = None"
    "rd_repr st = repr_try_clone_from BNone body" "b = body" "rq_method r = rq_method req"
    "rq_uri r = rq_uri req"
proof -
  let ?fp = "client_redirect_policy p rf ho :: 'a follow_policy"
  obtain q slot where l: "rc_load (Some p) (ext_redirect (rq_ext req)) = (q, slot)" by fastforce
  from rc_load_fetch [of "Some p" "ext_redirect (rq_ext req)"] l
  have q: "q = effective_policy p req" by (simp add: effective_policy_def)
  let ?req = "req\<lparr>rq_ext := (rq_ext req)\<lparr>ext_redirect := slot\<rparr>\<rparr>"
  define fp' where "fp' = ?fp\<lparr>fp_policy := q,
    fp_referrer := map_option (\<lambda>_. referrer_new (rl_url R) (rq_headers req)) (fp_referrer ?fp)\<rparr>"
  obtain fp'' r' where o': "follow_on_request (rl_url R) fp' ?req = (fp'', r')" by fastforce
  let ?ok = "case q of Some x \<Rightarrow> \<not> is_none_policy x | None \<Rightarrow> False"
  have "follow_for_request (rl_url R) ?fp req =
      (?fp\<lparr>fp_policy := q\<rparr>, ?req, if ?ok then Some fp' else None)"
    by (simp add: follow_for_request_def l fp'_def Let_def)
  then have "snd (redirect_call R ?fp req body) =
      (if ?ok then Redirect \<lparr>rd_policy = fp'', rd_request = r',
         rd_repr = repr_try_clone_from BNone body, rd_pending = None\<rparr> r' body
       else Direct ?req body)"
    by (simp add: redirect_call_def o')
  with assms have s: "st = \<lparr>rd_policy = fp'', rd_request = r, rd_repr = repr_try_clone_from BNone body,
        rd_pending = None\<rparr>" "b = body" and o: "follow_on_request (rl_url R) fp' ?req = (fp'', r)"
    using o' by (auto simp del: repr_try_clone_from.simps split: if_split_asm)
  note p = on_request_props [OF o]
  from s p fp'_def q show "rd_inv st" "rd_request st = r" "rd_pending st = None" "rd_prevs st = []"
    "fp_policy (rd_policy st) = effective_policy p req"
    "fp_https_only (rd_policy st) = ho" "fp_history (rd_policy st) = None"
    "rd_repr st = repr_try_clone_from BNone body" "b = body" "rq_method r = rq_method req"
    "rq_uri r = rq_uri req"
    by (simp_all add: rd_inv_def rd_prevs_def del: repr_try_clone_from.simps)
qed

lemma exec_cases:
  fixes R :: "'u redirect_lib" and req :: "(policy, 'o) request"
  assumes "redirect_exec R (client_redirect_policy p rf ho) req body evs = (sent, out)"
  obtains (direct) r where "sent = [(r, body)]" "out = direct_run evs"
    "snd (redirect_call R (client_redirect_policy p rf ho) req body) = Direct r body"
  | (redirect) st :: "('u, 'o) redirect_state" and r sent' where "sent = (r, body) # sent'"
    "redirect_run R st evs = (sent', out)"
    "snd (redirect_call R (client_redirect_policy p rf ho) req body) = Redirect st r body"
proof (cases "snd (redirect_call R (client_redirect_policy p rf ho) req body)")
  case (Direct r b)
  then have "b = body"
    by (auto simp: redirect_call_def split: prod.splits option.splits)
  with Direct assms show ?thesis by (intro direct [of r]) (simp_all add: redirect_exec_def)
next
  case (Redirect st r b)
  obtain sent' out' where run: "redirect_run R st evs = (sent', out')" by fastforce
  from call_redirect(9) [OF Redirect] Redirect assms run show ?thesis
    by (intro redirect [of r sent' st]) (simp_all add: redirect_exec_def)
qed

lemma exec_first:
  assumes "redirect_exec R (client_redirect_policy p rf ho) req body evs = (sent, out)"
  shows "sent \<noteq> []" "rq_uri (fst (sent ! 0)) = rq_uri req" "rq_method (fst (sent ! 0)) = rq_method req"
    "n \<noteq> ''referer'' \<Longrightarrow> req_values (fst (sent ! 0)) n = req_values req n"
  using assms
  by (auto simp: redirect_exec_def redirect_call_def follow_for_request_def follow_on_request_def remove_sensitive_headers_def
      req_values_def Let_def split: prod.split_asm option.split_asm if_split_asm)

lemma redirect_call_policy:
  assumes "effective_policy p req = Some q"
  shows "fst (redirect_call R (client_redirect_policy p rf ho) req body) = client_redirect_policy q rf ho"
proof -
  have "fst (rc_load (Some p) (ext_redirect (rq_ext req))) = Some q"
    using assms rc_load_fetch [of "Some p" "ext_redirect (rq_ext req)"] by (simp add: effective_policy_def)
  then show ?thesis
    by (auto simp: redirect_call_def follow_for_request_def client_redirect_policy_def with_https_only_def with_referer_def
        follow_new_def Let_def split: prod.split)
qed

lemma effective_policy_again:
  "effective_policy p req = Some q \<Longrightarrow> effective_policy q req = Some q"
  by (auto simp: effective_policy_def rc_fetch_def split: option.splits)

lemma exec_credentials:
  assumes "redirect_exec R (client_redirect_policy p rf ho) req body evs = (sent, out)"
    and "i \<le> j" "j < length sent" "n \<in> set sensitive_names"
    and "req_values (fst (sent ! j)) n \<noteq> []"
  shows "same_origin (rq_uri (fst (sent ! j))) (rq_uri (fst (sent ! i))) \<and>
         req_values (fst (sent ! j)) n = req_values (fst (sent ! 0)) n"
proof -
  from assms(1) show ?thesis
  proof (cases rule: exec_cases)
    case (direct r)
    with assms(2,3) show ?thesis by simp
  next
    case (redirect st r sent')
    note c = call_redirect [OF redirect(3)]
    have "sens_chain n (rq_uri r) (req_values r n) (map fst sent')"
      using run_sens_chain [OF c(1) assms(4), of R evs] c(2) redirect(2) by simp
    then have "sens_chain n (rq_uri r) (req_values r n) (map fst sent)"
      using redirect(1) by simp
    moreover have "map fst sent ! j = fst (sent ! j)" "map fst sent ! i = fst (sent ! i)"
      using assms(2,3) by simp_all
    moreover have "fst (sent ! 0) = r" using redirect(1) by simp
    ultimately show ?thesis
      using sens_chain_nth [of n "rq_uri r" "req_values r n" "map fst sent" j] assms(2,3,5) by simp
  qed
qed

text \<open>C3: credentials never leave their origin.  Along every redirect chain, under every policy and for
  every sequence of responses, a request carries an \<^verbatim>\<open>Authorization\<close>, \<^verbatim>\<open>Cookie\<close>, \<^verbatim>\<open>Cookie2\<close>,
  \<^verbatim>\<open>Proxy-Authorization\<close> or \<^verbatim>\<open>WWW-Authenticate\<close> header of the caller only if every earlier request of
  the chain had the same origin (scheme, host and port), and then with the caller's values.\<close>

theorem credentials_stay_at_origin:
  assumes "redirect_exec R (client_redirect_policy p rf ho) req body evs = (sent, out)"
    and "i \<le> j" "j < length sent" "n \<in> set sensitive_names"
    and "req_values (fst (sent ! j)) n \<noteq> []"
  shows "same_origin (rq_uri (fst (sent ! j))) (rq_uri (fst (sent ! i))) \<and>
         req_values (fst (sent ! j)) n = req_values (fst (sent ! 0)) n"
  using assms by (rule exec_credentials)

section \<open>A concrete client\<close>

definition sample_url_lib :: "string url_lib" where
  "sample_url_lib =
     \<lparr>ul_parse = Some, ul_as_str = (\<lambda>s. s), ul_scheme = (\<lambda>_. Some ''https''), ul_host = (\<lambda>_. Some ''a''),
      ul_port = (\<lambda>_. Some 443), ul_no_username = Some, ul_no_password = Some,
      ul_no_fragment = (\<lambda>s. s), ul_no_path = (\<lambda>_. ''https://a/''), ul_no_query = (\<lambda>s. s),
      ul_to_str = (\<lambda>v. Some (hv_bytes v)), ul_header_ok = (\<lambda>_. True)\<rparr>"

definition sample_redirect_lib :: "string redirect_lib" where
  "sample_redirect_lib =
     \<lparr>rl_url = sample_url_lib, rl_join = (\<lambda>_. Some), rl_uri_string = (\<lambda>_. ''base''),
      rl_parse = \<lparr>pl_uri = (\<lambda>s. if s = ''A'' then Some (sample_uri ''https'' ''a'' ''/next'')
                                else if s = ''B'' then Some (sample_uri ''https'' ''b'' ''/'')
                                else if s = ''P'' then Some (sample_uri ''http'' ''b'' ''/'')
                                else None),
                  pl_url = Some\<rparr>\<rparr>"

definition sample_ext :: "(policy, unit) extensions" where
  "sample_ext =
     \<lparr>ext_redirect = None, ext_options = None, ext_timeout = None, ext_default_headers = None,
      ext_orig_headers = None, ext_preserve = None, ext_cookie_store = None, ext_accept_encoding = None\<rparr>"

definition sample_request :: "(policy, unit) request" where
  "sample_request =
     \<lparr>rq_method = ''GET'', rq_uri = sample_uri ''https'' ''a'' ''/'', rq_version = HTTP_11,
      rq_headers = [(''authorization'', [\<lparr>hv_bytes = ''key'', hv_sensitive = True\<rparr>]),
                    (''referer'', [\<lparr>hv_bytes = ''https://a/secret'', hv_sensitive = False\<rparr>])],
      rq_ext = sample_ext\<rparr>"

definition sample_response :: "nat \<Rightarrow> string \<Rightarrow> response" where
  "sample_response s l =
     \<lparr>rs_status = s, rs_version = HTTP_11,
      rs_headers = (if l = [] then [] else [(''location'', [\<lparr>hv_bytes = l, hv_sensitive = False\<rparr>])]),
      rs_uri = None, rs_history = None\<rparr>"

definition sample_events :: "(error, response) result poll list" where
  "sample_events =
     [NotReady, Ready (Inr (sample_response 302 ''A'')), Ready (Inr (sample_response 307 ''B'')),
      Ready (Inr (sample_response 200 []))]"

definition sample_exec :: "policy \<Rightarrow> bool \<Rightarrow> ((policy, unit) request \<times> body) list \<times> unit redirect_out" where
  "sample_exec p ho =
     redirect_exec sample_redirect_lib (client_redirect_policy p True ho) sample_request (Full ''data'')
       sample_events"

lemma sample_exec_eq:
  "redirect_exec sample_redirect_lib (client_redirect_policy p True ho) sample_request (Full ''data'')
     sample_events = (fst (sample_exec p ho), snd (sample_exec p ho))"
  by (simp add: sample_exec_def)

lemma sample_effective: "effective_policy p sample_request = Some p"
  by (simp add: effective_policy_def rc_fetch_def sample_request_def sample_ext_def)

theorem credentials_stay_at_origin_witness:
  "length (fst (sample_exec (Limit 10) True)) = 3 \<and>
   same_origin (rq_uri (fst (fst (sample_exec (Limit 10) True) ! 1)))
     (rq_uri (fst (fst (sample_exec (Limit 10) True) ! 0))) \<and>
   req_values (fst (fst (sample_exec (Limit 10) True) ! 2)) ''authorization'' = []"
proof (intro conjI)
  show "length (fst (sample_exec (Limit 10) True)) = 3"
    "req_values (fst (fst (sample_exec (Limit 10) True) ! 2)) ''authorization'' = []"
    by code_simp+
  have "req_values (fst (fst (sample_exec (Limit 10) True) ! 1)) ''authorization'' \<noteq> []"
    "1 < length (fst (sample_exec (Limit 10) True))" "''authorization'' \<in> set sensitive_names"
    by code_simp+
  then show "same_origin (rq_uri (fst (fst (sample_exec (Limit 10) True) ! 1)))
     (rq_uri (fst (fst (sample_exec (Limit 10) True) ! 0)))"
    using credentials_stay_at_origin [OF sample_exec_eq, of 0 1] by blast
qed

section \<open>Bounded chains\<close>

lemma follow_redirect_pending:
  "follow_redirect L fp status headers location previous = (fp', Inr (Pending n a)) \<Longrightarrow>
   \<exists>p. fp_policy fp = Some p \<and>
     policy_check p status headers location (fp_uris fp @ [previous]) = Pending n a"
  by (auto simp: follow_redirect_def Let_def split: option.split_asm action.split_asm if_split_asm)

definition decides_now :: "policy \<Rightarrow> bool" where
  "decides_now p \<longleftrightarrow> (\<forall>a n x. policy_redirect p a \<noteq> Pending n x)"

lemma decides_now_builtin [simp]: "decides_now (Limit m)" "decides_now NoRedirect"
  by (auto simp: decides_now_def policy_redirect_def)

lemma waiting_not_pending:
  assumes "redirect_poll R st ev = (st', Waiting)" "rd_pending st = None"
    "fp_policy (rd_policy st) = Some p" "decides_now p"
  shows "st' = st"
proof (rule ccontr)
  assume "st' \<noteq> st"
  with assms(1,2) obtain res where "redirect_response R st res = (st', Waiting)"
    by (simp add: redirect_poll_def split: poll.split_asm sum.split_asm)
  from redirect_response_waiting [OF this] obtain req1 repr1 fp location n a where
    "rewrite_request (rs_status res) (rd_request st) (rd_repr st) = Some (req1, repr1)" and
    fr: "follow_redirect (rl_url R) (rd_policy st) (rs_status res) (rs_headers res) location (rq_uri req1)
       = (fp, Inr (Pending n a))" by blast
  from follow_redirect_pending [OF fr] assms(3,4) show False
    by (auto simp: decides_now_def policy_check_def)
qed

lemma send_decided:
  assumes "redirect_poll R st ev = (st', Send r b)" "rd_pending st = None"
  shows "\<exists>p status headers. fp_policy (rd_policy st) = Some p \<and>
      policy_check p status headers (rq_uri r) (fp_uris (rd_policy st) @ [rq_uri (rd_request st)]) = Follow \<and>
      (is_http (rq_uri r) \<or> is_https (rq_uri r)) \<and>
      (fp_https_only (rd_policy st) \<longrightarrow> is_https (rq_uri r))"
proof -
  from assms obtain res where "redirect_response R st res = (st', Send r b)"
    by (auto simp: redirect_poll_def split: poll.splits sum.splits)
  from redirect_response_send [OF this] obtain req1 repr1 repr2 location fp where
    rw: "rewrite_request (rs_status res) (rd_request st) (rd_repr st) = Some (req1, repr1)" and
    fr: "follow_redirect (rl_url R) (rd_policy st) (rs_status res) (rs_headers res) location
      (rq_uri req1) = (fp, Inr Follow)" and
    oreq: "follow_on_request (rl_url R) fp (req1\<lparr>rq_uri := location\<rparr>) = (rd_policy st', r)"
    by blast
  from on_request_props(5) [OF oreq] have "rq_uri r = location" by simp
  with follow_redirect_follow [OF fr] rewrite_request_props(1) [OF rw] show ?thesis by auto
qed

lemma run_limit:
  assumes "rd_pending st = None" "fp_policy (rd_policy st) = Some (Limit m)"
    "length (rd_prevs st) \<le> m"
  shows "length (rd_prevs st) + length (fst (redirect_run R st evs)) \<le> m"
  using assms
proof (induction evs arbitrary: st)
  case (Cons ev evs)
  obtain st' out where p: "redirect_poll R st ev = (st', out)" by fastforce
  have inv: "rd_inv st" using Cons.prems by (simp add: rd_inv_def)
  show ?case
  proof (cases out)
    case Waiting
    with p Cons.prems waiting_not_pending [OF p [unfolded Waiting]] have "st' = st" by simp
    with p Waiting Cons show ?thesis by simp
  next
    case (Send r b)
    note s = redirect_poll_send [OF p [unfolded Send] inv]
    from send_decided [OF p [unfolded Send] Cons.prems(1)] Cons.prems(2)
    have "length (fp_uris (rd_policy st) @ [rq_uri (rd_request st)]) \<le> m"
      by (auto simp: policy_check_def policy_redirect_def split: if_split_asm)
    with Cons.prems(1) have "length (rd_prevs st') \<le> m" "length (rd_prevs st') = Suc (length (rd_prevs st))"
      using s(2,3) by (simp_all add: rd_prevs_def)
    with Cons.IH [of st'] s(2,4) Cons.prems(2) p Send show ?thesis by (simp add: split_beta)
  qed (use p Cons.prems in simp_all)
qed simp

lemma exec_limit:
  assumes "redirect_exec R (client_redirect_policy p rf ho) req body evs = (sent, out)"
    and "effective_policy p req = Some (Limit m)"
  shows "length sent \<le> m + 1"
  using assms(1)
proof (cases rule: exec_cases)
  case (redirect st r sent')
  note c = call_redirect [OF redirect(3)]
  from run_limit [OF c(3), of m R evs] c(4,5) assms(2) redirect(1,2) show ?thesis by simp
qed simp

lemma exec_none:
  assumes "redirect_exec R (client_redirect_policy p rf ho) req body evs = (sent, out)"
    and "effective_policy p req = Some NoRedirect"
  shows "length sent = 1" "out = direct_run evs"
proof -
  obtain q slot where l: "rc_load (Some p) (ext_redirect (rq_ext req)) = (q, slot)" by fastforce
  from rc_load_fetch [of "Some p" "ext_redirect (rq_ext req)"] l assms(2)
  have "q = Some NoRedirect" by (simp add: effective_policy_def)
  then have "snd (redirect_call R (client_redirect_policy p rf ho) req body) =
      Direct (req\<lparr>rq_ext := (rq_ext req)\<lparr>ext_redirect := slot\<rparr>\<rparr>) body"
    by (simp add: redirect_call_def follow_for_request_def l Let_def is_none_policy_def)
  with assms(1) show "length sent = 1" "out = direct_run evs"
    by (auto simp: redirect_exec_def)
qed

text \<open>C12: redirect chains are bounded.  Under a limit of \<open>m\<close> (the client's or the request's own) at
  most \<open>m + 1\<close> requests are sent, whatever the server answers; when the limit is used up, one more
  redirect that could be followed fails with the too-many-redirects error carrying the URI of the
  request; and with redirects disabled the single request is sent and its response is returned
  untouched.\<close>

theorem redirects_bounded:
  assumes "redirect_exec R (client_redirect_policy p rf ho) req body evs = (sent, out)"
  shows "(effective_policy p req = Some (Limit m) \<longrightarrow> length sent \<le> m + 1) \<and>
         (effective_policy p req = Some NoRedirect \<longrightarrow> length sent = 1 \<and> out = direct_run evs) \<and>
         (rd_pending st = None \<and> fp_policy (rd_policy st) = Some (Limit m) \<and>
          m \<le> length (rd_prevs st) \<and>
          rewrite_request (rs_status res) (rd_request st) (rd_repr st) = Some (req1, repr1) \<and>
          snd (repr_take repr1) \<noteq> None \<and>
          response_location R (res\<lparr>rs_uri := Some (rq_uri (rd_request st))\<rparr>) (rq_uri (rd_request st)) \<noteq> None
          \<longrightarrow> snd (redirect_poll R st (Ready (Inr res))) =
                Resolved (Inl (err_redirect TooManyRedirects (rq_uri (rd_request st)))))"
proof (intro conjI impI)
  assume "effective_policy p req = Some (Limit m)"
  with assms show "length sent \<le> m + 1" by (rule exec_limit)
next
  assume "effective_policy p req = Some NoRedirect"
  from exec_none [OF assms this] show "length sent = 1" "out = direct_run evs" .
next
  assume a: "rd_pending st = None \<and> fp_policy (rd_policy st) = Some (Limit m) \<and>
          m \<le> length (rd_prevs st) \<and>
          rewrite_request (rs_status res) (rd_request st) (rd_repr st) = Some (req1, repr1) \<and>
          snd (repr_take repr1) \<noteq> None \<and>
          response_location R (res\<lparr>rs_uri := Some (rq_uri (rd_request st))\<rparr>) (rq_uri (rd_request st)) \<noteq> None"
  then obtain repr2 b where t: "repr_take repr1 = (repr2, Some b)"
    by (cases "repr_take repr1") auto
  from a have u: "rq_uri req1 = rq_uri (rd_request st)"
    using rewrite_request_props(1) by blast
  from a have "m \<le> length (fp_uris (rd_policy st))" by (simp add: rd_prevs_def split: if_split_asm)
  then have "policy_check (Limit m) s h loc (fp_uris (rd_policy st) @ [x]) = Error TooManyRedirects" for s h loc x
    by (simp add: policy_check_def policy_redirect_def)
  with a t u show "snd (redirect_poll R st (Ready (Inr res))) =
      Resolved (Inl (err_redirect TooManyRedirects (rq_uri (rd_request st))))"
    by (auto simp: redirect_poll_def redirect_response_def follow_redirect_def Let_def)
qed

theorem redirects_bounded_witness:
  "length (fst (sample_exec (Limit 1) True)) \<le> 2 \<and>
   (case snd (sample_exec (Limit 1) True) of
      Resolved (Inl e) \<Rightarrow> e = err_redirect TooManyRedirects (sample_uri ''https'' ''a'' ''/next'')
    | _ \<Rightarrow> False)"
proof
  have "length (fst (sample_exec (Limit 1) True)) \<le> 1 + 1"
    using redirects_bounded [OF sample_exec_eq [of "Limit 1" True], where m = 1] sample_effective by blast
  then show "length (fst (sample_exec (Limit 1) True)) \<le> 2" by simp
  show "case snd (sample_exec (Limit 1) True) of
      Resolved (Inl e) \<Rightarrow> e = err_redirect TooManyRedirects (sample_uri ''https'' ''a'' ''/next'')
    | _ \<Rightarrow> False"
    by code_simp
qed

section \<open>Schemes\<close>

lemma run_schemes:
  assumes "rd_pending st = None" "fp_policy (rd_policy st) = Some p" "decides_now p"
    and "(r, b) \<in> set (fst (redirect_run R st evs))"
  shows "(is_http (rq_uri r) \<or> is_https (rq_uri r)) \<and>
         (fp_https_only (rd_policy st) \<longrightarrow> is_https (rq_uri r))"
  using assms(1,2,4)
proof (induction evs arbitrary: st)
  case (Cons ev evs)
  obtain st' out where p: "redirect_poll R st ev = (st', out)" by fastforce
  have inv: "rd_inv st" using Cons.prems by (simp add: rd_inv_def)
  show ?case
  proof (cases out)
    case Waiting
    with p Cons.prems assms(3) waiting_not_pending [OF p [unfolded Waiting]] have "st' = st" by simp
    with p Waiting Cons show ?thesis by simp
  next
    case (Send r' b')
    note s = redirect_poll_send [OF p [unfolded Send] inv]
    from Cons.prems(3) p Send consider "r = r'" | "(r, b) \<in> set (fst (redirect_run R st' evs))"
      by (auto simp: split_beta)
    then show ?thesis
    proof cases
      case 1
      with send_decided [OF p [unfolded Send] Cons.prems(1)] show ?thesis by auto
    next
      case 2
      with Cons.IH [of st'] s Cons.prems(2) show ?thesis by simp
    qed
  qed (use p Cons.prems in simp_all)
qed simp

lemma exec_schemes:
  assumes "redirect_exec R (client_redirect_policy p rf ho) req body evs = (sent, out)"
    and "effective_policy p req = Some q" "decides_now q"
    and "0 < j" "j < length sent"
  shows "(is_http (rq_uri (fst (sent ! j))) \<or> is_https (rq_uri (fst (sent ! j)))) \<and>
         (ho \<longrightarrow> is_https (rq_uri (fst (sent ! j))))"
proof -
  from assms(1) show ?thesis
  proof (cases rule: exec_cases)
    case (direct r)
    with assms(4,5) show ?thesis by simp
  next
    case (redirect st r sent')
    note c = call_redirect [OF redirect(3)]
    obtain j' where j: "j = Suc j'" using assms(4) by (cases j) simp_all
    with redirect(1) assms(5) have "sent ! j \<in> set sent'" by simp
    then have "(fst (sent ! j), snd (sent ! j)) \<in> set (fst (redirect_run R st evs))"
      using redirect(2) by simp
    from run_schemes [OF c(3) _ assms(3) this] c(5,6) assms(2) show ?thesis by simp
  qed
qed

text \<open>C37: where redirects may lead.  Under every policy that decides at once (the built-in policies and
  every custom policy that does not return a pending action) each followed URI is http or https, and
  with HTTPS-only enabled every followed URI is https.\<close>

theorem followed_schemes:
  assumes "redirect_exec R (client_redirect_policy p rf ho) req body evs = (sent, out)"
    and "effective_policy p req = Some q" "decides_now q"
    and "0 < j" "j < length sent"
  shows "(is_http (rq_uri (fst (sent ! j))) \<or> is_https (rq_uri (fst (sent ! j)))) \<and>
         (ho \<longrightarrow> is_https (rq_uri (fst (sent ! j))))"
  using assms by (rule exec_schemes)

theorem followed_schemes_witness:
  "is_https (rq_uri (fst (fst (sample_exec (Limit 10) True) ! 2)))"
proof -
  have "2 < length (fst (sample_exec (Limit 10) True))" by code_simp
  from followed_schemes [OF sample_exec_eq sample_effective decides_now_builtin(1) _ this]
  show ?thesis by simp
qed

text \<open>An asynchronous decision skips these checks: with HTTPS-only enabled, a policy that returns a
  pending action which resolves to \<^verbatim>\<open>Follow\<close> sends the request to an http URI, and the redirect is
  missing from the history.\<close>

theorem pending_decision_skips_checks:
  "let (sent, out) = redirect_exec sample_redirect_lib
         (client_redirect_policy (Custom (\<lambda>_. Pending 1 Follow)) True True) sample_request (Full ''data'')
         [Ready (Inr (sample_response 302 ''P'')), NotReady, NotReady, Ready (Inr (sample_response 200 []))]
   in map (is_https \<circ> rq_uri \<circ> fst) sent = [True, False] \<and>
      (case out of Resolved (Inr res) \<Rightarrow> rs_history res = None | _ \<Rightarrow> False)"
  by code_simp


section \<open>Method and body\<close>

text \<open>The copy of the body that redirects send again, if there can be one.\<close>

definition reusable :: "body \<Rightarrow> body option" where
  "reusable b = (if body_exact b = Some 0 then Some body_empty else body_try_clone b)"

definition dropped_payload :: "(policy, 'o) request \<Rightarrow> bool" where
  "dropped_payload r \<longleftrightarrow>
     rq_method r \<in> {''GET'', ''HEAD''} \<and> (\<forall>n \<in> set payload_headers. req_values r n = [])"

definition rd_body_inv :: "body \<Rightarrow> string \<Rightarrow> ('u, 'o) redirect_state \<Rightarrow> bool" where
  "rd_body_inv body m st \<longleftrightarrow>
     rd_repr st = BEmpty \<and> dropped_payload (rd_request st) \<and>
       (\<forall>pd. rd_pending st = Some pd \<longrightarrow> pd_body pd = body_empty) \<or>
     rq_method (rd_request st) = m \<and>
       (rd_pending st = None \<longrightarrow>
          rd_repr st = (case reusable body of Some c \<Rightarrow> BSome c | None \<Rightarrow> BNone)) \<and>
       (\<forall>pd. rd_pending st = Some pd \<longrightarrow> rd_repr st = BNone \<and> reusable body = Some (pd_body pd))"

definition sent_ok :: "body \<Rightarrow> string \<Rightarrow> (policy, 'o) request \<times> body \<Rightarrow> bool" where
  "sent_ok body m x \<longleftrightarrow>
     (case x of (r, b) \<Rightarrow>
        rq_method r = m \<and> reusable body = Some b \<or> dropped_payload r \<and> b = body_empty)"

lemma reusable_clone: "reusable body = Some c \<Longrightarrow> repr_try_clone_from BNone c = BSome c"
  by (cases body) (auto simp: reusable_def body_empty_def split: if_splits)

lemma repr_initial:
  "repr_try_clone_from BNone body = (case reusable body of Some c \<Rightarrow> BSome c | None \<Rightarrow> BNone)"
  by (simp add: reusable_def)

lemma on_request_payload:
  assumes "follow_on_request L fp req = (fp', r)" "n \<in> set payload_headers"
  shows "req_values r n = req_values req n"
proof -
  from assms(2) have "n \<noteq> ''referer''" "n \<notin> set sensitive_names"
    by (auto simp: payload_headers_def sensitive_names_def)
  with on_request_props(7) [OF assms(1)] show ?thesis
    by (simp add: req_values_def get_remove_sensitive)
qed

lemma dropped_payload_on_request:
  assumes "follow_on_request L fp req = (fp', r)"
  shows "dropped_payload r \<longleftrightarrow> dropped_payload req"
  using on_request_props(6) [OF assms] on_request_payload [OF assms]
  by (simp add: dropped_payload_def)

lemma dropped_payload_uri [simp]: "dropped_payload (r\<lparr>rq_uri := u\<rparr>) = dropped_payload r"
  by (simp add: dropped_payload_def req_values_def)

lemma rewrite_request_body:
  assumes "rewrite_request status req repr = Some (req1, repr1)"
  shows "repr1 = BEmpty \<and> dropped_payload req1 \<or>
         repr1 = repr \<and> rq_method req1 = rq_method req \<and> (dropped_payload req \<longrightarrow> dropped_payload req1)"
  using assms
  by (auto simp: rewrite_request_def dropped_payload_def req_values_def drop_payload_headers_def
      hdr_get_all_fold_remove split: if_split_asm)

lemma dropped_body_inv:
  "rd_repr st = BEmpty \<Longrightarrow> dropped_payload (rd_request st) \<Longrightarrow>
   (\<And>pd. rd_pending st = Some pd \<Longrightarrow> pd_body pd = body_empty) \<Longrightarrow> rd_body_inv body m st"
  by (simp add: rd_body_inv_def)

lemma kept_body_inv:
  "rq_method (rd_request st) = m \<Longrightarrow>
   (rd_pending st = None \<Longrightarrow> rd_repr st = (case reusable body of Some c \<Rightarrow> BSome c | None \<Rightarrow> BNone)) \<Longrightarrow>
   (\<And>pd. rd_pending st = Some pd \<Longrightarrow> rd_repr st = BNone \<and> reusable body = Some (pd_body pd)) \<Longrightarrow>
   rd_body_inv body m st"
  by (simp add: rd_body_inv_def)

lemma send_body_inv:
  assumes poll: "redirect_poll R st ev = (st', Send r b)" and inv: "rd_body_inv body m st"
  shows "rd_body_inv body m st' \<and> sent_ok body m (r, b)"
proof (cases "rd_pending st")
  case None
  with poll obtain res where "redirect_response R st res = (st', Send r b)"
    by (auto simp: redirect_poll_def split: poll.splits sum.splits)
  from redirect_response_send [OF this] obtain req1 repr1 repr2 location fp where
    rw: "rewrite_request (rs_status res) (rd_request st) (rd_repr st) = Some (req1, repr1)" and
    tk: "repr_take repr1 = (repr2, Some b)" and
    oreq: "follow_on_request (rl_url R) fp (req1\<lparr>rq_uri := location\<rparr>) = (rd_policy st', r)" and
    st': "st' = st\<lparr>rd_policy := rd_policy st', rd_request := r,
        rd_repr := repr_try_clone_from repr2 b\<rparr>"
    by blast
  have s: "rd_request st' = r" "rd_pending st' = None" "rd_repr st' = repr_try_clone_from repr2 b"
    using arg_cong [OF st', of rd_request] arg_cong [OF st', of rd_pending]
      arg_cong [OF st', of rd_repr] None by simp_all
  have r: "rq_method r = rq_method req1" "dropped_payload r = dropped_payload req1"
    using on_request_props(6) [OF oreq] dropped_payload_on_request [OF oreq] by simp_all
  show ?thesis
  proof (cases "repr1 = BEmpty \<and> dropped_payload req1")
    case True
    with tk s r show ?thesis
      by (auto simp: sent_ok_def intro: dropped_body_inv)
  next
    case False
    with rewrite_request_body [OF rw] inv None
    have k: "repr1 = (case reusable body of Some c \<Rightarrow> BSome c | None \<Rightarrow> BNone)" "rq_method req1 = m"
      unfolding rd_body_inv_def by auto
    with tk have "reusable body = Some b" "repr2 = BNone"
      by (auto split: option.split_asm)
    with s r k(2) reusable_clone [of body b] show ?thesis
      by (auto simp: sent_ok_def simp del: repr_try_clone_from.simps intro!: kept_body_inv)
  qed
next
  case (Some pd)
  with poll have h: "handle_action R (st\<lparr>rd_pending := None\<rparr>) (pd_action pd) (pd_location pd)
      (pd_body pd) (pd_res pd) = (st', Send r b)"
    by (auto simp: redirect_poll_def split: nat.splits)
  then have b: "b = pd_body pd" and oreq: "follow_on_request (rl_url R) (rd_policy st)
      ((rd_request st)\<lparr>rq_uri := pd_location pd\<rparr>) = (rd_policy st', r)"
    and st': "st' = st\<lparr>rd_pending := None, rd_policy := rd_policy st', rd_request := r,
      rd_repr := repr_try_clone_from (rd_repr st) (pd_body pd)\<rparr>"
    by (auto simp: handle_action_send simp del: repr_try_clone_from.simps)
  have s: "rd_request st' = r" "rd_pending st' = None"
    "rd_repr st' = repr_try_clone_from (rd_repr st) (pd_body pd)"
    using arg_cong [OF st', of rd_request] arg_cong [OF st', of rd_pending]
      arg_cong [OF st', of rd_repr] by simp_all
  have r: "rq_method r = rq_method (rd_request st)" "dropped_payload r = dropped_payload (rd_request st)"
    using on_request_props(6) [OF oreq] dropped_payload_on_request [OF oreq] by simp_all
  from inv [unfolded rd_body_inv_def] show ?thesis
  proof (elim disjE conjE)
    assume "rd_repr st = BEmpty" "dropped_payload (rd_request st)"
      "\<forall>pd. rd_pending st = Some pd \<longrightarrow> pd_body pd = body_empty"
    with Some s r b show ?thesis by (auto simp: sent_ok_def intro: dropped_body_inv)
  next
    assume "rq_method (rd_request st) = m"
      "\<forall>pd. rd_pending st = Some pd \<longrightarrow> rd_repr st = BNone \<and> reusable body = Some (pd_body pd)"
    with Some s r b reusable_clone [of body b] show ?thesis
      by (auto simp: sent_ok_def simp del: repr_try_clone_from.simps intro!: kept_body_inv)
  qed
qed

lemma redirect_response_waiting_state:
  assumes "redirect_response R st res = (st', Waiting)"
  shows "\<exists>req1 repr1 repr2 body pd.
      rewrite_request (rs_status res) (rd_request st) (rd_repr st) = Some (req1, repr1) \<and>
      repr_take repr1 = (repr2, Some body) \<and> pd_body pd = body \<and>
      rd_request st' = req1 \<and> rd_repr st' = repr2 \<and> rd_pending st' = Some pd"
  using assms
  by (auto simp: redirect_response_def Let_def handle_action_def
      split: option.split_asm prod.split_asm sum.split_asm action.split_asm)

lemma waiting_body_inv:
  assumes poll: "redirect_poll R st ev = (st', Waiting)" and inv: "rd_body_inv body m st"
  shows "rd_body_inv body m st'"
proof (cases "rd_pending st")
  case (Some pd)
  with poll obtain n where st': "st' = st\<lparr>rd_pending := Some (pd\<lparr>pd_polls := n\<rparr>)\<rparr>"
    by (auto simp: redirect_poll_def handle_action_def split: nat.splits action.splits prod.splits)
  from inv Some show ?thesis unfolding rd_body_inv_def st' by auto
next
  case None
  with poll have "st' = st \<or> (\<exists>res. redirect_response R st res = (st', Waiting))"
    by (simp add: redirect_poll_def split: poll.split_asm sum.split_asm) blast
  then show ?thesis
  proof (elim disjE exE)
    fix res assume "redirect_response R st res = (st', Waiting)"
    from redirect_response_waiting_state [OF this] obtain req1 repr1 repr2 b pd where
      rw: "rewrite_request (rs_status res) (rd_request st) (rd_repr st) = Some (req1, repr1)" and
      tk: "repr_take repr1 = (repr2, Some b)" and
      s: "pd_body pd = b" "rd_request st' = req1" "rd_repr st' = repr2" "rd_pending st' = Some pd"
      by blast
    show ?thesis
    proof (cases "repr1 = BEmpty \<and> dropped_payload req1")
      case True
      with tk s show ?thesis by (auto intro: dropped_body_inv)
    next
      case False
      with rewrite_request_body [OF rw] inv None
      have k: "repr1 = (case reusable body of Some c \<Rightarrow> BSome c | None \<Rightarrow> BNone)" "rq_method req1 = m"
        unfolding rd_body_inv_def by auto
      with tk have "reusable body = Some b" "repr2 = BNone"
        by (auto split: option.split_asm)
      with s k(2) show ?thesis by (auto intro!: kept_body_inv)
    qed
  qed (use inv in simp)
qed

lemma run_sent_ok:
  assumes "rd_body_inv body m st"
  shows "\<forall>x \<in> set (fst (redirect_run R st evs)). sent_ok body m x"
  using assms
proof (induction evs arbitrary: st)
  case (Cons ev evs)
  obtain st' out where p: "redirect_poll R st ev = (st', out)" by fastforce
  show ?case
  proof (cases out)
    case Waiting
    with p Cons.IH [of st'] waiting_body_inv [OF p [unfolded Waiting] Cons.prems] show ?thesis by simp
  next
    case (Send r b)
    with p Cons.IH [of st'] send_body_inv [OF p [unfolded Send] Cons.prems] show ?thesis
      by (simp add: split_beta)
  qed (use p in simp_all)
qed simp

text \<open>C38: what redirects do to method and body.  Every followed request either repeats the caller's
  method with the caller's body (a body that is empty may be replaced by the empty body; a stream
  that cannot be copied is never repeated), or it is a \<^verbatim>\<open>GET\<close> or \<^verbatim>\<open>HEAD\<close> with an empty body and
  without \<^verbatim>\<open>Content-Type\<close>, \<^verbatim>\<open>Content-Length\<close>, \<^verbatim>\<open>Content-Encoding\<close> and \<^verbatim>\<open>Transfer-Encoding\<close>.  In
  one step, 307 and 308 keep the method, 303 turns everything but \<^verbatim>\<open>HEAD\<close> into \<^verbatim>\<open>GET\<close>, 301 and 302
  turn exactly \<^verbatim>\<open>POST\<close> into \<^verbatim>\<open>GET\<close>.\<close>

theorem redirect_method_and_body:
  assumes "redirect_exec R (client_redirect_policy p rf ho) req body evs = (sent, out)"
  shows "(\<forall>j. 0 < j \<and> j < length sent \<longrightarrow> sent_ok body (rq_method req) (sent ! j)) \<and>
         (redirect_poll R st (Ready (Inr res)) = (st', Send r b) \<and> rd_pending st = None \<longrightarrow>
            rq_method r =
              (if rs_status res = 303 \<and> rq_method (rd_request st) \<noteq> ''HEAD'' \<or>
                  rs_status res \<in> {301, 302} \<and> rq_method (rd_request st) = ''POST''
               then ''GET'' else rq_method (rd_request st)))"
proof
  from assms show "\<forall>j. 0 < j \<and> j < length sent \<longrightarrow> sent_ok body (rq_method req) (sent ! j)"
  proof (cases rule: exec_cases)
    case (redirect st r sent')
    note c = call_redirect [OF redirect(3)]
    from c(2,3,8,10) have "rd_body_inv body (rq_method req) st"
      by (auto simp: repr_initial simp del: repr_try_clone_from.simps intro!: kept_body_inv)
    from run_sent_ok [OF this, of R evs] redirect(2)
    have "\<forall>x \<in> set sent'. sent_ok body (rq_method req) x" by simp
    with redirect(1) show ?thesis by (auto simp: nth_Cons split: nat.splits)
  qed simp
  show "redirect_poll R st (Ready (Inr res)) = (st', Send r b) \<and> rd_pending st = None \<longrightarrow>
            rq_method r =
              (if rs_status res = 303 \<and> rq_method (rd_request st) \<noteq> ''HEAD'' \<or>
                  rs_status res \<in> {301, 302} \<and> rq_method (rd_request st) = ''POST''
               then ''GET'' else rq_method (rd_request st))"
  proof
    assume a: "redirect_poll R st (Ready (Inr res)) = (st', Send r b) \<and> rd_pending st = None"
    then have "redirect_response R st res = (st', Send r b)" by (auto simp: redirect_poll_def)
    from redirect_response_send [OF this] obtain req1 repr1 location fp where
      rw: "rewrite_request (rs_status res) (rd_request st) (rd_repr st) = Some (req1, repr1)" and
      oreq: "follow_on_request (rl_url R) fp (req1\<lparr>rq_uri := location\<rparr>) = (rd_policy st', r)"
      by blast
    from on_request_props(6) [OF oreq] rw show "rq_method r =
              (if rs_status res = 303 \<and> rq_method (rd_request st) \<noteq> ''HEAD'' \<or>
                  rs_status res \<in> {301, 302} \<and> rq_method (rd_request st) = ''POST''
               then ''GET'' else rq_method (rd_request st))"
      by (auto simp: rewrite_request_def split: if_split_asm)
  qed
qed

theorem redirect_method_and_body_witness:
  "sent_ok (Full ''data'') ''GET'' (fst (sample_exec (Limit 10) True) ! 2)"
proof -
  have "2 < length (fst (sample_exec (Limit 10) True))" by code_simp
  moreover have "rq_method sample_request = ''GET''" by (simp add: sample_request_def)
  ultimately show ?thesis
    using redirect_method_and_body [OF sample_exec_eq [of "Limit 10" True]] by fastforce
qed

section \<open>History\<close>

definition redirect_status :: "nat \<Rightarrow> bool" where
  "redirect_status s \<longleftrightarrow> s \<in> {301, 302, 303, 307, 308}"

definition history_of :: "uri list \<Rightarrow> history_entry list option \<Rightarrow> bool" where
  "history_of uris h \<longleftrightarrow>
     (if length uris = 1 then h = None
      else (\<exists>es. h = Some es \<and> map he_previous es = butlast uris \<and> map he_uri es = tl uris))"

definition rd_hist_inv :: "('u, 'o) redirect_state \<Rightarrow> bool" where
  "rd_hist_inv st \<longleftrightarrow>
     rd_pending st = None \<and>
     history_of (rd_prevs st @ [rq_uri (rd_request st)]) (fp_history (rd_policy st))"

lemma follow_redirect_history:
  assumes "follow_redirect L fp status headers location previous = (fp', Inr Follow)"
  shows "fp_history fp' = Some ((case fp_history fp of None \<Rightarrow> [] | Some h \<Rightarrow> h) @
     [\<lparr>he_status = status, he_uri = location, he_previous = previous, he_headers = headers\<rparr>])"
proof -
  from follow_redirect_follow(1) [OF assms] obtain p where
    p: "fp_policy fp = Some p" "policy_check p status headers location (fp_uris fp @ [previous]) = Follow"
    by blast
  then have "\<not> is_none_policy p"
    by (auto simp: is_none_policy_def policy_check_def policy_redirect_def split: policy.splits)
  with assms p show ?thesis
    by (auto simp: follow_redirect_def Let_def split: if_split_asm)
qed

lemma history_of_extend:
  assumes "history_of uris h" "uris \<noteq> []" "he_previous e = last uris"
  shows "history_of (uris @ [he_uri e]) (Some ((case h of None \<Rightarrow> [] | Some es \<Rightarrow> es) @ [e]))"
proof (cases "length uris = 1")
  case True
  with assms show ?thesis by (auto simp: history_of_def length_Suc_conv)
next
  case False
  with assms obtain es where "h = Some es" "map he_previous es = butlast uris" "map he_uri es = tl uris"
    by (auto simp: history_of_def)
  with assms(2,3) show ?thesis
    by (simp add: history_of_def append_butlast_last_id)
qed

lemma send_hist_inv:
  assumes poll: "redirect_poll R st ev = (st', Send r b)" and inv: "rd_hist_inv st"
  shows "rd_hist_inv st' \<and> rd_prevs st' = rd_prevs st @ [rq_uri (rd_request st)]"
proof -
  from inv have n: "rd_pending st = None" by (simp add: rd_hist_inv_def)
  then have i: "rd_inv st" by (simp add: rd_inv_def)
  note s = redirect_poll_send [OF poll i]
  from poll n obtain res where "redirect_response R st res = (st', Send r b)"
    by (auto simp: redirect_poll_def split: poll.splits sum.splits)
  from redirect_response_send [OF this] obtain req1 repr1 location fp where
    rw: "rewrite_request (rs_status res) (rd_request st) (rd_repr st) = Some (req1, repr1)" and
    fr: "follow_redirect (rl_url R) (rd_policy st) (rs_status res) (rs_headers res) location
      (rq_uri req1) = (fp, Inr Follow)" and
    oreq: "follow_on_request (rl_url R) fp (req1\<lparr>rq_uri := location\<rparr>) = (rd_policy st', r)"
    by blast
  let ?e = "\<lparr>he_status = rs_status res, he_uri = location, he_previous = rq_uri req1,
    he_headers = rs_headers res\<rparr>"
  from inv have "history_of (rd_prevs st @ [rq_uri (rd_request st)]) (fp_history (rd_policy st))"
    by (simp add: rd_hist_inv_def)
  from history_of_extend [OF this, of ?e] follow_redirect_history [OF fr] on_request_props(4,5) [OF oreq]
    rewrite_request_props(1) [OF rw] s
  show ?thesis by (simp add: rd_hist_inv_def rd_prevs_def)
qed

lemma final_response:
  assumes "redirect_poll R st ev = (st', Resolved (Inr res))" "rd_pending st = None"
    "\<not> redirect_status (rs_status res)" "\<And>r. ev = Ready (Inr r) \<Longrightarrow> rs_history r = None"
  shows "rs_history res = fp_history (rd_policy st) \<and> rs_uri res = Some (rq_uri (rd_request st))"
proof -
  from assms(1,2) obtain res0 where ev: "ev = Ready (Inr res0)"
    and r: "redirect_response R st res0 = (st', Resolved (Inr res))"
    by (auto simp: redirect_poll_def split: poll.splits sum.splits)
  have st: "rs_status res = rs_status res0"
    using r by (auto simp: redirect_response_def Let_def handle_action_def follow_on_response_def
        split: option.split_asm prod.split_asm sum.split_asm action.split_asm)
  with assms(3) have "rewrite_request (rs_status res0) (rd_request st) (rd_repr st) = None"
    by (simp add: rewrite_request_def redirect_status_def)
  with r assms(4) [OF ev] show ?thesis
    by (cases "fp_history (rd_policy st)")
       (auto simp: redirect_response_def follow_on_response_def Let_def)
qed

lemma run_history:
  assumes "rd_hist_inv st" "fp_policy (rd_policy st) = Some q" "decides_now q"
    and "redirect_run R st evs = (sent, Resolved (Inr res))"
    and "\<not> redirect_status (rs_status res)"
    and "\<forall>r. Ready (Inr r) \<in> set evs \<longrightarrow> rs_history r = None"
  shows "let uris = rd_prevs st @ [rq_uri (rd_request st)] @ map (rq_uri \<circ> fst) sent
         in history_of uris (rs_history res) \<and> rs_uri res = Some (last uris)"
  using assms(1,2,4,6)
proof (induction evs arbitrary: st sent)
  case (Cons ev evs)
  obtain st' out where p: "redirect_poll R st ev = (st', out)" by fastforce
  have n: "rd_pending st = None" using Cons.prems by (simp add: rd_hist_inv_def)
  show ?case
  proof (cases out)
    case Waiting
    with p Cons.prems assms(3) waiting_not_pending [OF p [unfolded Waiting] n] have "st' = st" by simp
    with p Waiting Cons show ?thesis by simp
  next
    case (Send r b)
    note s = redirect_poll_send [OF p [unfolded Send]] and h = send_hist_inv [OF p [unfolded Send] Cons.prems(1)]
    have i: "rd_inv st" using n by (simp add: rd_inv_def)
    from Cons.prems(3) p Send obtain sent' where
      sent: "sent = (r, b) # sent'" "redirect_run R st' evs = (sent', Resolved (Inr res))"
      by (auto split: prod.splits)
    from Cons.IH [of st' sent'] h s(1,4) [OF i] Cons.prems(2,4) sent show ?thesis by simp
  next
    case (Resolved x)
    with p Cons.prems(3) have x: "x = Inr res" "sent = []" by auto
    from final_response [OF p [unfolded Resolved x(1)] n assms(5)] Cons.prems(1,4) x
    show ?thesis by (simp add: rd_hist_inv_def)
  qed (use p Cons.prems in simp)
qed simp

text \<open>C35: the redirect history.  Redirects are switched on with a policy that decides at once, the
  responses of the servers bring no history of their own, and the chain ends in a response whose
  status is no redirect.  Then the response names the URI it was served from, and its history is
  exactly the chain: one entry per followed redirect, each leading from one requested URI to the
  next, and none when nothing was followed.  Nothing is claimed of a chain that ends in a redirect
  response returned as it is.\<close>

theorem history_is_the_chain:
  assumes "redirect_exec R (client_redirect_policy p rf ho) req body evs = (sent, Resolved (Inr res))"
    and "effective_policy p req = Some q" "decides_now q" "\<not> is_none_policy q"
    and "\<not> redirect_status (rs_status res)"
    and "\<forall>r. Ready (Inr r) \<in> set evs \<longrightarrow> rs_history r = None"
  shows "history_of (map (rq_uri \<circ> fst) sent) (rs_history res) \<and>
         rs_uri res = Some (rq_uri (fst (last sent)))"
proof -
  from assms(1) show ?thesis
  proof (cases rule: exec_cases)
    case (direct r)
    obtain q' slot where l: "rc_load (Some p) (ext_redirect (rq_ext req)) = (q', slot)" by fastforce
    from rc_load_fetch [of "Some p" "ext_redirect (rq_ext req)"] l assms(2)
    have "q' = Some q" by (simp add: effective_policy_def)
    with direct(3) assms(4) show ?thesis
      by (simp add: redirect_call_def follow_for_request_def l Let_def split: prod.split_asm)
  next
    case (redirect st r sent')
    note c = call_redirect [OF redirect(3)]
    have "rd_hist_inv st" using c(3,4,7) by (simp add: rd_hist_inv_def history_of_def)
    from run_history [OF this _ assms(3) redirect(2) assms(5,6)] c(2,4,5) assms(2) redirect(1)
    show ?thesis by (simp add: last_map)
  qed
qed

theorem history_is_the_chain_witness:
  "history_of [sample_uri ''https'' ''a'' ''/'', sample_uri ''https'' ''a'' ''/next'',
               sample_uri ''https'' ''b'' ''/'']
     (case snd (sample_exec (Limit 10) True) of Resolved (Inr res) \<Rightarrow> rs_history res | _ \<Rightarrow> None)"
proof -
  obtain res where res: "snd (sample_exec (Limit 10) True) = Resolved (Inr res)"
    and s: "rs_status res = 200"
  proof -
    have "case snd (sample_exec (Limit 10) True) of Resolved (Inr res) \<Rightarrow> rs_status res = 200 | _ \<Rightarrow> False"
      by code_simp
    then show ?thesis using that by (auto split: redirect_out.split_asm sum.split_asm)
  qed
  have u: "map (rq_uri \<circ> fst) (fst (sample_exec (Limit 10) True)) =
     [sample_uri ''https'' ''a'' ''/'', sample_uri ''https'' ''a'' ''/next'', sample_uri ''https'' ''b'' ''/'']"
    by code_simp
  have "\<forall>r. Ready (Inr r) \<in> set sample_events \<longrightarrow> rs_history r = None"
    by (auto simp: sample_events_def sample_response_def)
  from history_is_the_chain [OF sample_exec_eq [of "Limit 10" True, unfolded res] sample_effective
      decides_now_builtin(1) _ _ this] s u res
  show ?thesis by (simp add: redirect_status_def is_none_policy_def)
qed

text \<open>The history is attached only to a response that is no redirect: when a chain stops at a
  redirect without a usable location, the redirects followed before are not reported.\<close>

theorem history_lost_without_location:
  "case redirect_exec sample_redirect_lib (client_redirect_policy (Limit 10) True True) sample_request
     (Full ''data'') [Ready (Inr (sample_response 302 ''A'')), Ready (Inr (sample_response 302 []))]
   of (sent, out) \<Rightarrow>
     length sent = 2 \<and> (case out of Resolved (Inr res) \<Rightarrow> rs_history res = None | _ \<Rightarrow> False)"
  by code_simp

section \<open>The referrer of a followed request\<close>

lemma referer_after:
  "hdr_get (hdr_remove n x) n = None" "hdr_get (hdr_insert n w x) n = Some w"
  by (simp_all add: hdr_get_def hash_simps)

lemma decision_facts:
  assumes "referrer_decision p same down = Some strip"
  shows "\<not> strip \<Longrightarrow> p \<in> {UnsafeUrl, NoReferrerWhenDowngrade} \<or> same \<and> p \<notin> {Origin, StrictOrigin}"
    "p \<noteq> NoReferrer" "p = SameOrigin \<Longrightarrow> same"
    "p \<in> {NoReferrerWhenDowngrade, StrictOrigin} \<Longrightarrow> \<not> down"
    "p \<in> {StrictOriginWhenCrossOrigin, NonePolicy} \<Longrightarrow> \<not> (down \<and> \<not> same)"
  using assms by (cases p; auto simp: referrer_decision_def split: if_split_asm)+

lemma referrer_apply_result:
  assumes "referrer_apply L r dest h = (r', h')" "rf_source r = Some src" "ul_scheme L src = Some sch"
  shows "hdr_get h' ''referer'' = None \<and> rf_source r' = None \<or>
    (\<exists>strip. referrer_decision (rf_policy r) (referrer_same_origin L src sch dest)
        (sch = ''https'' \<and> uri_scheme dest = Some ''http'') = Some strip \<and>
      hdr_get h' ''referer'' =
        Some \<lparr>hv_bytes = ul_as_str L (if strip then strip_to_origin_url L src else src),
              hv_sensitive = (case hdr_get h ''referer'' of Some x \<Rightarrow> hv_sensitive x | None \<Rightarrow> False)\<rparr> \<and>
      rf_source r' = Some (if strip then strip_to_origin_url L src else src))"
  using assms
  by (cases "referrer_decision (rf_policy r) (referrer_same_origin L src sch dest)
        (sch = ''https'' \<and> uri_scheme dest = Some ''http'')")
     (auto simp: referrer_apply_def Let_def referer_after split: if_split_asm)

text \<open>C39: the \<^verbatim>\<open>Referer\<close> header of a followed request.  Whatever is sent is the caller's own referrer or
  its origin, with the caller's sensitivity flag: a redirect never makes the client reveal a URI of
  the chain.  Across origins the default policy sends at most the origin and, from https to http,
  nothing; the strict and same-origin policies send nothing where they forbid it; and \<^verbatim>\<open>no-referrer\<close>
  sends nothing at all.  A referrer once withheld or stripped stays so.\<close>

theorem referrer_policy_respected:
  assumes "referrer_apply L r dest h = (r', h')"
  defines "v \<equiv> hdr_get h' ''referer''"
  shows "(rf_source r = None \<longrightarrow> v = None \<and> rf_source r' = None) \<and>
         (\<forall>src sch. rf_source r = Some src \<and> ul_scheme L src = Some sch \<longrightarrow>
            (let same = referrer_same_origin L src sch dest;
                 downgrade = (sch = ''https'' \<and> uri_scheme dest = Some ''http'')
             in (v \<noteq> None \<longrightarrow>
                   (\<exists>s \<in> {src, strip_to_origin_url L src}.
                      v = Some \<lparr>hv_bytes = ul_as_str L s,
                                hv_sensitive = (case hdr_get h ''referer'' of
                                                  Some x \<Rightarrow> hv_sensitive x | None \<Rightarrow> False)\<rparr> \<and>
                      rf_source r' = Some s \<and>
                      (s \<noteq> strip_to_origin_url L src \<longrightarrow>
                         rf_policy r \<in> {UnsafeUrl, NoReferrerWhenDowngrade} \<or>
                         same \<and> rf_policy r \<notin> {Origin, StrictOrigin}))) \<and>
                (v = None \<longrightarrow> rf_source r' = None) \<and>
                (rf_policy r = NoReferrer \<longrightarrow> v = None) \<and>
                (rf_policy r = SameOrigin \<and> \<not> same \<longrightarrow> v = None) \<and>
                (downgrade \<and> rf_policy r \<in> {NoReferrerWhenDowngrade, StrictOrigin} \<longrightarrow> v = None) \<and>
                (downgrade \<and> \<not> same \<and> rf_policy r \<in> {StrictOriginWhenCrossOrigin, NonePolicy} \<longrightarrow>
                   v = None)))"
proof (intro conjI allI impI)
  show "v = None" "rf_source r' = None" if "rf_source r = None"
    using assms(1) that by (auto simp: referrer_apply_def Let_def v_def referer_after)
  fix src sch
  assume "rf_source r = Some src \<and> ul_scheme L src = Some sch"
  then have src: "rf_source r = Some src" "ul_scheme L src = Some sch" by blast+
  let ?same = "referrer_same_origin L src sch dest"
  let ?down = "sch = ''https'' \<and> uri_scheme dest = Some ''http''"
  let ?sens = "case hdr_get h ''referer'' of Some x \<Rightarrow> hv_sensitive x | None \<Rightarrow> False"
  from referrer_apply_result [OF assms(1) src, folded v_def]
  show "let same = ?same; downgrade = ?down
     in (v \<noteq> None \<longrightarrow>
           (\<exists>s \<in> {src, strip_to_origin_url L src}.
              v = Some \<lparr>hv_bytes = ul_as_str L s, hv_sensitive = ?sens\<rparr> \<and>
              rf_source r' = Some s \<and>
              (s \<noteq> strip_to_origin_url L src \<longrightarrow>
                 rf_policy r \<in> {UnsafeUrl, NoReferrerWhenDowngrade} \<or>
                 same \<and> rf_policy r \<notin> {Origin, StrictOrigin}))) \<and>
        (v = None \<longrightarrow> rf_source r' = None) \<and>
        (rf_policy r = NoReferrer \<longrightarrow> v = None) \<and>
        (rf_policy r = SameOrigin \<and> \<not> same \<longrightarrow> v = None) \<and>
        (downgrade \<and> rf_policy r \<in> {NoReferrerWhenDowngrade, StrictOrigin} \<longrightarrow> v = None) \<and>
        (downgrade \<and> \<not> same \<and> rf_policy r \<in> {StrictOriginWhenCrossOrigin, NonePolicy} \<longrightarrow> v = None)"
  proof (elim disjE exE conjE)
    assume "v = None" "rf_source r' = None"
    then show ?thesis by (simp add: Let_def)
  next
    fix strip
    assume d: "referrer_decision (rf_policy r) ?same ?down = Some strip"
      and "v = Some \<lparr>hv_bytes = ul_as_str L (if strip then strip_to_origin_url L src else src),
        hv_sensitive = ?sens\<rparr>" "rf_source r' = Some (if strip then strip_to_origin_url L src else src)"
    with decision_facts [OF d] show ?thesis
      unfolding Let_def by (cases strip) auto
  qed
qed

theorem referrer_policy_respected_witness:
  "hdr_get (snd (referrer_apply sample_url_lib
       (referrer_new sample_url_lib (rq_headers sample_request)) (sample_uri ''http'' ''b'' ''/'')
       (rq_headers sample_request))) ''referer'' = None"
proof -
  let ?r = "referrer_new sample_url_lib (rq_headers sample_request)"
  obtain r' h' where a: "referrer_apply sample_url_lib ?r (sample_uri ''http'' ''b'' ''/'')
      (rq_headers sample_request) = (r', h')" by fastforce
  have "rf_source ?r = Some ''https://a/secret''" "ul_scheme sample_url_lib ''https://a/secret'' = Some ''https''"
    "\<not> referrer_same_origin sample_url_lib ''https://a/secret'' ''https'' (sample_uri ''http'' ''b'' ''/'')"
    "uri_scheme (sample_uri ''http'' ''b'' ''/'') = Some ''http''"
    "rf_policy ?r = StrictOriginWhenCrossOrigin"
    by code_simp+
  with referrer_policy_respected [OF a] a show ?thesis by (simp add: Let_def)
qed

end
