(* ===== verification/Config_Layer.thy ===== *)
theory Config_Layer
  imports Request_Model
begin

text \<open>
  The outermost client middleware of \<^verbatim>\<open>src/src/client/layer/config.rs\<close>: the scheme check, the default
  headers and the original header spelling of a request.
\<close>

record config =
  cf_https_only :: bool
  cf_headers :: header_map
  cf_orig_headers :: "orig_header_map request_config"
  cf_default_headers :: "bool request_config"

definition config_new :: "bool \<Rightarrow> header_map \<Rightarrow> orig_header_map \<Rightarrow> config" where
  "config_new https_only headers orig =
     \<lparr>cf_https_only = https_only, cf_headers = headers,
      cf_orig_headers = (if orig = [] then None else Some orig),
      cf_default_headers = Some True\<rparr>"

text \<open>\<open>None\<close> is the \<^verbatim>\<open>unreachable!\<close> of \<^verbatim>\<open>replace_headers\<close>; \<open>Inl\<close> is the ready error, \<open>Inr\<close> the request
  passed on to the inner service.\<close>

definition config_call ::
  "config \<Rightarrow> ('p, 'o) request \<Rightarrow> (error, ('p, 'o) request) result option"
where
  "config_call cf req =
     (let u = rq_uri req
      in if \<not> (is_http u \<or> is_https u) \<or> cf_https_only cf \<and> \<not> is_https u
         then Some (Inl (uri_bad_scheme u))
         else
           Option.bind
             (if (case rc_fetch (cf_default_headers cf) (ext_default_headers (rq_ext req)) of
                    Some b \<Rightarrow> b | None \<Rightarrow> False)
              then map_option (\<lambda>h. req\<lparr>rq_headers := h\<rparr>) (replace_headers (cf_headers cf) (rq_headers req))
              else Some req)
             (\<lambda>req1.
                let (orig, slot) = rc_take (cf_orig_headers cf) (ext_orig_headers (rq_ext req1));
                    ext1 = (rq_ext req1)\<lparr>ext_orig_headers := slot\<rparr>
                in Some (Inr (req1\<lparr>rq_ext := (case orig of
                                              Some m \<Rightarrow> ext1\<lparr>ext_preserve := Some m\<rparr>
                                            | None \<Rightarrow> ext1)\<rparr>))))"

lemma config_call_ok:
  assumes "hdr_wf (rq_headers req)"
  shows "if \<not> (is_http (rq_uri req) \<or> is_https (rq_uri req)) \<or>
            cf_https_only cf \<and> \<not> is_https (rq_uri req)
         then config_call cf req = Some (Inl (uri_bad_scheme (rq_uri req)))
         else \<exists>req'. config_call cf req = Some (Inr req') \<and>
                rq_method req' = rq_method req \<and> rq_uri req' = rq_uri req \<and>
                rq_version req' = rq_version req \<and>
                (\<forall>n. hdr_get_all (rq_headers req') n =
                   (if \<not> hdr_contains (rq_headers req) n \<and>
                       rc_fetch (cf_default_headers cf) (ext_default_headers (rq_ext req)) = Some True
                    then hdr_get_all (cf_headers cf) n else hdr_get_all (rq_headers req) n)) \<and>
                (case ext_orig_headers (rq_ext req) of
                   Some (Some m) \<Rightarrow> ext_preserve (rq_ext req') = Some m
                 | Some None \<Rightarrow> ext_preserve (rq_ext req') = ext_preserve (rq_ext req)
                 | None \<Rightarrow> cf_orig_headers cf \<noteq> None \<longrightarrow> ext_preserve (rq_ext req') = cf_orig_headers cf)"
proof (cases "\<not> (is_http (rq_uri req) \<or> is_https (rq_uri req)) \<or>
            cf_https_only cf \<and> \<not> is_https (rq_uri req)")
  case True
  then show ?thesis by (auto simp: config_call_def Let_def)
next
  case ok: False
  obtain d where d: "replace_headers (cf_headers cf) (rq_headers req) = Some d"
    "\<forall>n. hdr_get_all d n = (if hdr_contains (rq_headers req) n then hdr_get_all (rq_headers req) n
       else hdr_get_all (cf_headers cf) n)"
    using replace_headers_values [OF assms] by blast
  have e: "\<not> hdr_contains h n \<Longrightarrow> hdr_get_all h n = []" for h :: header_map and n
    by (simp add: hdr_contains_def)
  show ?thesis
    using ok d e
    by (auto simp: config_call_def rc_take_def Let_def split: option.split bool.split)
qed

text \<open>C40: the configuration layer.  A request whose scheme is not http or https, or not https under
  HTTPS-only, is answered with the bad-scheme error that carries its URI and never passed on.  Every
  other request is passed on with its method, URI and version; a header the request has keeps exactly
  its own values and a default header is added only when the request lacks it and has not switched
  the defaults off; the header spelling of the request, or else of the client, is attached.\<close>

theorem config_layer_spec:
  assumes "hdr_wf (rq_headers req)"
  shows "if \<not> (is_http (rq_uri req) \<or> is_https (rq_uri req)) \<or>
            cf_https_only cf \<and> \<not> is_https (rq_uri req)
         then config_call cf req = Some (Inl (uri_bad_scheme (rq_uri req)))
         else \<exists>req'. config_call cf req = Some (Inr req') \<and>
                rq_method req' = rq_method req \<and> rq_uri req' = rq_uri req \<and>
                rq_version req' = rq_version req \<and>
                (\<forall>n. hdr_get_all (rq_headers req') n =
                   (if \<not> hdr_contains (rq_headers req) n \<and>
                       rc_fetch (cf_default_headers cf) (ext_default_headers (rq_ext req)) = Some True
                    then hdr_get_all (cf_headers cf) n else hdr_get_all (rq_headers req) n)) \<and>
                (case ext_orig_headers (rq_ext req) of
                   Some (Some m) \<Rightarrow> ext_preserve (rq_ext req') = Some m
                 | Some None \<Rightarrow> ext_preserve (rq_ext req') = ext_preserve (rq_ext req)
                 | None \<Rightarrow> cf_orig_headers cf \<noteq> None \<longrightarrow> ext_preserve (rq_ext req') = cf_orig_headers cf)"
  using assms by (rule config_call_ok)

definition sample_config :: config where
  "sample_config =
     config_new True [(''accept'', [\<lparr>hv_bytes = ''*'', hv_sensitive = False\<rparr>])] [(''b'', [Cased ''B''])]"

theorem config_layer_spec_witness:
  "config_call sample_config
     \<lparr>rq_method = ''GET'', rq_uri = \<lparr>uri_scheme = Some ''http'', uri_authority = None, uri_pq = None\<rparr>,
      rq_version = HTTP_11, rq_headers = [],
      rq_ext = \<lparr>ext_redirect = None :: unit slot, ext_options = None :: unit slot, ext_timeout = None,
        ext_default_headers = None, ext_orig_headers = None, ext_preserve = None, ext_cookie_store = None, ext_accept_encoding = None\<rparr>\<rparr> =
   Some (Inl (uri_bad_scheme \<lparr>uri_scheme = Some ''http'', uri_authority = None, uri_pq = None\<rparr>))"
proof -
  have "cf_https_only sample_config" by (simp add: sample_config_def config_new_def)
  with config_layer_spec [of "\<lparr>rq_method = ''GET'',
      rq_uri = \<lparr>uri_scheme = Some ''http'', uri_authority = None, uri_pq = None\<rparr>,
      rq_version = HTTP_11, rq_headers = [],
      rq_ext = \<lparr>ext_redirect = None :: unit slot, ext_options = None :: unit slot, ext_timeout = None,
        ext_default_headers = None, ext_orig_headers = None, ext_preserve = None, ext_cookie_store = None, ext_accept_encoding = None\<rparr>\<rparr>" sample_config]
  show ?thesis by (simp add: is_http_def is_https_def)
qed

end
