(* ===== verification/Timeouts.thy ===== *)
theory Timeouts
  imports Request_Model
begin

text \<open>
  The timeout middleware of \<^verbatim>\<open>src/src/client/layer/timeout.rs\<close>, its response future
  (\<^verbatim>\<open>timeout/future.rs\<close>) and its response body (\<^verbatim>\<open>timeout/body.rs\<close>).

  Time is a natural number.  A sleep is the deadline it was armed with; polling it at a time is ready
  once the deadline is reached.  Each poll takes the clock reading and what the inner future or body
  returns.
\<close>

section \<open>Options\<close>

definition fetch_timeout_options ::
  "timeout_options request_config \<Rightarrow> timeout_options slot \<Rightarrow> nat option \<times> nat option"
where
  "fetch_timeout_options opts ext =
     (case (opts, rc_fetch opts ext) of
        (Some o1, Some r) \<Rightarrow>
          (case to_total r of Some t \<Rightarrow> Some t | None \<Rightarrow> to_total o1,
           case to_read r of Some t \<Rightarrow> Some t | None \<Rightarrow> to_read o1)
      | (Some o1, None) \<Rightarrow> (to_total o1, to_read o1)
      | (None, Some o2) \<Rightarrow> (to_total o2, to_read o2)
      | (None, None) \<Rightarrow> (None, None))"

section \<open>The response future\<close>

record timeout_future =
  tf_read_timeout :: "nat option"
  tf_read_fut :: "nat option"
  tf_total_fut :: "nat option"

definition sleep_ready :: "nat option \<Rightarrow> nat \<Rightarrow> bool" where
  "sleep_ready s now \<longleftrightarrow> (case s of Some d \<Rightarrow> d \<le> now | None \<Rightarrow> False)"

definition timeout_call ::
  "timeout_options request_config \<Rightarrow> ('p, 'o) request \<Rightarrow> nat \<Rightarrow> timeout_future"
where
  "timeout_call opts req now =
     (let (tot, read) = fetch_timeout_options opts (ext_timeout (rq_ext req))
      in \<lparr>tf_read_timeout = read,
          tf_read_fut = map_option (\<lambda>t. now + t) read,
          tf_total_fut = map_option (\<lambda>t. now + t) tot\<rparr>)"

record read_body =
  rb_sleep :: "nat option"
  rb_armed :: bool
  rb_timeout :: nat

datatype timeout_body =
    Plain
  | TotalTimeout nat
  | ReadTimeout read_body
  | CombinedTimeout nat read_body

definition timeout_body_new :: "nat option \<Rightarrow> nat option \<Rightarrow> timeout_body" where
  "timeout_body_new read_timeout total_timeout =
     (case (total_timeout, read_timeout) of
        (Some tot, Some read) \<Rightarrow>
          CombinedTimeout tot \<lparr>rb_sleep = None, rb_armed = False, rb_timeout = read\<rparr>
      | (Some tot, None) \<Rightarrow> TotalTimeout tot
      | (None, Some read) \<Rightarrow> ReadTimeout \<lparr>rb_sleep = None, rb_armed = False, rb_timeout = read\<rparr>
      | (None, None) \<Rightarrow> Plain)"

definition timeout_poll ::
  "timeout_future \<Rightarrow> nat \<Rightarrow> (error, response) result poll \<Rightarrow>
   (error, response \<times> timeout_body) result poll"
where
  "timeout_poll tf now inner =
     (if sleep_ready (tf_total_fut tf) now then Ready (Inl (err_request TimedOut))
      else if sleep_ready (tf_read_fut tf) now then Ready (Inl (err_request TimedOut))
      else (case inner of
              NotReady \<Rightarrow> NotReady
            | Ready (Inl e) \<Rightarrow> Ready (Inl e)
            | Ready (Inr res) \<Rightarrow>
                Ready (Inr (res, timeout_body_new (tf_read_timeout tf) (tf_total_fut tf)))))"

section \<open>The response body\<close>

type_synonym frame_poll = "(error, string) result option poll"

fun poll_and_map_body :: "frame_poll \<Rightarrow> frame_poll" where
  "poll_and_map_body (Ready (Some (Inl e))) = Ready (Some (Inl (err_decode e)))"
| "poll_and_map_body p = p"

definition read_poll_frame :: "read_body \<Rightarrow> nat \<Rightarrow> frame_poll \<Rightarrow> read_body \<times> frame_poll" where
  "read_poll_frame rb now inner =
     (let rb1 = (if \<not> rb_armed rb then rb\<lparr>rb_sleep := Some (now + rb_timeout rb), rb_armed := True\<rparr>
                 else rb)
      in if sleep_ready (rb_sleep rb1) now then (rb1, Ready (Some (Inl (err_body TimedOut))))
         else (case inner of
                 NotReady \<Rightarrow> (rb1, NotReady)
               | Ready fr \<Rightarrow> (rb1\<lparr>rb_armed := False\<rparr>, Ready fr)))"

definition total_poll_frame :: "nat \<Rightarrow> nat \<Rightarrow> frame_poll \<Rightarrow> frame_poll" where
  "total_poll_frame deadline now inner =
     (if deadline \<le> now then Ready (Some (Inl (err_body TimedOut))) else poll_and_map_body inner)"

declare total_poll_frame_def [simp]

fun timeout_poll_frame :: "timeout_body \<Rightarrow> nat \<Rightarrow> frame_poll \<Rightarrow> timeout_body \<times> frame_poll" where
  "timeout_poll_frame Plain now inner = (Plain, poll_and_map_body inner)"
| "timeout_poll_frame (TotalTimeout d) now inner =
     (TotalTimeout d, total_poll_frame d now inner)"
| "timeout_poll_frame (ReadTimeout rb) now inner =
     (case read_poll_frame rb now inner of (rb', p) \<Rightarrow> (ReadTimeout rb', p))"
| "timeout_poll_frame (CombinedTimeout d rb) now inner =
     (case (if d \<le> now then (rb, NotReady) else read_poll_frame rb now inner) of
        (rb', p) \<Rightarrow> (CombinedTimeout d rb', total_poll_frame d now p))"

text \<open>A sequence of polls of the body, with the clock readings and the inner results.\<close>

fun body_run :: "timeout_body \<Rightarrow> (nat \<times> frame_poll) list \<Rightarrow> timeout_body \<times> frame_poll list" where
  "body_run tb [] = (tb, [])"
| "body_run tb ((now, inner) # ps) =
     (case timeout_poll_frame tb now inner of
        (tb', out) \<Rightarrow> (case body_run tb' ps of (tb'', outs) \<Rightarrow> (tb'', out # outs)))"

fun frame_timed_out :: "frame_poll \<Rightarrow> bool" where
  "frame_timed_out (Ready (Some (Inl e))) = is_timeout e"
| "frame_timed_out _ = False"

section \<open>Properties\<close>

lemma timed_out_visible:
  "is_timeout (err_request TimedOut)" "is_timeout (err_body TimedOut)"
  "is_timeout (err_decode (err_body TimedOut))"
  by (simp_all add: is_timeout_def err_request_def err_body_def err_decode_def err_new_def chain_simps)

definition total_deadline :: "timeout_body \<Rightarrow> nat option" where
  "total_deadline tb =
     (case tb of TotalTimeout d \<Rightarrow> Some d | CombinedTimeout d _ \<Rightarrow> Some d | _ \<Rightarrow> None)"

lemma total_deadline_new: "total_deadline (timeout_body_new read tot) = tot"
  by (simp add: total_deadline_def timeout_body_new_def split: option.split)

lemma total_deadline_step:
  "total_deadline (fst (timeout_poll_frame tb now inner)) = total_deadline tb"
  by (cases tb) (simp_all add: total_deadline_def split_beta)

lemma total_deadline_fires:
  "total_deadline tb = Some d \<Longrightarrow> d \<le> now \<Longrightarrow>
   frame_timed_out (snd (timeout_poll_frame tb now inner))"
  by (cases tb) (simp_all add: total_deadline_def timed_out_visible)

lemma body_run_total:
  "total_deadline tb = Some d \<Longrightarrow> i < length ps \<Longrightarrow> d \<le> fst (ps ! i) \<Longrightarrow>
   frame_timed_out (snd (body_run tb ps) ! i)"
proof (induction ps arbitrary: tb i)
  case (Cons p ps)
  obtain now inner where p: "p = (now, inner)" by (cases p)
  let ?tb = "fst (timeout_poll_frame tb now inner)"
  show ?case
  proof (cases i)
    case 0
    with Cons.prems p total_deadline_fires [of tb d now inner] show ?thesis by (simp add: split_beta)
  next
    case (Suc j)
    with Cons.prems p Cons.IH [of ?tb j] total_deadline_step [of tb now inner] show ?thesis
      by (simp add: split_beta)
  qed
qed simp

lemma length_body_run [simp]: "length (snd (body_run tb ps)) = length ps"
  by (induction ps arbitrary: tb) (auto simp: split_beta)

lemma body_run_append:
  "body_run tb (ps @ qs) = (case body_run tb ps of (tb', outs) \<Rightarrow>
     (case body_run tb' qs of (tb'', outs') \<Rightarrow> (tb'', outs @ outs')))"
  by (induction ps arbitrary: tb) (auto simp: split_beta)

text \<open>C17: the total timeout is one deadline for headers and body.  With a total timeout of \<open>t\<close> a request
  that starts at \<open>s\<close> never yields response headers at or after \<open>s + t\<close>, and once the headers have
  arrived every poll of the body at or after that same instant fails with an error that reports a
  timeout, no matter how many frames were read before; without a read timeout no poll before it
  fails with anything but the body's own error.\<close>

theorem total_timeout_covers_body:
  assumes "fst (fetch_timeout_options opts (ext_timeout (rq_ext req))) = Some t"
  shows "(s + t \<le> now \<longrightarrow> (\<exists>e. timeout_poll (timeout_call opts req s) now inner = Ready (Inl e) \<and> is_timeout e)) \<and>
         (timeout_poll (timeout_call opts req s) now inner = Ready (Inr (res, tb)) \<longrightarrow>
            (\<forall>ps i. i < length ps \<and> s + t \<le> fst (ps ! i) \<longrightarrow> frame_timed_out (snd (body_run tb ps) ! i)) \<and>
            (\<forall>u fr. snd (fetch_timeout_options opts (ext_timeout (rq_ext req))) = None \<and> u < s + t \<longrightarrow>
               timeout_poll_frame tb u fr = (tb, poll_and_map_body fr)))"
proof (intro conjI impI)
  let ?tf = "timeout_call opts req s"
  have tf: "tf_total_fut ?tf = Some (s + t)"
    "tf_read_timeout ?tf = snd (fetch_timeout_options opts (ext_timeout (rq_ext req)))"
    using assms by (simp_all add: timeout_call_def split_beta)
  {
    assume "s + t \<le> now"
    with tf show "\<exists>e. timeout_poll ?tf now inner = Ready (Inl e) \<and> is_timeout e"
      by (auto simp: timeout_poll_def sleep_ready_def timed_out_visible)
  }
  assume "timeout_poll ?tf now inner = Ready (Inr (res, tb))"
  with tf have tb: "tb = timeout_body_new (snd (fetch_timeout_options opts (ext_timeout (rq_ext req)))) (Some (s + t))"
    by (auto simp: timeout_poll_def split: if_split_asm poll.split_asm sum.split_asm)
  then have "total_deadline tb = Some (s + t)" by (simp add: total_deadline_new)
  then show "\<forall>ps i. i < length ps \<and> s + t \<le> fst (ps ! i) \<longrightarrow> frame_timed_out (snd (body_run tb ps) ! i)"
    using body_run_total by blast
  show "\<forall>u fr. snd (fetch_timeout_options opts (ext_timeout (rq_ext req))) = None \<and> u < s + t \<longrightarrow>
               timeout_poll_frame tb u fr = (tb, poll_and_map_body fr)"
    using tb by (auto simp: timeout_body_new_def)
qed

definition sample_timeout_request :: "(unit, unit) request" where
  "sample_timeout_request =
     \<lparr>rq_method = ''GET'', rq_uri = \<lparr>uri_scheme = None, uri_authority = None, uri_pq = None\<rparr>,
      rq_version = HTTP_11, rq_headers = [],
      rq_ext = \<lparr>ext_redirect = None, ext_options = None,
        ext_timeout = Some (Some \<lparr>to_read = None, to_total = Some 10\<rparr>),
        ext_default_headers = None, ext_orig_headers = None, ext_preserve = None, ext_cookie_store = None, ext_accept_encoding = None\<rparr>\<rparr>"

theorem total_timeout_covers_body_witness:
  "\<exists>e. timeout_poll (timeout_call (Some \<lparr>to_read = None, to_total = Some 30\<rparr>) sample_timeout_request 5) 15
        NotReady = Ready (Inl e) \<and> is_timeout e"
proof -
  have "fst (fetch_timeout_options (Some \<lparr>to_read = None, to_total = Some 30\<rparr>)
      (ext_timeout (rq_ext sample_timeout_request))) = Some 10"
    by code_simp
  from total_timeout_covers_body [OF this, of 5 15 NotReady] show ?thesis by simp
qed

text \<open>The read deadline of a body without a total timeout.\<close>

lemma read_poll_armed:
  assumes "rb_armed rb" "rb_sleep rb = Some d"
  shows "read_poll_frame rb now inner =
    (if d \<le> now then (rb, Ready (Some (Inl (err_body TimedOut))))
     else (case inner of NotReady \<Rightarrow> (rb, NotReady) | Ready fr \<Rightarrow> (rb\<lparr>rb_armed := False\<rparr>, Ready fr)))"
  using assms by (simp add: read_poll_frame_def sleep_ready_def split: poll.split)

lemma read_waits:
  assumes "rb_armed rb" "rb_sleep rb = Some d" "\<forall>(now, inner) \<in> set ps. now < d \<and> inner = NotReady"
  shows "body_run (ReadTimeout rb) ps = (ReadTimeout rb, map (\<lambda>_. NotReady) ps)"
  using assms(3)
proof (induction ps)
  case (Cons p ps)
  then have IH: "body_run (ReadTimeout rb) ps = (ReadTimeout rb, map (\<lambda>_. NotReady) ps)" by simp
  obtain now inner where p: "p = (now, inner)" by (cases p)
  with Cons.prems have "now < d" "inner = NotReady" by auto
  with IH p read_poll_armed [OF assms(1,2)] show ?case by simp
qed simp

text \<open>The read timeout bounds the wait for one frame.  Starting from a body that is not waiting, the
  deadline is the time of the first poll plus the timeout; while the frame is pending before the
  deadline the polls stay pending, a poll at or after the deadline fails with a timeout, and a frame
  that arrives earlier is delivered and disarms the timer, so that time between two reads is not
  counted: the next frame gets the full timeout again.\<close>

theorem read_timeout_per_frame:
  assumes "\<not> rb_armed rb" "0 < rb_timeout rb"
    and "\<forall>(now, inner) \<in> set ps. now < s + rb_timeout rb \<and> inner = NotReady"
  shows "snd (body_run (ReadTimeout rb) ((s, NotReady) # ps @ [(u, fr)])) =
           NotReady # map (\<lambda>_. NotReady) ps @
             [if s + rb_timeout rb \<le> u then Ready (Some (Inl (err_body TimedOut))) else fr] \<and>
         (u < s + rb_timeout rb \<and> fr \<noteq> NotReady \<longrightarrow>
            (\<exists>rb'. fst (body_run (ReadTimeout rb) ((s, NotReady) # ps @ [(u, fr)])) = ReadTimeout rb' \<and>
               \<not> rb_armed rb' \<and> rb_timeout rb' = rb_timeout rb))"
proof -
  let ?rb = "rb\<lparr>rb_sleep := Some (s + rb_timeout rb), rb_armed := True\<rparr>"
  have first: "read_poll_frame rb s NotReady = (?rb, NotReady)"
    using assms(1,2) by (simp add: read_poll_frame_def sleep_ready_def)
  have mid: "body_run (ReadTimeout ?rb) ps = (ReadTimeout ?rb, map (\<lambda>_. NotReady) ps)"
    by (rule read_waits) (use assms(3) in auto)
  have last: "read_poll_frame ?rb u fr =
      (if s + rb_timeout rb \<le> u then (?rb, Ready (Some (Inl (err_body TimedOut))))
       else (case fr of NotReady \<Rightarrow> (?rb, NotReady) | Ready x \<Rightarrow> (?rb\<lparr>rb_armed := False\<rparr>, Ready x)))"
    by (rule read_poll_armed) simp_all
  show ?thesis
    by (simp add: first body_run_append mid last split: poll.split)
qed

theorem read_timeout_per_frame_witness:
  "snd (body_run (ReadTimeout \<lparr>rb_sleep = None, rb_armed = False, rb_timeout = 4\<rparr>)
      ((10, NotReady) # [(12, NotReady)] @ [(13, Ready None)])) = [NotReady, NotReady, Ready None]"
  using read_timeout_per_frame [of "\<lparr>rb_sleep = None, rb_armed = False, rb_timeout = 4\<rparr>" "[(12, NotReady)]" 10 13
      "Ready None"]
  by simp

text \<open>An error of the response body itself is reported as a decoding error, except when only a read
  timeout is configured: then the error passes through unwrapped.\<close>

theorem read_timeout_skips_decode:
  "snd (timeout_poll_frame Plain now (Ready (Some (Inl e)))) = Ready (Some (Inl (err_decode e))) \<and>
   snd (timeout_poll_frame (ReadTimeout \<lparr>rb_sleep = None, rb_armed = False, rb_timeout = Suc n\<rparr>) now
     (Ready (Some (Inl e)))) = Ready (Some (Inl e)) \<and>
   snd (timeout_poll_frame (CombinedTimeout (Suc now) \<lparr>rb_sleep = None, rb_armed = False, rb_timeout = Suc n\<rparr>) now
     (Ready (Some (Inl e)))) = Ready (Some (Inl (err_decode e)))"
  by (simp add: read_poll_frame_def sleep_ready_def)

end
