(* ===== verification/Retry_Layer.thy ===== *)
theory Retry_Layer
  imports Complex_Main Request_Model
begin

text \<open>
  Retries: the policy a caller configures (\<^verbatim>\<open>src/src/retry.rs\<close>), the policy of the middleware
  (\<^verbatim>\<open>src/src/client/layer/retry.rs\<close>), its classifiers and scopes (\<^verbatim>\<open>retry/classify.rs\<close>,
  \<^verbatim>\<open>retry/scope.rs\<close>).

  The token budget and the retry service are those of \<^verbatim>\<open>tower\<close>.  The budget is the parameter
  \<open>retry_lib\<close>, with the downcast to an HTTP/2 error.  The loop of the service is not code of this
  repository either; \<open>retry_exec\<close> writes it out as the documentation of \<^verbatim>\<open>tower::retry\<close> describes it, to
  state what the policy does to a request.
\<close>

section \<open>Errors, actions and classifiers\<close>

datatype h2_reason = NO_ERROR | REFUSED_STREAM | OtherReason nat

record h2_error =
  h2_go_away :: bool
  h2_reset :: bool
  h2_remote :: bool
  h2_reason :: "h2_reason option"

record 'b retry_lib =
  bl_new :: "nat \<Rightarrow> nat \<Rightarrow> rat \<Rightarrow> 'b"
  bl_deposit :: "'b \<Rightarrow> 'b"
  bl_withdraw :: "'b \<Rightarrow> 'b \<times> bool"
  h2_downcast :: "error \<Rightarrow> h2_error option"

definition is_retryable_error :: "'b retry_lib \<Rightarrow> error \<Rightarrow> bool" where
  "is_retryable_error L err =
     (case error_source err of
        None \<Rightarrow> False
      | Some e \<Rightarrow>
          (case Option.bind (error_source e) (h2_downcast L) of
             None \<Rightarrow> False
           | Some h \<Rightarrow>
               if h2_go_away h \<and> h2_remote h \<and> h2_reason h = Some NO_ERROR then True
               else if h2_reset h \<and> h2_remote h \<and> h2_reason h = Some REFUSED_STREAM then True
               else False))"

datatype retry_action = Success | Retryable

type_synonym ('p, 'o) full_request = "('p, 'o) request \<times> body"

text \<open>\<^verbatim>\<open>ReqRep\<close>: the request and the status of its response, or its error.\<close>

type_synonym ('p, 'o) req_rep = "('p, 'o) full_request \<times> (error, nat) result"

fun rep_status :: "('p, 'o) req_rep \<Rightarrow> nat option" where
  "rep_status (_, Inr s) = Some s"
| "rep_status (_, Inl _) = None"

fun rep_error :: "('p, 'o) req_rep \<Rightarrow> error option" where
  "rep_error (_, Inl e) = Some e"
| "rep_error (_, Inr _) = None"

datatype ('p, 'o) classifier =
    Never
  | ProtocolNacks
  | DynClassify "('p, 'o) req_rep \<Rightarrow> retry_action"

definition classify ::
  "'b retry_lib \<Rightarrow> ('p, 'o) classifier \<Rightarrow> ('p, 'o) full_request \<Rightarrow> (error, response) result \<Rightarrow> retry_action"
where
  "classify L c req res =
     (let rep = (req, map_sum id rs_status res)
      in case c of
           Never \<Rightarrow> Success
         | ProtocolNacks \<Rightarrow>
             if (case map_option (is_retryable_error L) (rep_error rep) of Some b \<Rightarrow> b | None \<Rightarrow> False)
             then Retryable else Success
         | DynClassify f \<Rightarrow> f rep)"

datatype ('p, 'o) scoped = Unscoped | DynScope "('p, 'o) full_request \<Rightarrow> bool"

fun applies_to :: "('p, 'o) scoped \<Rightarrow> ('p, 'o) full_request \<Rightarrow> bool" where
  "applies_to Unscoped req = True"
| "applies_to (DynScope s) req = s req"

section \<open>Policies\<close>

text \<open>The policy a caller configures.  The budget is a percentage held as an \<^verbatim>\<open>f32\<close>; the finite values of
  that type are rationals and \<open>f32_0_2\<close> is the one the literal \<^verbatim>\<open>0.2\<close> rounds to.\<close>

record ('p, 'o) retry_config =
  rt_budget :: "rat option"
  rt_classifier :: "('p, 'o) classifier"
  rt_max :: nat
  rt_scope :: "('p, 'o) scoped"

definition f32_0_2 :: rat where
  "f32_0_2 = 13421773 / 2 ^ 26"

definition retry_scoped :: "(('p, 'o) full_request \<Rightarrow> bool) \<Rightarrow> ('p, 'o) retry_config" where
  "retry_scoped f =
     \<lparr>rt_budget = Some f32_0_2, rt_classifier = Never, rt_max = 2, rt_scope = DynScope f\<rparr>"

definition no_budget :: "('p, 'o) retry_config \<Rightarrow> ('p, 'o) retry_config" where
  "no_budget p = p\<lparr>rt_budget := None\<rparr>"

definition retry_never :: "('p, 'o) retry_config" where
  "retry_never = no_budget (retry_scoped (\<lambda>_. False))"

text \<open>\<open>host\<close> is the caller's comparison with the host of the request.\<close>

definition retry_for_host :: "(string \<Rightarrow> bool) \<Rightarrow> ('p, 'o) retry_config" where
  "retry_for_host host =
     retry_scoped (\<lambda>(req, _). case uri_host (rq_uri req) of Some h \<Rightarrow> host h | None \<Rightarrow> False)"

text \<open>\<open>None\<close> is the panic of the assertions.\<close>

definition max_extra_load :: "rat \<Rightarrow> ('p, 'o) retry_config \<Rightarrow> ('p, 'o) retry_config option" where
  "max_extra_load x p = (if 0 \<le> x \<and> x \<le> 1000 then Some (p\<lparr>rt_budget := Some x\<rparr>) else None)"

definition max_retries_per_request :: "nat \<Rightarrow> ('p, 'o) retry_config \<Rightarrow> ('p, 'o) retry_config" where
  "max_retries_per_request n p = p\<lparr>rt_max := n\<rparr>"

definition classify_fn ::
  "(('p, 'o) req_rep \<Rightarrow> retry_action) \<Rightarrow> ('p, 'o) retry_config \<Rightarrow> ('p, 'o) retry_config"
where
  "classify_fn f p = p\<lparr>rt_classifier := DynClassify f\<rparr>"

definition retry_default :: "('p, 'o) retry_config" where
  "retry_default =
     \<lparr>rt_budget = None, rt_classifier = ProtocolNacks, rt_max = 2, rt_scope = Unscoped\<rparr>"

text \<open>The policy of the middleware, cloned for every request; the budget is shared by all of them.\<close>

record ('b, 'p, 'o) retry_policy =
  rp_budget :: "'b option"
  rp_classifier :: "('p, 'o) classifier"
  rp_max :: nat
  rp_cnt :: nat
  rp_scope :: "('p, 'o) scoped"

definition retry_policy_new ::
  "'b retry_lib \<Rightarrow> ('p, 'o) retry_config \<Rightarrow> ('b, 'p, 'o) retry_policy"
where
  "retry_policy_new L p =
     \<lparr>rp_budget = map_option (\<lambda>x. bl_new L 10 10 x) (rt_budget p), rp_classifier = rt_classifier p,
      rp_max = rt_max p, rp_cnt = 0, rp_scope = rt_scope p\<rparr>"

definition retry ::
  "'b retry_lib \<Rightarrow> ('b, 'p, 'o) retry_policy \<Rightarrow> ('p, 'o) full_request \<Rightarrow> (error, response) result \<Rightarrow>
   ('b, 'p, 'o) retry_policy \<times> bool"
where
  "retry L pol req res =
     (case classify L (rp_classifier pol) req res of
        Success \<Rightarrow> (pol\<lparr>rp_budget := map_option (bl_deposit L) (rp_budget pol)\<rparr>, False)
      | Retryable \<Rightarrow>
          (let (bud, ok) = (case rp_budget pol of
                              Some b \<Rightarrow> map_prod Some id (bl_withdraw L b)
                            | None \<Rightarrow> (None, True));
               pol1 = pol\<lparr>rp_budget := bud\<rparr>
           in if ok then (pol1\<lparr>rp_cnt := Suc (rp_cnt pol1)\<rparr>, True) else (pol1, False)))"

definition clone_request ::
  "('b, 'p, 'o) retry_policy \<Rightarrow> ('p, 'o) full_request \<Rightarrow> ('p, 'o) full_request option"
where
  "clone_request pol req =
     (if 0 < rp_cnt pol \<and> \<not> applies_to (rp_scope pol) req then None
      else if rp_max pol \<le> rp_cnt pol then None
      else Option.bind (body_try_clone (snd req)) (\<lambda>b.
             Some (\<lparr>rq_method = rq_method (fst req), rq_uri = rq_uri (fst req),
                    rq_version = rq_version (fst req), rq_headers = rq_headers (fst req),
                    rq_ext = rq_ext (fst req)\<rparr>, b)))"

section \<open>Sending under a retry policy\<close>

text \<open>The retry service of \<^verbatim>\<open>tower\<close> drives the policy by its documented contract: it copies the request
  before sending it, gives up when there is no copy, and sends the copy when \<^const>\<open>retry\<close> agrees.
  \<open>srv n\<close> is the outcome of the \<open>n\<close>-th send and \<open>other n\<close> what the other requests of the client did to
  the shared budget meanwhile.  The result is the list of requests sent with their outcomes.\<close>

lemma clone_request_Some:
  "clone_request pol req = Some copy \<longleftrightarrow>
     copy = req \<and> (\<exists>bs. snd req = Full bs) \<and> rp_cnt pol < rp_max pol \<and>
     (rp_cnt pol = 0 \<or> applies_to (rp_scope pol) req)"
  by (cases req; cases "snd req") (auto simp: clone_request_def)

lemma retry_again:
  assumes "retry L pol req res = (pol', True)"
  shows "rp_cnt pol' = Suc (rp_cnt pol)" "rp_max pol' = rp_max pol" "rp_scope pol' = rp_scope pol"
    "rp_classifier pol' = rp_classifier pol" "classify L (rp_classifier pol) req res = Retryable"
    "rp_budget pol = None \<or> (\<exists>b. rp_budget pol = Some b \<and> snd (bl_withdraw L b))"
  using assms
  by (auto simp: retry_def Let_def split_beta split: retry_action.split_asm option.split_asm if_split_asm)

function retry_exec ::
  "'b retry_lib \<Rightarrow> (nat \<Rightarrow> (error, response) result) \<Rightarrow> (nat \<Rightarrow> 'b \<Rightarrow> 'b) \<Rightarrow> nat \<Rightarrow>
   ('b, 'p, 'o) retry_policy \<Rightarrow> ('p, 'o) full_request \<Rightarrow>
   (('p, 'o) full_request \<times> (error, response) result) list"
where
  "retry_exec L srv other n pol req =
     (case clone_request pol req of
        None \<Rightarrow> [(req, srv n)]
      | Some copy \<Rightarrow>
          (let r = retry L (pol\<lparr>rp_budget := map_option (other n) (rp_budget pol)\<rparr>) copy (srv n)
           in if snd r then (req, srv n) # retry_exec L srv other (Suc n) (fst r) copy
              else [(req, srv n)]))"
  by pat_completeness auto
termination
proof (relation "measure (\<lambda>(L, srv, other, n, pol, req). rp_max pol - rp_cnt pol)", goal_cases)
  case (2 L srv other n pol req copy r)
  then have "retry L (pol\<lparr>rp_budget := map_option (other n) (rp_budget pol)\<rparr>) copy (srv n) = (fst r, True)"
    by (metis prod.collapse)
  from retry_again(1,2) [OF this] 2(1) show ?case
    by (auto simp: clone_request_Some)
qed simp

declare retry_exec.simps [simp del]

section \<open>Properties\<close>

text \<open>What a run is: the same request again and again, with the reasons for going on and for stopping.\<close>

definition retry_shape ::
  "'b retry_lib \<Rightarrow> (nat \<Rightarrow> (error, response) result) \<Rightarrow> ('b, 'p, 'o) retry_policy \<Rightarrow> ('p, 'o) full_request \<Rightarrow>
   nat \<Rightarrow> nat \<Rightarrow> bool"
where
  "retry_shape L srv pol req n k \<longleftrightarrow>
     1 \<le> k \<and> k \<le> Suc (rp_max pol - rp_cnt pol) \<and>
     (\<forall>i. n \<le> i \<and> Suc i < n + k \<longrightarrow> classify L (rp_classifier pol) req (srv i) = Retryable) \<and>
     (1 < k \<longrightarrow> (\<exists>bs. snd req = Full bs)) \<and>
     (0 < rp_cnt pol \<and> 1 < k \<or> 2 < k \<longrightarrow> applies_to (rp_scope pol) req) \<and>
     (rp_budget pol = None \<and> (\<exists>bs. snd req = Full bs) \<and> applies_to (rp_scope pol) req \<longrightarrow>
        k = Suc (rp_max pol - rp_cnt pol) \<or> classify L (rp_classifier pol) req (srv (n + k - 1)) = Success)"

lemma retry_declined:
  assumes "\<not> snd (retry L pol req res)" "rp_budget pol = None"
  shows "classify L (rp_classifier pol) req res = Success"
  using assms by (auto simp: retry_def Let_def split: retry_action.split_asm)

lemma retry_budget_None:
  assumes "retry L pol req res = (pol', b)" "rp_budget pol = None"
  shows "rp_budget pol' = None"
  using assms
  by (auto simp: retry_def Let_def split: retry_action.split_asm)

lemma retry_exec_shape:
  "\<exists>k. retry_exec L srv other n pol req = map (\<lambda>i. (req, srv i)) [n..<n + k] \<and>
       retry_shape L srv pol req n k"
proof (induction L srv other n pol req rule: retry_exec.induct)
  case (1 L srv other n pol req)
  let ?pol = "pol\<lparr>rp_budget := map_option (other n) (rp_budget pol)\<rparr>"
  show ?case
  proof (cases "clone_request pol req")
    case None
    then have "retry_exec L srv other n pol req = map (\<lambda>i. (req, srv i)) [n..<n + 1]"
      by (simp add: retry_exec.simps [of L srv other n])
    moreover have "retry_shape L srv pol req n 1"
      using None clone_request_Some [of pol req req] by (auto simp: retry_shape_def)
    ultimately show ?thesis by blast
  next
    case (Some copy)
    then have c: "copy = req" "\<exists>bs. snd req = Full bs" "rp_cnt pol < rp_max pol"
      "rp_cnt pol = 0 \<or> applies_to (rp_scope pol) req"
      by (simp_all add: clone_request_Some)
    obtain pol' again where r: "retry L ?pol req (srv n) = (pol', again)" by fastforce
    show ?thesis
    proof (cases again)
      case False
      with Some r c(1) have "retry_exec L srv other n pol req = map (\<lambda>i. (req, srv i)) [n..<n + 1]"
        by (simp add: retry_exec.simps [of L srv other n])
      moreover have "retry_shape L srv pol req n 1"
        using retry_declined [of L ?pol req "srv n"] r False c(3) by (auto simp: retry_shape_def)
      ultimately show ?thesis by blast
    next
      case True
      with r have again: "retry L ?pol req (srv n) = (pol', True)" by simp
      note a = retry_again [OF this]
      obtain k where
        k: "retry_exec L srv other (Suc n) pol' req = map (\<lambda>i. (req, srv i)) [Suc n..<Suc n + k]"
           "retry_shape L srv pol' req (Suc n) k"
        using 1 [of req "(pol', True)"] Some c(1) again by auto
      have "retry_exec L srv other n pol req = (req, srv n) # retry_exec L srv other (Suc n) pol' req"
        using Some r c(1) True by (simp add: retry_exec.simps [of L srv other n])
      also have "\<dots> = map (\<lambda>i. (req, srv i)) [n..<n + Suc k]"
        using k(1) by (simp add: upt_conv_Cons del: upt_Suc)
      finally have run: "retry_exec L srv other n pol req = map (\<lambda>i. (req, srv i)) [n..<n + Suc k]" .
      have "classify L (rp_classifier pol) req (srv i) = Retryable" if "n \<le> i" "Suc i < n + Suc k" for i
        using k(2) a(4,5) that by (cases "i = n") (auto simp: retry_shape_def)
      moreover have "rp_budget pol = None \<Longrightarrow> rp_budget pol' = None"
        using retry_budget_None [OF r] by simp
      ultimately have "retry_shape L srv pol req n (Suc k)"
        using k(2) a(1-4) c(2-4) Suc_diff_Suc [OF c(3)]
        unfolding retry_shape_def by auto
      with run show ?thesis by blast
    qed
  qed
qed

text \<open>C16: sending under a retry policy.  For every behaviour of the server and of the other requests the
  sending ends, after at least one and at most \<^verbatim>\<open>max_retries_per_request\<close> more sends, each of them the
  identical request.  Only an outcome the classifier called retryable is followed by another send, only
  bodies held in memory are sent again, a request outside the scope is sent at most twice, and the
  caller gets the outcome of the last send.  Without a budget, an in-scope request whose body is in
  memory stops early only because an outcome was not retryable.\<close>

theorem retry_sends:
  "\<exists>k. retry_exec L srv other 0 (retry_policy_new L p) (req, body) =
         map (\<lambda>i. ((req, body), srv i)) [0..<k] \<and>
       1 \<le> k \<and> k \<le> Suc (rt_max p) \<and>
       (\<forall>i. Suc i < k \<longrightarrow> classify L (rt_classifier p) (req, body) (srv i) = Retryable) \<and>
       (1 < k \<longrightarrow> (\<exists>bs. body = Full bs)) \<and>
       (2 < k \<longrightarrow> applies_to (rt_scope p) (req, body)) \<and>
       (rt_budget p = None \<and> (\<exists>bs. body = Full bs) \<and> applies_to (rt_scope p) (req, body) \<longrightarrow>
          k = Suc (rt_max p) \<or> classify L (rt_classifier p) (req, body) (srv (k - 1)) = Success)"
proof -
  obtain k where k: "retry_exec L srv other 0 (retry_policy_new L p) (req, body) =
      map (\<lambda>i. ((req, body), srv i)) [0..<0 + k]"
    "retry_shape L srv (retry_policy_new L p) (req, body) 0 k"
    using retry_exec_shape by blast
  then show ?thesis
    by (intro exI [of _ k]) (simp add: retry_shape_def retry_policy_new_def)
qed

text \<open>A retryable classification by protocol errors names an HTTP/2 error of the peer.\<close>

lemma classify_nacks:
  "classify L ProtocolNacks req res = Retryable \<longleftrightarrow>
     (\<exists>e e1 e2 h. res = Inl e \<and> error_source e = Some e1 \<and> error_source e1 = Some e2 \<and>
        h2_downcast L e2 = Some h \<and> h2_remote h \<and>
        (h2_go_away h \<and> h2_reason h = Some NO_ERROR \<or> h2_reset h \<and> h2_reason h = Some REFUSED_STREAM))"
  by (cases res) (auto simp: classify_def is_retryable_error_def Let_def Option.bind_eq_Some_conv
      Option.bind_eq_None_conv split: option.split)

text \<open>What is retried by default.  Under the default policy a request is sent again only after an error
  whose cause is a graceful shutdown or a refused stream signalled by the peer, never after a response,
  and at most three times in all; under \<^verbatim>\<open>Policy::never\<close> and under a scoped policy without a
  classifier every request is sent exactly once.\<close>

theorem retry_defaults_safe:
  "(\<exists>k. k \<le> 3 \<and> retry_exec L srv other 0 (retry_policy_new L retry_default) (req, body) =
           map (\<lambda>i. ((req, body), srv i)) [0..<k] \<and>
         (\<forall>i. Suc i < k \<longrightarrow>
            (\<exists>e e1 e2 h. srv i = Inl e \<and> error_source e = Some e1 \<and> error_source e1 = Some e2 \<and>
               h2_downcast L e2 = Some h \<and> h2_remote h \<and>
               (h2_go_away h \<and> h2_reason h = Some NO_ERROR \<or>
                h2_reset h \<and> h2_reason h = Some REFUSED_STREAM)))) \<and>
   retry_exec L srv other 0 (retry_policy_new L retry_never) (req, body) = [((req, body), srv 0)] \<and>
   retry_exec L srv other 0 (retry_policy_new L (retry_for_host host)) (req, body) = [((req, body), srv 0)]"
proof (intro conjI)
  have once: "retry_exec L srv other 0 (retry_policy_new L p) (req, body) = [((req, body), srv 0)]"
    if "rt_classifier p = Never" for p :: "('a, 'b) retry_config"
    using that
    by (simp add: retry_exec.simps clone_request_def retry_policy_new_def retry_def classify_def
        split: Option.bind_split)
  show "retry_exec L srv other 0 (retry_policy_new L retry_never) (req, body) = [((req, body), srv 0)]"
    by (rule once) (simp add: retry_never_def no_budget_def retry_scoped_def)
  show "retry_exec L srv other 0 (retry_policy_new L (retry_for_host host)) (req, body) = [((req, body), srv 0)]"
    by (rule once) (simp add: retry_for_host_def retry_scoped_def)
  obtain k where "retry_exec L srv other 0 (retry_policy_new L retry_default) (req, body) =
      map (\<lambda>i. ((req, body), srv i)) [0..<0 + k]"
    "retry_shape L srv (retry_policy_new L retry_default) (req, body) 0 k"
    using retry_exec_shape by blast
  then have "k \<le> 3 \<and> retry_exec L srv other 0 (retry_policy_new L retry_default) (req, body) =
           map (\<lambda>i. ((req, body), srv i)) [0..<k] \<and>
         (\<forall>i. Suc i < k \<longrightarrow> classify L ProtocolNacks (req, body) (srv i) = Retryable)"
    by (simp add: retry_shape_def retry_policy_new_def retry_default_def)
  then show "\<exists>k. k \<le> 3 \<and> retry_exec L srv other 0 (retry_policy_new L retry_default) (req, body) =
           map (\<lambda>i. ((req, body), srv i)) [0..<k] \<and>
         (\<forall>i. Suc i < k \<longrightarrow>
            (\<exists>e e1 e2 h. srv i = Inl e \<and> error_source e = Some e1 \<and> error_source e1 = Some e2 \<and>
               h2_downcast L e2 = Some h \<and> h2_remote h \<and>
               (h2_go_away h \<and> h2_reason h = Some NO_ERROR \<or>
                h2_reset h \<and> h2_reason h = Some REFUSED_STREAM)))"
    unfolding classify_nacks by blast
qed

section \<open>Concrete runs\<close>

definition sample_retry_lib :: "nat retry_lib" where
  "sample_retry_lib =
     \<lparr>bl_new = (\<lambda>_ reserve _. reserve), bl_deposit = Suc,
      bl_withdraw = (\<lambda>n. if n = 0 then (0, False) else (n - 1, True)),
      h2_downcast = (\<lambda>e. if e = Other ''h2'' None
                         then Some \<lparr>h2_go_away = False, h2_reset = True, h2_remote = True,
                                    h2_reason = Some REFUSED_STREAM\<rparr> else None)\<rparr>"

definition sample_retry_request :: "(unit, unit) request" where
  "sample_retry_request =
     \<lparr>rq_method = ''GET'',
      rq_uri = \<lparr>uri_scheme = Some ''https'',
                uri_authority = Some \<lparr>auth_str = ''other.org'', auth_host = ''other.org'', auth_port = None\<rparr>,
                uri_pq = None\<rparr>,
      rq_version = HTTP_2, rq_headers = [],
      rq_ext = \<lparr>ext_redirect = None, ext_options = None, ext_timeout = None,
        ext_default_headers = None, ext_orig_headers = None, ext_preserve = None, ext_cookie_store = None, ext_accept_encoding = None\<rparr>\<rparr>"

definition sample_nack :: "nat \<Rightarrow> (error, response) result" where
  "sample_nack n =
     (if n = 0 then Inl (ClientError SendRequest (Some (Other ''send'' (Some (Other ''h2'' None)))))
      else Inr \<lparr>rs_status = 200, rs_version = HTTP_2, rs_headers = [], rs_uri = None, rs_history = None\<rparr>)"

theorem retry_sends_witness:
  "map (rep_status \<circ> map_prod id (map_sum id rs_status))
     (retry_exec sample_retry_lib sample_nack (\<lambda>_. id) 0 (retry_policy_new sample_retry_lib retry_default)
        (sample_retry_request, Full ''x'')) = [None, Some 200]"
proof -
  have r: "classify sample_retry_lib ProtocolNacks (sample_retry_request, Full ''x'') (sample_nack i) =
      (if i = 0 then Retryable else Success)" for i
    by (simp add: classify_def is_retryable_error_def sample_nack_def sample_retry_lib_def Let_def)
  obtain k where k: "retry_exec sample_retry_lib sample_nack (\<lambda>_. id) 0
        (retry_policy_new sample_retry_lib retry_default) (sample_retry_request, Full ''x'') =
      map (\<lambda>i. ((sample_retry_request, Full ''x''), sample_nack i)) [0..<k]"
    and b: "1 \<le> k" "\<forall>i. Suc i < k \<longrightarrow> (if i = 0 then Retryable else Success) = Retryable"
      "k = 3 \<or> (if k - 1 = 0 then Retryable else Success) = Success"
    using retry_sends [of sample_retry_lib sample_nack "\<lambda>_. id" retry_default sample_retry_request "Full ''x''"]
    unfolding retry_default_def retry_config.simps r by auto
  have "k < 3" using b(2) [rule_format, of 1] by (cases "k < 3") auto
  with b(1,3) have "k = 2" by (cases "k = 1") auto
  then show ?thesis by (simp add: k sample_nack_def upt_rec numeral_2_eq_2)
qed

text \<open>The scope is consulted only before the second retry: a request to another host is retried once,
  although the documentation of \<^verbatim>\<open>Policy::for_host\<close> says that other hosts are not retried.\<close>

theorem out_of_scope_retried_once:
  "map fst (retry_exec sample_retry_lib (\<lambda>_. sample_nack 0) (\<lambda>_. id) 0
      (retry_policy_new sample_retry_lib (classify_fn (\<lambda>_. Retryable) (retry_for_host (\<lambda>h. h = ''api.org''))))
      (sample_retry_request, Full ''x'')) =
   [(sample_retry_request, Full ''x''), (sample_retry_request, Full ''x'')] \<and>
   \<not> applies_to (rt_scope (retry_for_host (\<lambda>h. h = ''api.org''))) (sample_retry_request, Full ''x'')"
  by code_simp

theorem retry_defaults_safe_witness:
  "retry_exec sample_retry_lib sample_nack (\<lambda>_. id) 0 (retry_policy_new sample_retry_lib retry_never)
     (sample_retry_request, Full ''x'') = [((sample_retry_request, Full ''x''), sample_nack 0)]"
  using retry_defaults_safe [of sample_retry_lib sample_nack "\<lambda>_. id" sample_retry_request "Full ''x''"
      "\<lambda>h. h = ''api.org''"]
  by blast

end
