(* ===== verification/Pool.thy ===== *)
theory Pool
  imports Wreq_Error
begin

text \<open>
  The connection pool of \<^verbatim>\<open>src/src/client/layer/client/pool.rs\<close>: idle connections per host, checkouts that
  wait for a connection, the lock that allows one HTTP/2 connection attempt per host, and the idle task;
  with \<^verbatim>\<open>PoolClient\<close> of \<^verbatim>\<open>client/layer/client.rs\<close>, the connections it keeps.

  Every operation is one critical section of the pool's mutex, so the concurrent program is the
  interleaving of the operations: a step relation.  The cache of the crate \<^verbatim>\<open>lru\<close> is a parameter, and the
  one-shot channels of \<^verbatim>\<open>tokio\<close> enter as what their sending and receiving halves return.
\<close>

section \<open>Interfaces\<close>

text \<open>The trait \<^verbatim>\<open>Poolable\<close>.  Whether a connection is open changes with the world outside, so an operation
  gets the trait's functions as they are at its instant.\<close>

datatype 't reservation = Shared 't 't | Unique 't

record 't poolable =
  po_is_open :: "'t \<Rightarrow> bool"
  po_reserve :: "'t \<Rightarrow> 't reservation"
  po_can_share :: "'t \<Rightarrow> bool"

text \<open>The least-recently-used cache of the crate \<^verbatim>\<open>lru\<close>.  \<open>lru_modify\<close> writes through the reference
  \<^verbatim>\<open>get_mut\<close> returns, \<open>lru_get_or_insert\<close> is \<^verbatim>\<open>get_or_insert_mut\<close> before the write, \<open>lru_map_values\<close>
  writes through every reference of \<^verbatim>\<open>iter_mut\<close>.\<close>

record ('c, 'k, 'v) lru_lib =
  lru_new :: "nat option \<Rightarrow> 'c"
  lru_peek :: "'c \<Rightarrow> 'k \<Rightarrow> 'v option"
  lru_modify :: "'k \<Rightarrow> ('v \<Rightarrow> 'v) \<Rightarrow> 'c \<Rightarrow> 'c"
  lru_get_or_insert :: "'k \<Rightarrow> 'v \<Rightarrow> 'c \<Rightarrow> 'c"
  lru_pop :: "'k \<Rightarrow> 'c \<Rightarrow> 'c"
  lru_map_values :: "('k \<Rightarrow> 'v \<Rightarrow> 'v) \<Rightarrow> 'c \<Rightarrow> 'c"
  lru_keys :: "'c \<Rightarrow> 'k list"

text \<open>What the pool relies on: a new cache is empty, the operations read and write the entry they name,
  an insertion may evict other entries, the keys are listed.\<close>

definition lru_ok :: "('c, 'k, 'v) lru_lib \<Rightarrow> bool" where
  "lru_ok L \<longleftrightarrow>
     (\<forall>cap k. lru_peek L (lru_new L cap) k = None) \<and>
     (\<forall>c k f k'. lru_peek L (lru_modify L k f c) k' =
        (if k' = k then map_option f (lru_peek L c k) else lru_peek L c k')) \<and>
     (\<forall>c k d. lru_peek L (lru_get_or_insert L k d c) k =
        Some (case lru_peek L c k of Some v \<Rightarrow> v | None \<Rightarrow> d)) \<and>
     (\<forall>c k d k'. k' \<noteq> k \<longrightarrow>
        lru_peek L (lru_get_or_insert L k d c) k' \<in> {lru_peek L c k', None}) \<and>
     (\<forall>c k k'. lru_peek L (lru_pop L k c) k' = (if k' = k then None else lru_peek L c k')) \<and>
     (\<forall>c f k. lru_peek L (lru_map_values L f c) k = map_option (f k) (lru_peek L c k)) \<and>
     (\<forall>c. set (lru_keys L c) = {k. lru_peek L c k \<noteq> None})"

section \<open>The pool\<close>

datatype ver = Auto | Http2Only

record 't idle =
  idle_at :: nat
  idle_value :: 't

record pool_config =
  pg_idle_timeout :: "nat option"
  pg_max_idle_per_host :: nat
  pg_max_pool_size :: "nat option"

definition pool_is_enabled :: "pool_config \<Rightarrow> bool" where
  "pool_is_enabled c \<longleftrightarrow> 0 < pg_max_idle_per_host c"

text \<open>The waiters of a key are the sending halves of one-shot channels, named by numbers.  The executor is
  not part of the state; \<open>pi_timer\<close> says that a timer is configured.\<close>

record ('k, 'c) pool_inner =
  pi_connecting :: "'k list"
  pi_idle :: 'c
  pi_max_idle :: nat
  pi_waiters :: "('k, nat list) hash_map"
  pi_interval :: "nat option"
  pi_timer :: bool
  pi_timeout :: "nat option"

definition pool_new ::
  "('c, 'k, 't idle list) lru_lib \<Rightarrow> pool_config \<Rightarrow> bool \<Rightarrow> ('k, 'c) pool_inner option"
where
  "pool_new L c timer =
     (if pool_is_enabled c then
        Some \<lparr>pi_connecting = [], pi_idle = lru_new L (pg_max_pool_size c),
              pi_max_idle = pg_max_idle_per_host c, pi_waiters = [], pi_interval = None,
              pi_timer = timer, pi_timeout = pg_idle_timeout c\<rparr>
      else None)"

text \<open>\<open>cn_pool\<close> and \<open>pl_pool\<close> say that the guard holds a weak reference to the pool.\<close>

record 'k connecting =
  cn_key :: 'k
  cn_pool :: bool

record ('k, 't) pooled =
  pl_value :: 't
  pl_is_reused :: bool
  pl_key :: 'k
  pl_pool :: bool

record 'k checkout =
  co_key :: 'k
  co_waiter :: "nat option"

text \<open>\<^verbatim>\<open>Expiration::expires\<close>; durations saturate at zero.\<close>

definition expires :: "nat option \<Rightarrow> nat \<Rightarrow> nat \<Rightarrow> bool" where
  "expires timeout instant now = (case timeout of Some t \<Rightarrow> t < now - instant | None \<Rightarrow> False)"

text \<open>\<^verbatim>\<open>IdlePopper::pop\<close>, on the list read from its end.\<close>

fun pop_loop ::
  "'t poolable \<Rightarrow> nat option \<Rightarrow> nat \<Rightarrow> 't idle list \<Rightarrow> 't idle list \<times> 't idle option"
where
  "pop_loop P ex now [] = ([], None)"
| "pop_loop P ex now (e # es) =
     (if \<not> po_is_open P (idle_value e) then pop_loop P ex now es
      else if expires ex (idle_at e) now then pop_loop P ex now es
      else (case po_reserve P (idle_value e) of
              Shared to_reinsert to_checkout \<Rightarrow>
                (\<lparr>idle_at = now, idle_value = to_reinsert\<rparr> # es,
                 Some \<lparr>idle_at = idle_at e, idle_value = to_checkout\<rparr>)
            | Unique u \<Rightarrow> (es, Some \<lparr>idle_at = idle_at e, idle_value = u\<rparr>)))"

definition idle_pop ::
  "'t poolable \<Rightarrow> nat option \<Rightarrow> nat \<Rightarrow> 't idle list \<Rightarrow> 't idle list \<times> 't idle option"
where
  "idle_pop P ex now list = map_prod rev id (pop_loop P ex now (rev list))"

text \<open>The loop of \<^verbatim>\<open>put\<close> over the waiters.  \<open>closed\<close> is \<^verbatim>\<open>Sender::is_closed\<close> and \<open>accepts\<close> the success of
  \<^verbatim>\<open>Sender::send\<close>, which may fail for a channel that was open a moment before.  The result is the rest of
  the queue, the value if it is left over, and the values sent.\<close>

fun serve_waiters ::
  "'t poolable \<Rightarrow> (nat \<Rightarrow> bool) \<Rightarrow> (nat \<Rightarrow> bool) \<Rightarrow> nat list \<Rightarrow> 't \<Rightarrow>
   nat list \<times> 't option \<times> (nat \<times> 't) list"
where
  "serve_waiters P closed accepts [] v = ([], Some v, [])"
| "serve_waiters P closed accepts (tx # ws) v =
     (if closed tx then serve_waiters P closed accepts ws v
      else (case po_reserve P v of
              Shared to_keep to_send \<Rightarrow>
                if accepts tx then
                  (case serve_waiters P closed accepts ws to_keep of
                     (ws', v', sent) \<Rightarrow> (ws', v', (tx, to_send) # sent))
                else serve_waiters P closed accepts ws to_send
            | Unique u \<Rightarrow>
                if accepts tx then (ws, None, [(tx, u)])
                else serve_waiters P closed accepts ws u))"

text \<open>\<^verbatim>\<open>spawn_idle_interval\<close>: the period of the idle task.  Durations and instants are nanoseconds.\<close>

definition spawn_idle_interval :: "('k, 'c) pool_inner \<Rightarrow> ('k, 'c) pool_inner" where
  "spawn_idle_interval pin =
     (if pi_interval pin \<noteq> None then pin
      else (case pi_timeout pin of
              None \<Rightarrow> pin
            | Some dur \<Rightarrow>
                if dur = 0 then pin
                else if \<not> pi_timer pin then pin
                else pin\<lparr>pi_interval := Some (max dur 90000000)\<rparr>))"

definition offer_waiters ::
  "'t poolable \<Rightarrow> (nat \<Rightarrow> bool) \<Rightarrow> (nat \<Rightarrow> bool) \<Rightarrow> 'k \<Rightarrow> 't \<Rightarrow> ('k, 'c) pool_inner \<Rightarrow>
   ('k, 'c) pool_inner \<times> 't option \<times> (nat \<times> 't) list"
where
  "offer_waiters P closed accepts key value pin =
     (case hm_get (pi_waiters pin) key of
        None \<Rightarrow> (pin, Some value, [])
      | Some ws \<Rightarrow>
          (case serve_waiters P closed accepts ws value of
             (ws', v, sent) \<Rightarrow>
               (pin\<lparr>pi_waiters := (if ws' = [] then hm_remove key (pi_waiters pin)
                                   else hm_insert key ws' (pi_waiters pin))\<rparr>, v, sent)))"

definition store_idle ::
  "('c, 'k, 't idle list) lru_lib \<Rightarrow> nat \<Rightarrow> 'k \<Rightarrow> 't \<Rightarrow> ('k, 'c) pool_inner \<Rightarrow> ('k, 'c) pool_inner"
where
  "store_idle L now key value pin =
     (let cache = lru_get_or_insert L key [] (pi_idle pin);
          n = length (case lru_peek L cache key of Some l \<Rightarrow> l | None \<Rightarrow> [])
      in if pi_max_idle pin \<le> n then pin\<lparr>pi_idle := cache\<rparr>
         else spawn_idle_interval
                (pin\<lparr>pi_idle := lru_modify L key
                       (\<lambda>l. l @ [\<lparr>idle_at = now, idle_value = value\<rparr>]) cache\<rparr>))"

definition put ::
  "('c, 'k, 't idle list) lru_lib \<Rightarrow> 't poolable \<Rightarrow> (nat \<Rightarrow> bool) \<Rightarrow> (nat \<Rightarrow> bool) \<Rightarrow> nat \<Rightarrow> 'k \<Rightarrow> 't \<Rightarrow>
   ('k, 'c) pool_inner \<Rightarrow> ('k, 'c) pool_inner \<times> (nat \<times> 't) list"
where
  "put L P closed accepts now key value pin =
     (if po_can_share P value \<and> lru_peek L (pi_idle pin) key \<noteq> None then (pin, [])
      else (case offer_waiters P closed accepts key value pin of
              (pin1, None, sent) \<Rightarrow> (pin1, sent)
            | (pin1, Some value', sent) \<Rightarrow> (store_idle L now key value' pin1, sent)))"

definition connected :: "'k \<Rightarrow> ('k, 'c) pool_inner \<Rightarrow> ('k, 'c) pool_inner" where
  "connected key pin =
     pin\<lparr>pi_connecting := removeAll key (pi_connecting pin), pi_waiters := hm_remove key (pi_waiters pin)\<rparr>"

definition clean_waiters :: "(nat \<Rightarrow> bool) \<Rightarrow> 'k \<Rightarrow> ('k, 'c) pool_inner \<Rightarrow> ('k, 'c) pool_inner" where
  "clean_waiters closed key pin =
     (case hm_get (pi_waiters pin) key of
        None \<Rightarrow> pin
      | Some ws \<Rightarrow>
          (let ws' = filter (\<lambda>tx. \<not> closed tx) ws
           in pin\<lparr>pi_waiters := (if ws' = [] then hm_remove key (pi_waiters pin)
                                 else hm_insert key ws' (pi_waiters pin))\<rparr>))"

text \<open>\<open>None\<close> is the panic when no timeout is configured.\<close>

definition clear_expired ::
  "('c, 'k, 't idle list) lru_lib \<Rightarrow> 't poolable \<Rightarrow> nat \<Rightarrow> ('k, 'c) pool_inner \<Rightarrow> ('k, 'c) pool_inner option"
where
  "clear_expired L P now pin =
     (case pi_timeout pin of
        None \<Rightarrow> None
      | Some dur \<Rightarrow>
          (let cache = lru_map_values L (\<lambda>_ values.
                 filter (\<lambda>e. if \<not> po_is_open P (idle_value e) then False
                             else if dur < now - idle_at e then False else True) values) (pi_idle pin);
               keys_to_remove = filter (\<lambda>k. lru_peek L cache k = Some []) (lru_keys L cache)
           in Some (pin\<lparr>pi_idle := fold (lru_pop L) keys_to_remove cache\<rparr>)))"

section \<open>Operations of the pool handle\<close>

definition pool_connecting ::
  "'k \<Rightarrow> ver \<Rightarrow> ('k, 'c) pool_inner option \<Rightarrow> ('k, 'c) pool_inner option \<times> 'k connecting option"
where
  "pool_connecting key v pool =
     (case pool of
        Some pin \<Rightarrow>
          if v = Http2Only then
            if key \<notin> set (pi_connecting pin) then
              (Some (pin\<lparr>pi_connecting := key # pi_connecting pin\<rparr>), Some \<lparr>cn_key = key, cn_pool = True\<rparr>)
            else (Some pin, None)
          else (Some pin, Some \<lparr>cn_key = key, cn_pool = False\<rparr>)
      | None \<Rightarrow> (None, Some \<lparr>cn_key = key, cn_pool = False\<rparr>))"

definition alpn_h2 ::
  "'k connecting \<Rightarrow> ('k, 'c) pool_inner option \<Rightarrow> ('k, 'c) pool_inner option \<times> 'k connecting option"
where
  "alpn_h2 cn pool = pool_connecting (cn_key cn) Http2Only pool"

definition drop_connecting :: "'k connecting \<Rightarrow> ('k, 'c) pool_inner option \<Rightarrow> ('k, 'c) pool_inner option" where
  "drop_connecting cn pool = (if cn_pool cn then map_option (connected (cn_key cn)) pool else pool)"

text \<open>\<^verbatim>\<open>Pool::pooled\<close>; the guard is dropped at the end of the function.\<close>

definition pool_pooled ::
  "('c, 'k, 't idle list) lru_lib \<Rightarrow> 't poolable \<Rightarrow> (nat \<Rightarrow> bool) \<Rightarrow> (nat \<Rightarrow> bool) \<Rightarrow> nat \<Rightarrow>
   'k connecting \<Rightarrow> 't \<Rightarrow> ('k, 'c) pool_inner option \<Rightarrow>
   ('k, 'c) pool_inner option \<times> ('k, 't) pooled \<times> (nat \<times> 't) list"
where
  "pool_pooled L P closed accepts now cn value pool =
     (case pool of
        Some pin \<Rightarrow>
          (case po_reserve P value of
             Shared to_insert to_return \<Rightarrow>
               (case put L P closed accepts now (cn_key cn) to_insert pin of
                  (pin1, sent) \<Rightarrow>
                    (drop_connecting (cn\<lparr>cn_pool := False\<rparr>) (Some (connected (cn_key cn) pin1)),
                     \<lparr>pl_value = to_return, pl_is_reused = False, pl_key = cn_key cn, pl_pool = False\<rparr>,
                     sent))
           | Unique v \<Rightarrow>
               (drop_connecting cn (Some pin),
                \<lparr>pl_value = v, pl_is_reused = False, pl_key = cn_key cn, pl_pool = True\<rparr>, []))
      | None \<Rightarrow>
          (drop_connecting cn None,
           \<lparr>pl_value = value, pl_is_reused = False, pl_key = cn_key cn, pl_pool = False\<rparr>, []))"

definition reuse :: "'t poolable \<Rightarrow> 'k \<Rightarrow> 't \<Rightarrow> ('k, 'c) pool_inner option \<Rightarrow> ('k, 't) pooled" where
  "reuse P key value pool =
     \<lparr>pl_value = value, pl_is_reused = True, pl_key = key,
      pl_pool = (\<not> po_can_share P value \<and> pool \<noteq> None)\<rparr>"

definition drop_pooled ::
  "('c, 'k, 't idle list) lru_lib \<Rightarrow> 't poolable \<Rightarrow> (nat \<Rightarrow> bool) \<Rightarrow> (nat \<Rightarrow> bool) \<Rightarrow> nat \<Rightarrow>
   ('k, 't) pooled \<Rightarrow> ('k, 'c) pool_inner option \<Rightarrow> ('k, 'c) pool_inner option \<times> (nat \<times> 't) list"
where
  "drop_pooled L P closed accepts now pl pool =
     (if \<not> po_is_open P (pl_value pl) then (pool, [])
      else (case (if pl_pool pl then pool else None) of
              Some pin \<Rightarrow>
                map_prod Some id (put L P closed accepts now (pl_key pl) (pl_value pl) pin)
            | None \<Rightarrow> (pool, [])))"

section \<open>Checkouts\<close>

definition pool_checkout :: "'k \<Rightarrow> 'k checkout" where
  "pool_checkout key = \<lparr>co_key = key, co_waiter = None\<rparr>"

text \<open>\<^verbatim>\<open>Checkout::poll_waiter\<close>; \<open>rx\<close> is the poll of the receiving half: \<open>Some v\<close> a value, \<open>None\<close> a dropped
  sender.\<close>

definition poll_waiter ::
  "'t poolable \<Rightarrow> 't option poll \<Rightarrow> 'k checkout \<Rightarrow> ('k, 'c) pool_inner option \<Rightarrow>
   'k checkout \<times> (pool_error, ('k, 't) pooled) result option poll"
where
  "poll_waiter P rx co pool =
     (case co_waiter co of
        None \<Rightarrow> (co, Ready None)
      | Some tx \<Rightarrow>
          (case rx of
             Ready (Some value) \<Rightarrow>
               (co\<lparr>co_waiter := None\<rparr>,
                Ready (Some (if po_is_open P value then Inr (reuse P (co_key co) value pool)
                             else Inl CheckedOutClosedValue)))
           | Ready None \<Rightarrow> (co\<lparr>co_waiter := None\<rparr>, Ready (Some (Inl CheckoutNoLongerWanted)))
           | NotReady \<Rightarrow> (co, NotReady)))"

text \<open>\<^verbatim>\<open>Checkout::checkout\<close>; \<open>fresh\<close> names the channel it creates.\<close>

definition checkout_idle ::
  "('c, 'k, 't idle list) lru_lib \<Rightarrow> 't poolable \<Rightarrow> nat \<Rightarrow> nat \<Rightarrow> 'k checkout \<Rightarrow>
   ('k, 'c) pool_inner option \<Rightarrow> ('k, 'c) pool_inner option \<times> 'k checkout \<times> ('k, 't) pooled option"
where
  "checkout_idle L P now fresh co pool =
     (case pool of
        None \<Rightarrow> (None, co, None)
      | Some pin \<Rightarrow>
          (let key = co_key co;
               popped = map_option (idle_pop P (pi_timeout pin) now) (lru_peek L (pi_idle pin) key);
               cache = (case popped of
                          Some (l, _) \<Rightarrow> lru_modify L key (\<lambda>_. l) (pi_idle pin)
                        | None \<Rightarrow> pi_idle pin);
               (entry, empty) = (case popped of
                                   Some (l, Some e) \<Rightarrow> (Some e, l = [])
                                 | _ \<Rightarrow> (None, True));
               pin1 = pin\<lparr>pi_idle := (if empty then lru_pop L key cache else cache)\<rparr>;
               (pin2, co') =
                 (if entry = None \<and> co_waiter co = None then
                    (pin1\<lparr>pi_waiters := hm_insert key
                        ((case hm_get (pi_waiters pin1) key of Some ws \<Rightarrow> ws | None \<Rightarrow> []) @ [fresh])
                        (pi_waiters pin1)\<rparr>, co\<lparr>co_waiter := Some fresh\<rparr>)
                  else (pin1, co))
           in (Some pin2, co', map_option (\<lambda>e. reuse P key (idle_value e) pool) entry)))"

definition checkout_poll ::
  "('c, 'k, 't idle list) lru_lib \<Rightarrow> 't poolable \<Rightarrow> nat \<Rightarrow> nat \<Rightarrow> 't option poll \<Rightarrow> 'k checkout \<Rightarrow>
   ('k, 'c) pool_inner option \<Rightarrow>
   ('k, 'c) pool_inner option \<times> 'k checkout \<times> (pool_error, ('k, 't) pooled) result poll"
where
  "checkout_poll L P now fresh rx co pool =
     (case poll_waiter P rx co pool of
        (co1, NotReady) \<Rightarrow> (pool, co1, NotReady)
      | (co1, Ready (Some (Inl e))) \<Rightarrow> (pool, co1, Ready (Inl e))
      | (co1, Ready (Some (Inr pl))) \<Rightarrow> (pool, co1, Ready (Inr pl))
      | (co1, Ready None) \<Rightarrow>
          (case checkout_idle L P now fresh co1 pool of
             (pool', co2, Some pl) \<Rightarrow> (pool', co2, Ready (Inr pl))
           | (pool', co2, None) \<Rightarrow>
               (pool', co2, if pool = None then Ready (Inl PoolDisabled) else NotReady)))"

definition drop_checkout ::
  "(nat \<Rightarrow> bool) \<Rightarrow> 'k checkout \<Rightarrow> ('k, 'c) pool_inner option \<Rightarrow> ('k, 'c) pool_inner option"
where
  "drop_checkout closed co pool =
     (if co_waiter co \<noteq> None then map_option (clean_waiters closed (co_key co)) pool else pool)"

section \<open>Lookups in the cache\<close>

lemma lru_laws:
  assumes "lru_ok L"
  shows "lru_peek L (lru_new L cap) k = None"
    and "lru_peek L (lru_modify L k f c) k' =
      (if k' = k then map_option f (lru_peek L c k) else lru_peek L c k')"
    and "lru_peek L (lru_get_or_insert L k d c) k =
      Some (case lru_peek L c k of Some v \<Rightarrow> v | None \<Rightarrow> d)"
    and "lru_peek L (lru_pop L k c) k' = (if k' = k then None else lru_peek L c k')"
    and "lru_peek L (lru_map_values L g c) k = map_option (g k) (lru_peek L c k)"
    and "set (lru_keys L c) = {k. lru_peek L c k \<noteq> None}"
  using assms by (simp_all add: lru_ok_def)

lemma lru_insert_other:
  assumes "lru_ok L" "k' \<noteq> k"
  shows "lru_peek L (lru_get_or_insert L k d c) k' = lru_peek L c k' \<or>
         lru_peek L (lru_get_or_insert L k d c) k' = None"
  using assms by (auto simp: lru_ok_def)

lemma lru_pop_fold:
  assumes "lru_ok L"
  shows "lru_peek L (fold (lru_pop L) ks c) k = (if k \<in> set ks then None else lru_peek L c k)"
  by (induction ks arbitrary: c) (auto simp: lru_laws(4) [OF assms])

section \<open>What every connection type promises\<close>

text \<open>A shareable connection is cloned by a reservation, a unique one handed over.\<close>

locale poolable_laws =
  fixes P :: "'t poolable"
  assumes reserve_shared: "po_can_share P v \<Longrightarrow> po_reserve P v = Shared v v"
    and reserve_unique: "\<not> po_can_share P v \<Longrightarrow> po_reserve P v = Unique v"
begin

lemma reserve: "po_reserve P v = (if po_can_share P v then Shared v v else Unique v)"
  by (simp add: reserve_shared reserve_unique)

lemma pop_loop_cases:
  obtains "pop_loop P ex now es = ([], None)" "\<forall>e\<in>set es. \<not> po_is_open P (idle_value e) \<or> expires ex (idle_at e) now"
  | ys e xs where "es = ys @ e # xs" "po_is_open P (idle_value e)" "\<not> expires ex (idle_at e) now"
      "\<forall>y\<in>set ys. \<not> po_is_open P (idle_value y) \<or> expires ex (idle_at y) now"
      "pop_loop P ex now es =
         ((if po_can_share P (idle_value e) then [\<lparr>idle_at = now, idle_value = idle_value e\<rparr>] else []) @ xs,
          Some e)"
proof (induction es arbitrary: thesis)
  case Nil
  then show ?case by simp
next
  case (Cons e es)
  show ?case
  proof (cases "po_is_open P (idle_value e) \<and> \<not> expires ex (idle_at e) now")
    case True
    then show ?thesis by (intro Cons.prems(2) [of "[]" e es]) (auto simp: reserve)
  next
    case False
    then have eq: "pop_loop P ex now (e # es) = pop_loop P ex now es" by auto
    show ?thesis
    proof (rule Cons.IH)
      assume "pop_loop P ex now es = ([], None)"
        "\<forall>e\<in>set es. \<not> po_is_open P (idle_value e) \<or> expires ex (idle_at e) now"
      with False eq show thesis by (intro Cons.prems(1)) auto
    next
      fix ys e' xs
      assume "es = ys @ e' # xs" "po_is_open P (idle_value e')" "\<not> expires ex (idle_at e') now"
        "\<forall>y\<in>set ys. \<not> po_is_open P (idle_value y) \<or> expires ex (idle_at y) now"
        "pop_loop P ex now es =
         ((if po_can_share P (idle_value e') then [\<lparr>idle_at = now, idle_value = idle_value e'\<rparr>] else []) @ xs,
          Some e')"
      with False eq show thesis by (intro Cons.prems(2) [of "e # ys" e' xs]) auto
    qed
  qed
qed

lemma idle_pop_cases:
  obtains "idle_pop P ex now l = ([], None)" "\<forall>e\<in>set l. \<not> po_is_open P (idle_value e) \<or> expires ex (idle_at e) now"
  | xs e ys where "l = xs @ e # ys" "po_is_open P (idle_value e)" "\<not> expires ex (idle_at e) now"
      "\<forall>y\<in>set ys. \<not> po_is_open P (idle_value y) \<or> expires ex (idle_at y) now"
      "idle_pop P ex now l =
         (xs @ (if po_can_share P (idle_value e) then [\<lparr>idle_at = now, idle_value = idle_value e\<rparr>] else []),
          Some e)"
proof (rule pop_loop_cases [of ex now "rev l"])
  assume "pop_loop P ex now (rev l) = ([], None)"
    "\<forall>e\<in>set (rev l). \<not> po_is_open P (idle_value e) \<or> expires ex (idle_at e) now"
  then show thesis by (intro that(1)) (simp_all add: idle_pop_def)
next
  fix ys e xs
  assume a: "rev l = ys @ e # xs" "po_is_open P (idle_value e)" "\<not> expires ex (idle_at e) now"
    "\<forall>y\<in>set ys. \<not> po_is_open P (idle_value y) \<or> expires ex (idle_at y) now"
    "pop_loop P ex now (rev l) =
      ((if po_can_share P (idle_value e) then [\<lparr>idle_at = now, idle_value = idle_value e\<rparr>] else []) @ xs, Some e)"
  from a(1) have "l = rev xs @ e # rev ys"
    using rev_rev_ident [of l] by simp
  with a show thesis by (intro that(2) [of "rev xs" e "rev ys"]) (simp_all add: idle_pop_def)
qed

text \<open>A queue of waiters served with a unique connection, and with a shareable one.\<close>

lemma serve_unique:
  assumes "\<not> po_can_share P v"
  obtains "serve_waiters P closed accepts ws v = ([], Some v, [])"
      "\<forall>tx\<in>set ws. closed tx \<or> \<not> accepts tx"
  | as tx bs where "ws = as @ tx # bs" "\<not> closed tx" "accepts tx" "\<forall>tx\<in>set as. closed tx \<or> \<not> accepts tx"
      "serve_waiters P closed accepts ws v = (bs, None, [(tx, v)])"
proof (induction ws arbitrary: thesis)
  case Nil
  then show ?case by simp
next
  case (Cons tx ws)
  show ?case
  proof (cases "\<not> closed tx \<and> accepts tx")
    case True
    then show ?thesis using assms by (intro Cons.prems(2) [of "[]" tx ws]) (auto simp: reserve)
  next
    case False
    then have eq: "serve_waiters P closed accepts (tx # ws) v = serve_waiters P closed accepts ws v"
      using assms by (auto simp: reserve)
    show ?thesis
    proof (rule Cons.IH)
      assume "serve_waiters P closed accepts ws v = ([], Some v, [])"
        "\<forall>tx\<in>set ws. closed tx \<or> \<not> accepts tx"
      with False eq show thesis by (intro Cons.prems(1)) auto
    next
      fix as t bs
      assume "ws = as @ t # bs" "\<not> closed t" "accepts t" "\<forall>tx\<in>set as. closed tx \<or> \<not> accepts tx"
        "serve_waiters P closed accepts ws v = (bs, None, [(t, v)])"
      with False eq show thesis by (intro Cons.prems(2) [of "tx # as" t bs]) auto
    qed
  qed
qed

lemma serve_shared:
  assumes "po_can_share P v"
  shows "serve_waiters P closed accepts ws v =
    ([], Some v, map (\<lambda>tx. (tx, v)) (filter (\<lambda>tx. \<not> closed tx \<and> accepts tx) ws))"
  using assms by (induction ws) (simp_all add: reserve)

end

section \<open>The invariant of the pool\<close>

definition idle_list :: "('c, 'k, 't idle list) lru_lib \<Rightarrow> 'c \<Rightarrow> 'k \<Rightarrow> 't idle list" where
  "idle_list L c k = (case lru_peek L c k of Some l \<Rightarrow> l | None \<Rightarrow> [])"

text \<open>Idle lists are never empty, hold at most the configured number of connections and at most one
  shareable connection; queues of waiters are never empty.\<close>

definition idle_ok :: "'t poolable \<Rightarrow> nat \<Rightarrow> 't idle list \<Rightarrow> bool" where
  "idle_ok P m l \<longleftrightarrow>
     l \<noteq> [] \<and> length l \<le> m \<and> length (filter (\<lambda>e. po_can_share P (idle_value e)) l) \<le> 1"

definition pool_inv :: "('c, 'k, 't idle list) lru_lib \<Rightarrow> 't poolable \<Rightarrow> ('k, 'c) pool_inner \<Rightarrow> bool" where
  "pool_inv L P pin \<longleftrightarrow>
     0 < pi_max_idle pin \<and> distinct (pi_connecting pin) \<and> hm_wf (pi_waiters pin) \<and>
     (\<forall>k. hm_get (pi_waiters pin) k \<noteq> Some []) \<and>
     (\<forall>k l. lru_peek L (pi_idle pin) k = Some l \<longrightarrow> idle_ok P (pi_max_idle pin) l)"

lemma idle_ok_cong [simp]: "idle_ok (P\<lparr>po_is_open := f\<rparr>) = idle_ok P"
  by (intro ext) (simp add: idle_ok_def)

lemma pool_inv_cong [simp]: "pool_inv L (P\<lparr>po_is_open := f\<rparr>) = pool_inv L P"
  by (intro ext) (simp add: pool_inv_def)

lemma spawn_simps [simp]:
  "pi_connecting (spawn_idle_interval pin) = pi_connecting pin"
  "pi_idle (spawn_idle_interval pin) = pi_idle pin"
  "pi_max_idle (spawn_idle_interval pin) = pi_max_idle pin"
  "pi_waiters (spawn_idle_interval pin) = pi_waiters pin"
  "pi_timeout (spawn_idle_interval pin) = pi_timeout pin"
  by (simp_all add: spawn_idle_interval_def split: option.split)

text \<open>Every update of the waiters leaves a queue that is well formed.\<close>

lemma waiters_update:
  assumes "hm_wf m" "\<forall>k. hm_get m k \<noteq> Some []"
  shows "hm_wf (if ws = [] then hm_remove key m else hm_insert key ws m) \<and>
    (\<forall>k. hm_get (if ws = [] then hm_remove key m else hm_insert key ws m) k \<noteq> Some [])"
  using assms by (auto simp: hash_simps)

lemma offer_simps:
  assumes "offer_waiters P closed accepts key value pin = (pin1, v, sent)"
  shows "pi_connecting pin1 = pi_connecting pin" "pi_idle pin1 = pi_idle pin"
    "pi_max_idle pin1 = pi_max_idle pin" "pi_timeout pin1 = pi_timeout pin"
    "hm_wf (pi_waiters pin) \<Longrightarrow> \<forall>k. hm_get (pi_waiters pin) k \<noteq> Some [] \<Longrightarrow>
       hm_wf (pi_waiters pin1) \<and> (\<forall>k. hm_get (pi_waiters pin1) k \<noteq> Some [])"
proof -
  obtain W where W: "pin1 = pin\<lparr>pi_waiters := W\<rparr>"
    and ok: "hm_wf (pi_waiters pin) \<Longrightarrow> \<forall>k. hm_get (pi_waiters pin) k \<noteq> Some [] \<Longrightarrow>
       hm_wf W \<and> (\<forall>k. hm_get W k \<noteq> Some [])"
  proof (cases "hm_get (pi_waiters pin) key")
    case None
    with assms have "pin1 = pin\<lparr>pi_waiters := pi_waiters pin\<rparr>" by (simp add: offer_waiters_def)
    then show thesis by (rule that) simp
  next
    case (Some ws)
    with assms have "pin1 = pin\<lparr>pi_waiters :=
        (if fst (serve_waiters P closed accepts ws value) = [] then hm_remove key (pi_waiters pin)
         else hm_insert key (fst (serve_waiters P closed accepts ws value)) (pi_waiters pin))\<rparr>"
      by (simp add: offer_waiters_def split_beta)
    then show thesis by (rule that) (rule waiters_update)
  qed
  show "pi_connecting pin1 = pi_connecting pin" "pi_idle pin1 = pi_idle pin"
    "pi_max_idle pin1 = pi_max_idle pin" "pi_timeout pin1 = pi_timeout pin"
    using W by simp_all
  assume "hm_wf (pi_waiters pin)" "\<forall>k. hm_get (pi_waiters pin) k \<noteq> Some []"
  from ok [OF this] W show "hm_wf (pi_waiters pin1) \<and> (\<forall>k. hm_get (pi_waiters pin1) k \<noteq> Some [])" by simp
qed

text \<open>What storing an idle connection does to the lists of the cache.\<close>

lemma store_idle_effect:
  assumes "lru_ok L" "0 < pi_max_idle pin"
  shows "idle_list L (pi_idle (store_idle L now key v pin)) key =
      idle_list L (pi_idle pin) key @
        (if pi_max_idle pin \<le> length (idle_list L (pi_idle pin) key) then []
         else [\<lparr>idle_at = now, idle_value = v\<rparr>])"
    and "lru_peek L (pi_idle (store_idle L now key v pin)) key \<noteq> None"
    and "k \<noteq> key \<Longrightarrow> lru_peek L (pi_idle (store_idle L now key v pin)) k = lru_peek L (pi_idle pin) k \<or>
      lru_peek L (pi_idle (store_idle L now key v pin)) k = None"
    and "pi_connecting (store_idle L now key v pin) = pi_connecting pin"
    and "pi_waiters (store_idle L now key v pin) = pi_waiters pin"
    and "pi_max_idle (store_idle L now key v pin) = pi_max_idle pin"
    and "pi_timeout (store_idle L now key v pin) = pi_timeout pin"
proof -
  note laws = lru_laws [OF assms(1)]
  show "idle_list L (pi_idle (store_idle L now key v pin)) key =
      idle_list L (pi_idle pin) key @
        (if pi_max_idle pin \<le> length (idle_list L (pi_idle pin) key) then []
         else [\<lparr>idle_at = now, idle_value = v\<rparr>])"
    "lru_peek L (pi_idle (store_idle L now key v pin)) key \<noteq> None"
    using assms(2) by (auto simp: store_idle_def Let_def idle_list_def laws split: option.split)
  show "k \<noteq> key \<Longrightarrow> lru_peek L (pi_idle (store_idle L now key v pin)) k = lru_peek L (pi_idle pin) k \<or>
      lru_peek L (pi_idle (store_idle L now key v pin)) k = None"
    using lru_insert_other [OF assms(1), of k key "[]" "pi_idle pin"]
    by (simp add: store_idle_def Let_def laws(2))
  show "pi_connecting (store_idle L now key v pin) = pi_connecting pin"
    "pi_waiters (store_idle L now key v pin) = pi_waiters pin"
    "pi_max_idle (store_idle L now key v pin) = pi_max_idle pin"
    "pi_timeout (store_idle L now key v pin) = pi_timeout pin"
    by (simp_all add: store_idle_def Let_def)
qed

lemma peek_idle_list: "lru_peek L c k = Some l \<Longrightarrow> idle_list L c k = l"
  by (simp add: idle_list_def)

lemma store_idle_inv:
  assumes L: "lru_ok L" and inv: "pool_inv L P pin"
    and new: "po_can_share P v \<Longrightarrow> lru_peek L (pi_idle pin) key = None"
  shows "pool_inv L P (store_idle L now key v pin)"
proof -
  have m: "0 < pi_max_idle pin" using inv by (simp add: pool_inv_def)
  note e = store_idle_effect [OF L m, where now = now and key = key and v = v]
  have "idle_ok P (pi_max_idle pin) l"
    if "lru_peek L (pi_idle (store_idle L now key v pin)) k = Some l" for k l
  proof (cases "k = key")
    case False
    from that e(3) [OF False] have "lru_peek L (pi_idle pin) k = Some l" by simp
    with inv show ?thesis by (simp add: pool_inv_def)
  next
    case True
    with that e(1) have l: "l = idle_list L (pi_idle pin) key @
        (if pi_max_idle pin \<le> length (idle_list L (pi_idle pin) key) then []
         else [\<lparr>idle_at = now, idle_value = v\<rparr>])"
      by (simp add: peek_idle_list)
    show ?thesis
    proof (cases "lru_peek L (pi_idle pin) key")
      case None
      with l m show ?thesis by (simp add: idle_list_def idle_ok_def)
    next
      case (Some l0)
      then have "idle_ok P (pi_max_idle pin) l0" "\<not> po_can_share P v"
        using inv new by (auto simp: pool_inv_def)
      with l Some show ?thesis by (auto simp: idle_list_def idle_ok_def)
    qed
  qed
  with inv e(4-6) show ?thesis by (simp add: pool_inv_def)
qed

context poolable_laws
begin

lemma offer_result:
  assumes "offer_waiters P closed accepts key v pin = (pin1, v', sent)"
  shows "v' = Some v \<and> (\<not> po_can_share P v \<longrightarrow> sent = []) \<or>
         \<not> po_can_share P v \<and> v' = None \<and> (\<exists>tx. sent = [(tx, v)])"
proof (cases "hm_get (pi_waiters pin) key")
  case None
  with assms show ?thesis by (simp add: offer_waiters_def)
next
  case (Some ws)
  obtain ws' a b where abc: "serve_waiters P closed accepts ws v = (ws', a, b)" by (metis prod_cases3)
  with assms Some have s: "serve_waiters P closed accepts ws v = (ws', v', sent)"
    by (simp add: offer_waiters_def)
  show ?thesis
  proof (cases "po_can_share P v")
    case True
    with s serve_shared [OF True, of closed accepts ws] show ?thesis by simp
  next
    case False
    then show ?thesis by (rule serve_unique [of v closed accepts ws]) (use s False in auto)
  qed
qed

lemma put_cases:
  assumes "put L P closed accepts now key v pin = (pin', sent)"
  obtains (dropped) "po_can_share P v" "lru_peek L (pi_idle pin) key \<noteq> None" "pin' = pin" "sent = []"
  | (given) tx where "\<not> po_can_share P v" "sent = [(tx, v)]"
      "offer_waiters P closed accepts key v pin = (pin', None, sent)"
  | (stored) pin1 where "offer_waiters P closed accepts key v pin = (pin1, Some v, sent)"
      "pin' = store_idle L now key v pin1"
      "po_can_share P v \<Longrightarrow> lru_peek L (pi_idle pin) key = None"
      "\<not> po_can_share P v \<Longrightarrow> sent = []"
proof (cases "po_can_share P v \<and> lru_peek L (pi_idle pin) key \<noteq> None")
  case True
  with assms show thesis by (intro dropped) (simp_all add: put_def)
next
  case False
  obtain pin1 v' s where o: "offer_waiters P closed accepts key v pin = (pin1, v', s)" by (metis prod_cases3)
  from offer_result [OF o] show thesis
  proof (elim disjE conjE exE)
    assume "v' = Some v" "\<not> po_can_share P v \<longrightarrow> s = []"
    with False o assms show thesis by (intro stored [of pin1]) (auto simp: put_def)
  next
    fix tx
    assume "\<not> po_can_share P v" "v' = None" "s = [(tx, v)]"
    with False o assms show thesis by (intro given [of tx]) (auto simp: put_def)
  qed
qed

lemma put_simps:
  assumes "put L P closed accepts now key v pin = (pin', sent)"
  shows "pi_connecting pin' = pi_connecting pin" "pi_max_idle pin' = pi_max_idle pin"
    "pi_timeout pin' = pi_timeout pin"
proof -
  have st: "pi_connecting (store_idle L now key v q) = pi_connecting q"
    "pi_max_idle (store_idle L now key v q) = pi_max_idle q"
    "pi_timeout (store_idle L now key v q) = pi_timeout q" for q
    by (simp_all add: store_idle_def Let_def)
  from assms have "pi_connecting pin' = pi_connecting pin \<and> pi_max_idle pin' = pi_max_idle pin \<and>
      pi_timeout pin' = pi_timeout pin"
  proof (rule put_cases)
    fix tx assume "offer_waiters P closed accepts key v pin = (pin', None, sent)"
    from offer_simps [OF this] show ?thesis by simp
  next
    fix pin1
    assume "offer_waiters P closed accepts key v pin = (pin1, Some v, sent)"
      and "pin' = store_idle L now key v pin1"
    with offer_simps [OF this(1)] show ?thesis by (simp add: st)
  qed simp
  then show "pi_connecting pin' = pi_connecting pin" "pi_max_idle pin' = pi_max_idle pin"
    "pi_timeout pin' = pi_timeout pin"
    by simp_all
qed

lemma put_inv:
  assumes L: "lru_ok L" and inv: "pool_inv L P pin"
    and put: "put L P closed accepts now key v pin = (pin', sent)"
  shows "pool_inv L P pin'"
  using put
proof (rule put_cases)
  assume "pin' = pin"
  with inv show ?thesis by simp
next
  fix tx
  assume "offer_waiters P closed accepts key v pin = (pin', None, sent)"
  from offer_simps [OF this] inv show ?thesis by (simp add: pool_inv_def)
next
  fix pin1
  assume o: "offer_waiters P closed accepts key v pin = (pin1, Some v, sent)"
    and st: "pin' = store_idle L now key v pin1"
    and n: "po_can_share P v \<Longrightarrow> lru_peek L (pi_idle pin) key = None"
  note f = offer_simps [OF o]
  have inv1: "pool_inv L P pin1" using f inv by (simp add: pool_inv_def)
  show ?thesis unfolding st
    by (rule store_idle_inv [OF L inv1]) (use n f(2) in simp)
qed

end

lemma connected_inv: "pool_inv L P pin \<Longrightarrow> pool_inv L P (connected key pin)"
  by (auto simp: pool_inv_def connected_def hash_simps distinct_removeAll)

lemma clean_waiters_inv:
  assumes "pool_inv L P pin"
  shows "pool_inv L P (clean_waiters closed key pin)"
  using assms waiters_update [of "pi_waiters pin" _ key]
  by (simp add: pool_inv_def clean_waiters_def Let_def split: option.split)

lemma evict_iff: "(if \<not> a then False else if b < c then False else True) \<longleftrightarrow> a \<and> c \<le> b" for b c :: nat
  by auto

lemma length_filter_filter: "length (filter Q (filter R l)) \<le> length (filter Q l)"
  by (induction l) auto

text \<open>The idle task leaves exactly the connections that are open and not expired.\<close>

lemma clear_expired_peek:
  assumes L: "lru_ok L" and c: "clear_expired L P now pin = Some pin'" and t: "pi_timeout pin = Some dur"
  shows "lru_peek L (pi_idle pin') k =
    (case filter (\<lambda>e. po_is_open P (idle_value e) \<and> now - idle_at e \<le> dur) (idle_list L (pi_idle pin) k) of
       [] \<Rightarrow> None | l \<Rightarrow> Some l)"
proof -
  note laws = lru_laws [OF L] lru_pop_fold [OF L]
  from c [unfolded clear_expired_def evict_iff] t show ?thesis
    by (cases "lru_peek L (pi_idle pin) k")
      (auto simp: Let_def laws idle_list_def split: list.split)
qed

lemma clear_expired_inv:
  assumes L: "lru_ok L" and inv: "pool_inv L P pin" and c: "clear_expired L P' now pin = Some pin'"
  shows "pool_inv L P pin'"
proof -
  obtain dur where t: "pi_timeout pin = Some dur"
    using c by (cases "pi_timeout pin") (simp_all add: clear_expired_def)
  note peek = clear_expired_peek [OF L c t]
  have "idle_ok P (pi_max_idle pin) l" if p: "lru_peek L (pi_idle pin') k = Some l" for k l
  proof -
    from p peek [of k] have l: "l \<noteq> []"
      "l = filter (\<lambda>e. po_is_open P' (idle_value e) \<and> now - idle_at e \<le> dur) (idle_list L (pi_idle pin) k)"
      by (auto split: list.split_asm)
    then obtain l0 where l0: "lru_peek L (pi_idle pin) k = Some l0"
      by (cases "lru_peek L (pi_idle pin) k") (auto simp: idle_list_def)
    with inv have "idle_ok P (pi_max_idle pin) l0" by (simp add: pool_inv_def)
    moreover have "length (filter (\<lambda>e. po_can_share P (idle_value e)) l) \<le>
        length (filter (\<lambda>e. po_can_share P (idle_value e)) l0)" "length l \<le> length l0"
      unfolding l(2) peek_idle_list [OF l0] by (rule length_filter_filter, rule length_filter_le)
    ultimately show ?thesis using l(1) unfolding idle_ok_def by linarith
  qed
  moreover have "pi_max_idle pin' = pi_max_idle pin" "pi_connecting pin' = pi_connecting pin"
    "pi_waiters pin' = pi_waiters pin"
    using c t by (auto simp: clear_expired_def Let_def)
  ultimately show ?thesis using inv by (simp add: pool_inv_def)
qed

text \<open>One attempt of a checkout, seen through the idle lists.\<close>

lemma checkout_idle_effect:
  assumes L: "lru_ok L" and pop: "idle_pop P (pi_timeout pin) now (idle_list L (pi_idle pin) (co_key co)) = (l, entry)"
    and c: "checkout_idle L P now fresh co (Some pin) = (pool', co', r)"
  obtains pin' where "pool' = Some pin'"
    "r = map_option (\<lambda>e. reuse P (co_key co) (idle_value e) (Some pin)) entry"
    "\<And>k. lru_peek L (pi_idle pin') k =
       (if k = co_key co then (if entry = None \<or> l = [] then None else Some l) else lru_peek L (pi_idle pin) k)"
    "pi_connecting pin' = pi_connecting pin" "pi_max_idle pin' = pi_max_idle pin" "pi_timeout pin' = pi_timeout pin"
    "entry = None \<and> co_waiter co = None \<and> co' = co\<lparr>co_waiter := Some fresh\<rparr> \<and>
       pi_waiters pin' = hm_insert (co_key co)
         ((case hm_get (pi_waiters pin) (co_key co) of Some ws \<Rightarrow> ws | None \<Rightarrow> []) @ [fresh]) (pi_waiters pin) \<or>
     (entry \<noteq> None \<or> co_waiter co \<noteq> None) \<and> co' = co \<and> pi_waiters pin' = pi_waiters pin"
proof -
  note laws = lru_laws [OF L]
  define cache where "cache = (case lru_peek L (pi_idle pin) (co_key co) of
      Some _ \<Rightarrow> lru_modify L (co_key co) (\<lambda>_. l) (pi_idle pin) | None \<Rightarrow> pi_idle pin)"
  define pin1 where "pin1 = pin\<lparr>pi_idle :=
      (if entry = None \<or> l = [] then lru_pop L (co_key co) cache else cache)\<rparr>"
  define pin2 where "pin2 = (if entry = None \<and> co_waiter co = None then
      pin1\<lparr>pi_waiters := hm_insert (co_key co)
        ((case hm_get (pi_waiters pin1) (co_key co) of Some ws \<Rightarrow> ws | None \<Rightarrow> []) @ [fresh]) (pi_waiters pin1)\<rparr>
      else pin1)"
  have nil: "idle_pop P (pi_timeout pin) now [] = ([], None)" by (simp add: idle_pop_def)
  have "checkout_idle L P now fresh co (Some pin) =
      (Some pin2, if entry = None \<and> co_waiter co = None then co\<lparr>co_waiter := Some fresh\<rparr> else co,
       map_option (\<lambda>e. reuse P (co_key co) (idle_value e) (Some pin)) entry)"
  proof (cases "lru_peek L (pi_idle pin) (co_key co)")
    case None
    with pop nil have "entry = None" "l = []" by (simp_all add: idle_list_def)
    with None show ?thesis
      by (simp add: checkout_idle_def cache_def pin1_def pin2_def Let_def)
  next
    case (Some l0)
    with pop have "idle_pop P (pi_timeout pin) now l0 = (l, entry)" by (simp add: idle_list_def)
    with Some show ?thesis
      by (cases entry) (simp_all add: checkout_idle_def cache_def pin1_def pin2_def Let_def)
  qed
  with c have e: "pool' = Some pin2"
    "co' = (if entry = None \<and> co_waiter co = None then co\<lparr>co_waiter := Some fresh\<rparr> else co)"
    "r = map_option (\<lambda>e. reuse P (co_key co) (idle_value e) (Some pin)) entry"
    by simp_all
  have peek: "lru_peek L (pi_idle pin2) k =
       (if k = co_key co then (if entry = None \<or> l = [] then None else Some l) else lru_peek L (pi_idle pin) k)" for k
  proof (cases "lru_peek L (pi_idle pin) (co_key co)")
    case None
    with pop nil have "entry = None" by (simp add: idle_list_def)
    with None show ?thesis by (simp add: pin2_def pin1_def cache_def laws)
  next
    case (Some l0)
    then show ?thesis by (simp add: pin2_def pin1_def cache_def laws)
  qed
  show thesis
    by (rule that [OF e(1) e(3) peek]) (simp_all add: pin2_def pin1_def e(2))
qed

context poolable_laws
begin

lemma idle_pop_ok:
  assumes "idle_pop P ex now l = (l', Some e)" "idle_ok P m l" "l' \<noteq> []"
  shows "idle_ok P m l'"
  using assms(1)
proof (rule_tac idle_pop_cases [of ex now l])
  fix xs e' ys
  assume "l = xs @ e' # ys"
    "idle_pop P ex now l =
      (xs @ (if po_can_share P (idle_value e') then [\<lparr>idle_at = now, idle_value = idle_value e'\<rparr>] else []), Some e')"
  with assms show ?thesis by (auto simp: idle_ok_def split: if_split_asm)
qed simp

lemma checkout_idle_inv:
  assumes L: "lru_ok L" and inv: "pool_inv L P pin"
    and c: "checkout_idle L P now fresh co (Some pin) = (Some pin', co', r)"
  shows "pool_inv L P pin'"
proof -
  obtain l entry where pop: "idle_pop P (pi_timeout pin) now (idle_list L (pi_idle pin) (co_key co)) = (l, entry)"
    by fastforce
  from checkout_idle_effect [OF L pop c] obtain
    peek: "\<And>k. lru_peek L (pi_idle pin') k =
       (if k = co_key co then (if entry = None \<or> l = [] then None else Some l) else lru_peek L (pi_idle pin) k)"
    and same: "pi_connecting pin' = pi_connecting pin" "pi_max_idle pin' = pi_max_idle pin"
    and w: "pi_waiters pin' = hm_insert (co_key co)
         ((case hm_get (pi_waiters pin) (co_key co) of Some ws \<Rightarrow> ws | None \<Rightarrow> []) @ [fresh]) (pi_waiters pin) \<or>
      pi_waiters pin' = pi_waiters pin"
    by (metis option.inject)
  have "idle_ok P (pi_max_idle pin) l'" if p: "lru_peek L (pi_idle pin') k = Some l'" for k l'
  proof (cases "k = co_key co")
    case False
    with p peek inv show ?thesis by (simp add: pool_inv_def)
  next
    case True
    with p peek have "l' = l" "l \<noteq> []" "entry \<noteq> None" by (auto split: if_split_asm)
    then obtain e where e: "idle_pop P (pi_timeout pin) now (idle_list L (pi_idle pin) (co_key co)) = (l', Some e)"
      "l' \<noteq> []"
      using pop by auto
    show ?thesis
    proof (cases "lru_peek L (pi_idle pin) (co_key co)")
      case None
      with e(1) show ?thesis by (simp add: idle_list_def idle_pop_def)
    next
      case (Some l0)
      with inv have ok: "idle_ok P (pi_max_idle pin) l0" by (simp add: pool_inv_def)
      from e(1) have "idle_pop P (pi_timeout pin) now l0 = (l', Some e)"
        by (simp add: peek_idle_list [OF Some])
      then show ?thesis using ok e(2) by (rule idle_pop_ok)
    qed
  qed
  with inv same w show ?thesis by (auto simp: pool_inv_def hash_simps split: if_split_asm)
qed

lemma checkout_poll_inv:
  assumes L: "lru_ok L" and inv: "pool_inv L P pin"
    and c: "checkout_poll L P now fresh rx co (Some pin) = (Some pin', co', out)"
  shows "pool_inv L P pin'"
proof (cases "co_waiter co")
  case None
  obtain pool1 co1 r1 where ci: "checkout_idle L P now fresh co (Some pin) = (pool1, co1, r1)"
    by (metis prod_cases3)
  with None c have "pool1 = Some pin'"
    by (cases r1) (simp_all add: checkout_poll_def poll_waiter_def)
  with ci have "checkout_idle L P now fresh co (Some pin) = (Some pin', co1, r1)" by simp
  then show ?thesis by (rule checkout_idle_inv [OF L inv])
next
  case (Some tx)
  with c have "pin' = pin"
    by (auto simp: checkout_poll_def poll_waiter_def split: poll.split_asm option.split_asm if_split_asm)
  with inv show ?thesis by simp
qed

end

section \<open>The pool and its users\<close>

text \<open>The pool with everything that refers to it: values sent to waiters and not yet received, live
  checkouts, checked-out connections and connecting guards.  Each step is one critical section; which
  step comes next, the clock and the state of the connections are arbitrary.\<close>

record ('k, 't, 'c) pool_sys =
  sy_pool :: "('k, 'c) pool_inner"
  sy_inbox :: "(nat \<times> 't) list"
  sy_checkouts :: "'k checkout list"
  sy_held :: "('k, 't) pooled list"
  sy_locks :: "'k connecting list"
  sy_next :: nat

definition channels :: "('k, 't, 'c) pool_sys \<Rightarrow> nat set" where
  "channels s = {tx. \<exists>co \<in> set (sy_checkouts s). co_waiter co = Some tx}"

text \<open>What polling the receiving half can return, and the values in flight afterwards.\<close>

inductive receives ::
  "(nat \<times> 't) list \<Rightarrow> nat option \<Rightarrow> 't option poll \<Rightarrow> (nat \<times> 't) list \<Rightarrow> bool"
where
  "receives inbox w NotReady inbox"
| "\<forall>v. (tx, v) \<notin> set inbox \<Longrightarrow> receives inbox (Some tx) (Ready None) inbox"
| "(tx, v) \<in> set inbox \<Longrightarrow> receives inbox (Some tx) (Ready (Some v)) (remove1 (tx, v) inbox)"

definition idle_count :: "('c, 'k, 't idle list) lru_lib \<Rightarrow> 'c \<Rightarrow> 't \<Rightarrow> nat" where
  "idle_count L c t = (\<Sum>k \<in> set (lru_keys L c). count_list (map idle_value (idle_list L c k)) t)"

definition uses :: "('c, 'k, 't idle list) lru_lib \<Rightarrow> ('k, 't, 'c) pool_sys \<Rightarrow> 't \<Rightarrow> nat" where
  "uses L s t =
     idle_count L (pi_idle (sy_pool s)) t + count_list (map snd (sy_inbox s)) t +
     count_list (map pl_value (sy_held s)) t"

inductive pool_step ::
  "('c, 'k, 't idle list) lru_lib \<Rightarrow> 't poolable \<Rightarrow> ('k, 't, 'c) pool_sys \<Rightarrow> ('k, 't, 'c) pool_sys \<Rightarrow> bool"
  for L P
where
  checkout: "pool_step L P s (s\<lparr>sy_checkouts := pool_checkout key # sy_checkouts s\<rparr>)"
| poll: "sy_checkouts s = xs @ co # ys \<Longrightarrow> receives (sy_inbox s) (co_waiter co) rx inbox \<Longrightarrow>
    checkout_poll L (P\<lparr>po_is_open := opn\<rparr>) now (sy_next s) rx co (Some (sy_pool s)) = (Some pin, co', out) \<Longrightarrow>
    pool_step L P s
      (s\<lparr>sy_pool := pin, sy_inbox := inbox, sy_next := Suc (sy_next s),
         sy_checkouts := (case out of NotReady \<Rightarrow> xs @ co' # ys | _ \<Rightarrow> xs @ ys),
         sy_held := (case out of Ready (Inr pl) \<Rightarrow> pl # sy_held s | _ \<Rightarrow> sy_held s)\<rparr>)"
| drop_receiver: "sy_checkouts s = xs @ co # ys \<Longrightarrow>
    pool_step L P s
      (s\<lparr>sy_checkouts := xs @ ys,
         sy_inbox := filter (\<lambda>m. co_waiter co \<noteq> Some (fst m)) (sy_inbox s)\<rparr>)"
| clean: "pool_step L P s (s\<lparr>sy_pool := clean_waiters closed key (sy_pool s)\<rparr>)"
| connect: "pool_connecting key v (Some (sy_pool s)) = (Some pin, r) \<Longrightarrow>
    pool_step L P s
      (s\<lparr>sy_pool := pin, sy_locks := (case r of Some cn \<Rightarrow> cn # sy_locks s | None \<Rightarrow> sy_locks s)\<rparr>)"
| upgrade: "sy_locks s = xs @ cn # ys \<Longrightarrow> \<not> cn_pool cn \<Longrightarrow>
    alpn_h2 cn (Some (sy_pool s)) = (Some pin, r) \<Longrightarrow>
    pool_step L P s
      (s\<lparr>sy_pool := pin, sy_locks := (case r of Some cn' \<Rightarrow> cn' # xs @ ys | None \<Rightarrow> xs @ ys)\<rparr>)"
| abort: "sy_locks s = xs @ cn # ys \<Longrightarrow> drop_connecting cn (Some (sy_pool s)) = Some pin \<Longrightarrow>
    pool_step L P s (s\<lparr>sy_pool := pin, sy_locks := xs @ ys\<rparr>)"
| established: "sy_locks s = xs @ cn # ys \<Longrightarrow> \<not> po_can_share P v \<longrightarrow> uses L s v = 0 \<Longrightarrow>
    po_can_share P v \<longrightarrow> cn_pool cn \<Longrightarrow> \<forall>tx. accepts tx \<longrightarrow> tx \<in> channels s \<Longrightarrow>
    pool_pooled L (P\<lparr>po_is_open := opn\<rparr>) closed accepts now cn v (Some (sy_pool s)) = (Some pin, pl, sent) \<Longrightarrow>
    pool_step L P s
      (s\<lparr>sy_pool := pin, sy_held := pl # sy_held s, sy_inbox := sent @ sy_inbox s, sy_locks := xs @ ys\<rparr>)"
| drop_held: "sy_held s = xs @ pl # ys \<Longrightarrow> \<forall>tx. accepts tx \<longrightarrow> tx \<in> channels s \<Longrightarrow>
    drop_pooled L (P\<lparr>po_is_open := opn\<rparr>) closed accepts now pl (Some (sy_pool s)) = (Some pin, sent) \<Longrightarrow>
    pool_step L P s (s\<lparr>sy_pool := pin, sy_held := xs @ ys, sy_inbox := sent @ sy_inbox s\<rparr>)"
| idle_task: "clear_expired L (P\<lparr>po_is_open := opn\<rparr>) now (sy_pool s) = Some pin \<Longrightarrow>
    pool_step L P s (s\<lparr>sy_pool := pin\<rparr>)"

definition pool_start :: "('k, 'c) pool_inner \<Rightarrow> ('k, 't, 'c) pool_sys" where
  "pool_start pin =
     \<lparr>sy_pool = pin, sy_inbox = [], sy_checkouts = [], sy_held = [], sy_locks = [], sy_next = 0\<rparr>"

inductive pool_reachable ::
  "('c, 'k, 't idle list) lru_lib \<Rightarrow> 't poolable \<Rightarrow> ('k, 't, 'c) pool_sys \<Rightarrow> bool"
  for L P
where
  start: "pool_new L cfg timer = Some pin \<Longrightarrow> pool_reachable L P (pool_start pin)"
| step: "pool_reachable L P s \<Longrightarrow> pool_step L P s s' \<Longrightarrow> pool_reachable L P s'"

text \<open>Counting the places of a connection.\<close>

lemma finite_keys: "lru_ok L \<Longrightarrow> finite {k. lru_peek L c k \<noteq> None}"
  using lru_laws(6) [of L c] by (metis List.finite_set)

lemma idle_count_over:
  assumes "lru_ok L" "finite K" "{k. lru_peek L c k \<noteq> None} \<subseteq> K"
  shows "idle_count L c t = (\<Sum>k\<in>K. count_list (map idle_value (idle_list L c k)) t)"
  unfolding idle_count_def lru_laws(6) [OF assms(1)]
  by (rule sum.mono_neutral_left) (use assms in \<open>auto simp: idle_list_def\<close>)

text \<open>A change of one list, with possible evictions elsewhere.\<close>

lemma idle_count_change:
  assumes L: "lru_ok L"
    and other: "\<And>k. k \<noteq> key \<Longrightarrow> lru_peek L c' k = lru_peek L c k \<or> lru_peek L c' k = None"
  shows "idle_count L c' t + count_list (map idle_value (idle_list L c key)) t
    \<le> idle_count L c t + count_list (map idle_value (idle_list L c' key)) t"
proof -
  let ?n = "\<lambda>c k. count_list (map idle_value (idle_list L c k)) t"
  define K where "K = {k. lru_peek L c k \<noteq> None} \<union> {k. lru_peek L c' k \<noteq> None}"
  have K: "finite K" by (simp only: K_def finite_Un finite_keys [OF L])
  have "idle_count L c' t = (\<Sum>k\<in>insert key K. ?n c' k)" "idle_count L c t = (\<Sum>k\<in>insert key K. ?n c k)"
    by (rule idle_count_over [OF L]; use K in \<open>auto simp: K_def\<close>)+
  moreover have "(\<Sum>k\<in>K - {key}. ?n c' k) \<le> (\<Sum>k\<in>K - {key}. ?n c k)"
  proof (rule sum_mono)
    fix k assume "k \<in> K - {key}"
    with other [of k] show "?n c' k \<le> ?n c k" by (auto simp: idle_list_def)
  qed
  ultimately show ?thesis using K by (simp add: sum.insert_remove)
qed

lemma idle_count_mono:
  assumes L: "lru_ok L"
    and le: "\<And>k. count_list (map idle_value (idle_list L c' k)) t \<le> count_list (map idle_value (idle_list L c k)) t"
  shows "idle_count L c' t \<le> idle_count L c t"
proof -
  define K where "K = {k. lru_peek L c k \<noteq> None} \<union> {k. lru_peek L c' k \<noteq> None}"
  have K: "finite K" by (simp only: K_def finite_Un finite_keys [OF L])
  have "idle_count L d t = (\<Sum>k\<in>K. count_list (map idle_value (idle_list L d k)) t)" if "d = c \<or> d = c'" for d
    by (rule idle_count_over [OF L K]) (use that in \<open>auto simp: K_def\<close>)
  then show ?thesis using le by (simp add: sum_mono)
qed

lemma count_filter_le: "count_list (map f (filter R l)) t \<le> count_list (map f l) t"
  by (induction l) auto

context poolable_laws
begin

lemma with_open: "poolable_laws (P\<lparr>po_is_open := f\<rparr>)"
  by unfold_locales (simp_all add: reserve)

lemma offer_sent:
  assumes "offer_waiters P closed accepts key v pin = (pin1, v', sent)" "m \<in> set sent"
  shows "snd m = v"
proof (cases "po_can_share P v")
  case False
  with offer_result [OF assms(1)] assms(2) show ?thesis by auto
next
  case True
  show ?thesis
  proof (cases "hm_get (pi_waiters pin) key")
    case None
    with assms show ?thesis by (simp add: offer_waiters_def)
  next
    case (Some ws)
    with assms serve_shared [OF True, of closed accepts ws] show ?thesis
      by (auto simp: offer_waiters_def)
  qed
qed

lemma put_uses:
  assumes L: "lru_ok L" and inv: "pool_inv L P pin" and t: "\<not> po_can_share P t"
    and put: "put L P closed accepts now key v pin = (pin', sent)"
  shows "idle_count L (pi_idle pin') t + count_list (map snd sent) t
    \<le> idle_count L (pi_idle pin) t + (if v = t then 1 else 0)"
  using put
proof (rule put_cases)
  assume "pin' = pin" "sent = []"
  then show ?thesis by simp
next
  fix tx
  assume "sent = [(tx, v)]" "offer_waiters P closed accepts key v pin = (pin', None, sent)"
  with offer_simps(2) [OF this(2)] show ?thesis by simp
next
  fix pin1
  assume o: "offer_waiters P closed accepts key v pin = (pin1, Some v, sent)"
    and st: "pin' = store_idle L now key v pin1" and s: "\<not> po_can_share P v \<Longrightarrow> sent = []"
  note f = offer_simps [OF o]
  have m: "0 < pi_max_idle pin1" using inv f by (simp add: pool_inv_def)
  note e = store_idle_effect [OF L m, where now = now and key = key and v = v, folded st]
  have "idle_count L (pi_idle pin') t + count_list (map idle_value (idle_list L (pi_idle pin) key)) t
      \<le> idle_count L (pi_idle pin) t + count_list (map idle_value (idle_list L (pi_idle pin') key)) t"
    by (rule idle_count_change [OF L]) (use e(3) f(2) in simp)
  moreover have "count_list (map idle_value (idle_list L (pi_idle pin') key)) t
      \<le> count_list (map idle_value (idle_list L (pi_idle pin) key)) t + (if v = t then 1 else 0)"
    using e(1) f(2) by simp
  moreover have "count_list (map snd sent) t = 0"
  proof (cases "po_can_share P v")
    case False
    with s show ?thesis by simp
  next
    case True
    with t have "v \<noteq> t" by auto
    with offer_sent [OF o] show ?thesis by (auto simp: count_list_0_iff)
  qed
  ultimately show ?thesis by linarith
qed

lemma idle_pop_count:
  assumes "\<not> po_can_share P t" "idle_pop P ex now l = (l', r)"
  shows "count_list (map idle_value l') t + (case r of Some e \<Rightarrow> if idle_value e = t then 1 else 0 | None \<Rightarrow> 0)
    \<le> count_list (map idle_value l) t"
proof (rule idle_pop_cases [of ex now l])
  assume "idle_pop P ex now l = ([], None)"
  with assms show ?thesis by simp
next
  fix xs e ys
  assume "l = xs @ e # ys"
    "idle_pop P ex now l =
      (xs @ (if po_can_share P (idle_value e) then [\<lparr>idle_at = now, idle_value = idle_value e\<rparr>] else []), Some e)"
  with assms show ?thesis by auto
qed

lemma checkout_idle_uses:
  assumes L: "lru_ok L" and t: "\<not> po_can_share P t"
    and c: "checkout_idle L P now fresh co (Some pin) = (Some pin', co', r)"
  shows "idle_count L (pi_idle pin') t + (case r of Some pl \<Rightarrow> if pl_value pl = t then 1 else 0 | None \<Rightarrow> 0)
    \<le> idle_count L (pi_idle pin) t"
proof -
  let ?l = "idle_list L (pi_idle pin) (co_key co)"
  obtain l entry where pop: "idle_pop P (pi_timeout pin) now ?l = (l, entry)" by fastforce
  from checkout_idle_effect [OF L pop c] obtain
    r: "r = map_option (\<lambda>e. reuse P (co_key co) (idle_value e) (Some pin)) entry"
    and peek: "\<And>k. lru_peek L (pi_idle pin') k =
       (if k = co_key co then (if entry = None \<or> l = [] then None else Some l) else lru_peek L (pi_idle pin) k)"
    by (metis option.inject)
  have "idle_count L (pi_idle pin') t + count_list (map idle_value ?l) t
      \<le> idle_count L (pi_idle pin) t + count_list (map idle_value (idle_list L (pi_idle pin') (co_key co))) t"
    by (rule idle_count_change [OF L]) (simp add: peek)
  moreover have "count_list (map idle_value (idle_list L (pi_idle pin') (co_key co))) t \<le> count_list (map idle_value l) t"
    by (simp add: idle_list_def peek)
  moreover have "(case r of Some pl \<Rightarrow> if pl_value pl = t then 1 else 0 | None \<Rightarrow> 0) =
      (case entry of Some e \<Rightarrow> if idle_value e = t then 1 else 0 | None \<Rightarrow> (0 :: nat))"
    by (simp add: r reuse_def split: option.split)
  ultimately show ?thesis using idle_pop_count [OF t pop] by linarith
qed

end

lemma clear_expired_uses:
  assumes L: "lru_ok L" and c: "clear_expired L P now pin = Some pin'"
  shows "idle_count L (pi_idle pin') t \<le> idle_count L (pi_idle pin) t"
proof (rule idle_count_mono [OF L])
  fix k
  obtain dur where t: "pi_timeout pin = Some dur"
    using c by (cases "pi_timeout pin") (simp_all add: clear_expired_def)
  have "idle_list L (pi_idle pin') k =
      filter (\<lambda>e. po_is_open P (idle_value e) \<and> now - idle_at e \<le> dur) (idle_list L (pi_idle pin) k)"
    unfolding idle_list_def [of L "pi_idle pin'"] clear_expired_peek [OF L c t]
    by (simp split: list.split)
  then show "count_list (map idle_value (idle_list L (pi_idle pin') k)) t
      \<le> count_list (map idle_value (idle_list L (pi_idle pin) k)) t"
    by (simp add: count_filter_le)
qed

section \<open>Invariants of every reachable state\<close>

lemma count_list_middle: "count_list (xs @ y # ys) t = count_list (xs @ ys) t + (if y = t then 1 else 0)"
  by simp

lemma receives_count:
  "receives inbox w rx inbox' \<Longrightarrow>
   count_list (map snd inbox') t + (case rx of Ready (Some v) \<Rightarrow> if v = t then 1 else 0 | _ \<Rightarrow> 0)
   \<le> count_list (map snd inbox) t"
proof (induction rule: receives.induct)
  case (3 tx v inbox)
  then show ?case by (induction inbox) auto
qed simp_all

lemma pool_connecting_idle:
  assumes "pool_connecting key v (Some pin) = (Some pin', r)"
  shows "pi_idle pin' = pi_idle pin" "pi_waiters pin' = pi_waiters pin" "pi_max_idle pin' = pi_max_idle pin"
    "distinct (pi_connecting pin) \<Longrightarrow> distinct (pi_connecting pin')"
  using assms by (auto simp: pool_connecting_def split: if_split_asm)

lemma pool_connecting_inv:
  "pool_inv L P pin \<Longrightarrow> pool_connecting key v (Some pin) = (Some pin', r) \<Longrightarrow> pool_inv L P pin'"
  using pool_connecting_idle [of key v pin pin' r] by (simp add: pool_inv_def)

lemma drop_connecting_inv:
  "pool_inv L P pin \<Longrightarrow> drop_connecting cn (Some pin) = Some pin' \<Longrightarrow> pool_inv L P pin'"
  using connected_inv [of L P pin "cn_key cn"] by (auto simp: drop_connecting_def split: if_split_asm)

lemma connected_idle [simp]: "pi_idle (connected key pin) = pi_idle pin"
  by (simp add: connected_def)

lemma clean_waiters_idle [simp]: "pi_idle (clean_waiters closed key pin) = pi_idle pin"
  "pi_connecting (clean_waiters closed key pin) = pi_connecting pin"
  by (simp_all add: clean_waiters_def Let_def split: option.split)

lemma drop_connecting_idle: "drop_connecting cn (Some pin) = Some pin' \<Longrightarrow> pi_idle pin' = pi_idle pin"
  by (auto simp: drop_connecting_def split: if_split_asm)

context poolable_laws
begin

lemma pooled_cases:
  assumes "pool_pooled L P closed accepts now cn v (Some pin) = (Some pin', pl, sent)"
  obtains (shared) pin1 where "po_can_share P v" "put L P closed accepts now (cn_key cn) v pin = (pin1, sent)"
      "pin' = connected (cn_key cn) pin1" "pl_value pl = v"
  | (unique) "\<not> po_can_share P v" "drop_connecting cn (Some pin) = Some pin'" "pl_value pl = v" "sent = []"
proof (cases "po_can_share P v")
  case True
  obtain pin1 s where p: "put L P closed accepts now (cn_key cn) v pin = (pin1, s)" by fastforce
  with True assms show thesis
    by (intro shared [of pin1]) (auto simp: pool_pooled_def reserve drop_connecting_def)
next
  case False
  with assms show thesis by (intro unique) (auto simp: pool_pooled_def reserve)
qed

lemma drop_pooled_cases:
  assumes "drop_pooled L P closed accepts now pl (Some pin) = (Some pin', sent)"
  obtains "pin' = pin" "sent = []"
  | "put L P closed accepts now (pl_key pl) (pl_value pl) pin = (pin', sent)"
  using assms by (auto simp: drop_pooled_def map_prod_def split_beta split: if_split_asm)

lemma poll_cases:
  assumes "checkout_poll L P now fresh rx co (Some pin) = (Some pin', co', out)"
  obtains (idle) r where "co_waiter co = None" "checkout_idle L P now fresh co (Some pin) = (Some pin', co', r)"
      "out = (case r of Some pl \<Rightarrow> Ready (Inr pl) | None \<Rightarrow> NotReady)"
  | (received) v pl where "rx = Ready (Some v)" "pin' = pin" "out = Ready (Inr pl)" "pl_value pl = v"
  | (silent) "pin' = pin" "\<And>pl. out \<noteq> Ready (Inr pl)"
proof (cases "co_waiter co")
  case None
  obtain pool1 co1 r1 where ci: "checkout_idle L P now fresh co (Some pin) = (pool1, co1, r1)"
    by (metis prod_cases3)
  with None assms show thesis
    by (intro idle [of r1]) (auto simp: checkout_poll_def poll_waiter_def split: option.split_asm option.split)
next
  case (Some tx)
  show thesis
  proof (cases "\<exists>v. rx = Ready (Some v) \<and> po_is_open P v")
    case True
    then obtain v where v: "rx = Ready (Some v)" "po_is_open P v" by blast
    with Some assms show thesis
      by (intro received [of v "reuse P (co_key co) v (Some pin)"])
        (auto simp: checkout_poll_def poll_waiter_def reuse_def)
  next
    case False
    with Some assms have "pin' = pin \<and> (\<forall>pl. out \<noteq> Ready (Inr pl))"
      by (auto simp: checkout_poll_def poll_waiter_def split: poll.split_asm option.split_asm if_split_asm)
    then show thesis using silent by blast
  qed
qed

lemma step_pool_inv:
  assumes L: "lru_ok L" and step: "pool_step L P s s'" and inv: "pool_inv L P (sy_pool s)"
  shows "pool_inv L P (sy_pool s')"
  using step
proof cases
  case (poll xs co ys rx inbox opn now pin co' out)
  then show ?thesis
    using poolable_laws.checkout_poll_inv [OF with_open L, of opn "sy_pool s"] inv by simp
next
  case (connect key v pin r)
  then show ?thesis using pool_connecting_inv [OF inv] by simp
next
  case (upgrade xs cn ys pin r)
  then show ?thesis using pool_connecting_inv [OF inv] by (simp add: alpn_h2_def)
next
  case (abort xs cn ys pin)
  then show ?thesis using drop_connecting_inv [OF inv] by simp
next
  case (established xs cn ys v accepts opn closed now pin pl sent)
  from established(6) have "pool_inv L P pin"
  proof (rule poolable_laws.pooled_cases [OF with_open])
    fix pin1
    assume "put L (P\<lparr>po_is_open := opn\<rparr>) closed accepts now (cn_key cn) v (sy_pool s) = (pin1, sent)"
      "pin = connected (cn_key cn) pin1"
    then show ?thesis
      using poolable_laws.put_inv [OF with_open L, of opn "sy_pool s"] inv connected_inv by fastforce
  next
    assume "drop_connecting cn (Some (sy_pool s)) = Some pin"
    then show ?thesis by (rule drop_connecting_inv [OF inv])
  qed
  with established show ?thesis by simp
next
  case (drop_held xs pl ys accepts opn closed now pin sent)
  from drop_held(4) have "pool_inv L P pin"
  proof (rule poolable_laws.drop_pooled_cases [OF with_open])
    assume "pin = sy_pool s"
    with inv show ?thesis by simp
  next
    assume "put L (P\<lparr>po_is_open := opn\<rparr>) closed accepts now (pl_key pl) (pl_value pl) (sy_pool s) = (pin, sent)"
    with poolable_laws.put_inv [OF with_open L, of opn "sy_pool s"] inv show ?thesis by simp
  qed
  with drop_held show ?thesis by simp
next
  case (idle_task opn now pin)
  then show ?thesis using clear_expired_inv [OF L inv] by simp
qed (simp_all add: inv clean_waiters_inv)

lemma step_uses:
  assumes L: "lru_ok L" and step: "pool_step L P s s'" and inv: "pool_inv L P (sy_pool s)"
    and t: "\<not> po_can_share P t" and u: "uses L s t \<le> 1"
  shows "uses L s' t \<le> 1"
  using step
proof cases
  case (poll xs co ys rx inbox opn now pin co' out)
  note rc = receives_count [OF poll(3), of t]
  from poll(4) show ?thesis
  proof (rule poolable_laws.poll_cases [OF with_open])
    fix r
    assume c: "checkout_idle L (P\<lparr>po_is_open := opn\<rparr>) now (sy_next s) co (Some (sy_pool s)) = (Some pin, co', r)"
      and o: "out = (case r of Some pl \<Rightarrow> Ready (Inr pl) | None \<Rightarrow> NotReady)"
    have "idle_count L (pi_idle pin) t + (case r of Some pl \<Rightarrow> if pl_value pl = t then 1 else 0 | None \<Rightarrow> 0)
        \<le> idle_count L (pi_idle (sy_pool s)) t"
      using poolable_laws.checkout_idle_uses [OF with_open L _ c, of t] t by simp
    with rc u poll(1) o show ?thesis by (cases r) (auto simp: uses_def)
  next
    fix v pl
    assume "rx = Ready (Some v)" "pin = sy_pool s" "out = Ready (Inr pl)" "pl_value pl = v"
    with rc u poll(1) show ?thesis by (simp add: uses_def split: if_split_asm)
  next
    assume "pin = sy_pool s" "\<And>pl. out \<noteq> Ready (Inr pl)"
    with rc u poll(1) show ?thesis
      by (cases out) (auto simp: uses_def split: sum.split poll.split_asm option.split_asm)
  qed
next
  case (drop_receiver xs co ys)
  then show ?thesis
    using u count_filter_le [of snd "\<lambda>m. co_waiter co \<noteq> Some (fst m)" "sy_inbox s" t] by (simp add: uses_def)
next
  case (connect key v pin r)
  then show ?thesis using u pool_connecting_idle(1) by (fastforce simp: uses_def)
next
  case (upgrade xs cn ys pin r)
  then show ?thesis using u pool_connecting_idle(1) by (fastforce simp: uses_def alpn_h2_def)
next
  case (abort xs cn ys pin)
  then show ?thesis using u drop_connecting_idle by (fastforce simp: uses_def)
next
  case (established xs cn ys v accepts opn closed now pin pl sent)
  from established(6) show ?thesis
  proof (rule poolable_laws.pooled_cases [OF with_open])
    fix pin1
    assume a: "po_can_share (P\<lparr>po_is_open := opn\<rparr>) v"
      "put L (P\<lparr>po_is_open := opn\<rparr>) closed accepts now (cn_key cn) v (sy_pool s) = (pin1, sent)"
      "pin = connected (cn_key cn) pin1" "pl_value pl = v"
    with t have "v \<noteq> t" by auto
    with poolable_laws.put_uses [OF with_open L _ _ a(2), of t] inv t a established(1) u show ?thesis
      by (simp add: uses_def)
  next
    assume "\<not> po_can_share (P\<lparr>po_is_open := opn\<rparr>) v" "drop_connecting cn (Some (sy_pool s)) = Some pin"
      "pl_value pl = v" "sent = []"
    with established(1,3) u drop_connecting_idle [of cn "sy_pool s" pin] show ?thesis
      by (auto simp: uses_def)
  qed
next
  case (drop_held xs pl ys accepts opn closed now pin sent)
  from drop_held(4) show ?thesis
  proof (rule poolable_laws.drop_pooled_cases [OF with_open])
    assume "pin = sy_pool s" "sent = []"
    with drop_held(1,2) u show ?thesis by (simp add: uses_def split: if_split_asm)
  next
    assume "put L (P\<lparr>po_is_open := opn\<rparr>) closed accepts now (pl_key pl) (pl_value pl) (sy_pool s) = (pin, sent)"
    from poolable_laws.put_uses [OF with_open L _ _ this, of t] inv t drop_held(1,2) u show ?thesis
      by (simp add: uses_def split: if_split_asm)
  qed
next
  case (idle_task opn now pin)
  with clear_expired_uses [OF L, of "P\<lparr>po_is_open := opn\<rparr>" now "sy_pool s" pin t] u show ?thesis
    by (simp add: uses_def)
qed (use u in \<open>simp_all add: uses_def\<close>)

end

text \<open>The guards that hold the HTTP/2 connecting lock of a key.\<close>

definition lock_holders :: "('k, 't, 'c) pool_sys \<Rightarrow> 'k \<Rightarrow> nat" where
  "lock_holders s key = length (filter (\<lambda>cn. cn_key cn = key \<and> cn_pool cn) (sy_locks s))"

definition locks_ok :: "('k, 't, 'c) pool_sys \<Rightarrow> bool" where
  "locks_ok s \<longleftrightarrow> (\<forall>key. lock_holders s key = (if key \<in> set (pi_connecting (sy_pool s)) then 1 else 0))"

lemma connecting_locks:
  assumes "pool_connecting key v (Some pin) = (Some pin', r)"
    and "\<forall>k. length (filter (\<lambda>cn. cn_key cn = k \<and> cn_pool cn) ls) = (if k \<in> set (pi_connecting pin) then 1 else 0)"
  shows "length (filter (\<lambda>cn. cn_key cn = k \<and> cn_pool cn) (case r of Some cn \<Rightarrow> cn # ls | None \<Rightarrow> ls)) =
    (if k \<in> set (pi_connecting pin') then 1 else 0)"
  using assms by (auto simp: pool_connecting_def split: if_split_asm)

lemma drop_locks:
  assumes "drop_connecting cn (Some pin) = Some pin'"
    and "\<forall>k. length (filter (\<lambda>cn. cn_key cn = k \<and> cn_pool cn) (xs @ cn # ys)) = (if k \<in> set (pi_connecting pin) then 1 else 0)"
  shows "length (filter (\<lambda>cn. cn_key cn = k \<and> cn_pool cn) (xs @ ys)) =
    (if k \<in> set (pi_connecting pin') then 1 else 0)"
  using assms(1) assms(2) [rule_format, of k]
  by (auto simp: drop_connecting_def connected_def split: if_split_asm)

context poolable_laws
begin

lemma step_locks:
  assumes step: "pool_step L P s s'" and ok: "locks_ok s"
  shows "locks_ok s'"
  using step
proof cases
  case (poll xs co ys rx inbox opn now pin co' out)
  from poll(4) have "pi_connecting pin = pi_connecting (sy_pool s)"
  proof (rule poolable_laws.poll_cases [OF with_open])
    fix r
    assume "checkout_idle L (P\<lparr>po_is_open := opn\<rparr>) now (sy_next s) co (Some (sy_pool s)) = (Some pin, co', r)"
    then show ?thesis by (auto simp: checkout_idle_def Let_def split_beta split: if_split_asm)
  qed simp_all
  with poll(1) ok show ?thesis by (simp add: locks_ok_def lock_holders_def)
next
  case (connect key v pin r)
  with connecting_locks [of key v "sy_pool s" pin r "sy_locks s"] ok show ?thesis
    by (simp add: locks_ok_def lock_holders_def)
next
  case (upgrade xs cn ys pin r)
  then have "\<forall>k. length (filter (\<lambda>cn. cn_key cn = k \<and> cn_pool cn) (xs @ ys)) =
      (if k \<in> set (pi_connecting (sy_pool s)) then 1 else 0)"
    using ok by (simp add: locks_ok_def lock_holders_def)
  from connecting_locks [OF upgrade(4) [unfolded alpn_h2_def] this] upgrade(1) show ?thesis
    by (simp add: locks_ok_def lock_holders_def)
next
  case (abort xs cn ys pin)
  from drop_locks [OF abort(3), of xs ys] abort ok show ?thesis
    by (simp add: locks_ok_def lock_holders_def)
next
  case (established xs cn ys v accepts opn closed now pin pl sent)
  have old: "\<forall>k. length (filter (\<lambda>cn. cn_key cn = k \<and> cn_pool cn) (xs @ cn # ys)) =
      (if k \<in> set (pi_connecting (sy_pool s)) then 1 else 0)"
    using ok established(2) by (simp add: locks_ok_def lock_holders_def)
  from established(6) have "\<forall>k. length (filter (\<lambda>cn. cn_key cn = k \<and> cn_pool cn) (xs @ ys)) =
      (if k \<in> set (pi_connecting pin) then 1 else 0)"
  proof (rule poolable_laws.pooled_cases [OF with_open])
    fix pin1
    assume a: "po_can_share (P\<lparr>po_is_open := opn\<rparr>) v"
      "put L (P\<lparr>po_is_open := opn\<rparr>) closed accepts now (cn_key cn) v (sy_pool s) = (pin1, sent)"
      "pin = connected (cn_key cn) pin1"
    with established(4) poolable_laws.put_simps(1) [OF with_open a(2)]
    have "drop_connecting cn (Some pin1) = Some pin" "pi_connecting pin1 = pi_connecting (sy_pool s)"
      by (simp_all add: drop_connecting_def)
    with drop_locks [of cn pin1 pin xs ys] old show ?thesis by simp
  next
    assume "drop_connecting cn (Some (sy_pool s)) = Some pin"
    from drop_locks [OF this old] show ?thesis by simp
  qed
  with established(1) show ?thesis by (simp add: locks_ok_def lock_holders_def)
next
  case (drop_held xs pl ys accepts opn closed now pin sent)
  from drop_held(4) have "pi_connecting pin = pi_connecting (sy_pool s)"
  proof (rule poolable_laws.drop_pooled_cases [OF with_open])
    assume "put L (P\<lparr>po_is_open := opn\<rparr>) closed accepts now (pl_key pl) (pl_value pl) (sy_pool s) = (pin, sent)"
    from poolable_laws.put_simps(1) [OF with_open this] show ?thesis .
  qed simp
  with drop_held(1) ok show ?thesis by (simp add: locks_ok_def lock_holders_def)
next
  case (idle_task opn now pin)
  then have "pi_connecting pin = pi_connecting (sy_pool s)"
    by (auto simp: clear_expired_def Let_def split: option.split_asm)
  with idle_task(1) ok show ?thesis by (simp add: locks_ok_def lock_holders_def)
qed (use ok in \<open>simp_all add: locks_ok_def lock_holders_def\<close>)

lemma pool_new_start:
  assumes L: "lru_ok L" and new: "pool_new L cfg timer = Some pin"
  shows "pool_inv L P pin" "uses L (pool_start pin) t = 0" "locks_ok (pool_start pin)"
proof -
  note laws = lru_laws [OF L]
  show "pool_inv L P pin" "locks_ok (pool_start pin)"
    using new by (auto simp: pool_new_def pool_is_enabled_def pool_inv_def laws locks_ok_def
        lock_holders_def pool_start_def split: if_split_asm)
  have "idle_count L (pi_idle pin) t = 0"
    using new by (auto simp: pool_new_def idle_count_def idle_list_def laws split: if_split_asm)
  then show "uses L (pool_start pin) t = 0" by (simp add: uses_def pool_start_def)
qed

lemma reachable_inv:
  assumes L: "lru_ok L" and "pool_reachable L P s"
  shows "pool_inv L P (sy_pool s) \<and> (\<forall>t. \<not> po_can_share P t \<longrightarrow> uses L s t \<le> 1) \<and> locks_ok s"
  using assms(2)
proof (induction rule: pool_reachable.induct)
  case (start cfg timer pin)
  then show ?case
    using pool_new_start [OF L start] by (simp add: pool_start_def [of pin, THEN arg_cong [of _ _ sy_pool]])
next
  case (step s s')
  then show ?case using step_pool_inv [OF L] step_uses [OF L] step_locks by blast
qed

end

section \<open>The connections of the client\<close>

text \<open>\<^verbatim>\<open>PoolClient\<close> of \<^verbatim>\<open>client/layer/client.rs\<close>.  The sending half of a connection is the handle of a
  protocol driver outside this crate and is named by a number; whether it is ready and whether the
  connection was marked as poisoned are arguments.\<close>

datatype pool_tx = Http1 nat | Http2 nat

record 'i pool_client =
  pc_info :: 'i
  pc_tx :: pool_tx

definition client_is_http2 :: "'i pool_client \<Rightarrow> bool" where
  "client_is_http2 c = (case pc_tx c of Http1 _ \<Rightarrow> False | Http2 _ \<Rightarrow> True)"

definition client_is_http1 :: "'i pool_client \<Rightarrow> bool" where
  "client_is_http1 c \<longleftrightarrow> \<not> client_is_http2 c"

definition client_is_open :: "('i \<Rightarrow> bool) \<Rightarrow> (pool_tx \<Rightarrow> bool) \<Rightarrow> 'i pool_client \<Rightarrow> bool" where
  "client_is_open poisoned ready c \<longleftrightarrow> \<not> poisoned (pc_info c) \<and> ready (pc_tx c)"

definition client_reserve :: "'i pool_client \<Rightarrow> 'i pool_client reservation" where
  "client_reserve c =
     (case pc_tx c of
        Http1 tx \<Rightarrow> Unique \<lparr>pc_info = pc_info c, pc_tx = Http1 tx\<rparr>
      | Http2 tx \<Rightarrow>
          (let b = \<lparr>pc_info = pc_info c, pc_tx = Http2 tx\<rparr>; a = \<lparr>pc_info = pc_info c, pc_tx = Http2 tx\<rparr>
           in Shared a b))"

definition client_poolable :: "('i \<Rightarrow> bool) \<Rightarrow> (pool_tx \<Rightarrow> bool) \<Rightarrow> 'i pool_client poolable" where
  "client_poolable poisoned ready =
     \<lparr>po_is_open = client_is_open poisoned ready, po_reserve = client_reserve, po_can_share = client_is_http2\<rparr>"

lemma client_poolable_simps [simp]:
  "po_is_open (client_poolable poisoned ready) = client_is_open poisoned ready"
  "po_can_share (client_poolable poisoned ready) = client_is_http2"
  "po_reserve (client_poolable poisoned ready) = client_reserve"
  by (simp_all add: client_poolable_def)

interpretation pc: poolable_laws "client_poolable poisoned ready" for poisoned ready
  by unfold_locales
    (auto simp: client_is_http2_def client_reserve_def Let_def split: pool_tx.split_asm)

section \<open>Properties\<close>

lemma count_list_two:
  assumes "i < length xs" "j < length xs" "i \<noteq> j" "xs ! i = t" "xs ! j = t"
  shows "2 \<le> count_list xs t"
proof -
  have "{i, j} \<subseteq> {k. k < length xs \<and> t = xs ! k}" using assms by auto
  then have "card {i, j} \<le> card {k. k < length xs \<and> t = xs ! k}" by (intro card_mono) auto
  with assms(3) show ?thesis by (simp add: count_list_eq_length_filter length_filter_conv_card)
qed

lemma idle_count_pos:
  assumes L: "lru_ok L" and e: "e \<in> set (idle_list L c k)"
  shows "0 < idle_count L c (idle_value e)"
proof -
  have "k \<in> set (lru_keys L c)"
    using e by (cases "lru_peek L c k") (simp_all add: lru_laws(6) [OF L] idle_list_def)
  then have "count_list (map idle_value (idle_list L c k)) (idle_value e) \<le> idle_count L c (idle_value e)"
    unfolding idle_count_def by (intro member_le_sum) auto
  moreover have "count_list (map idle_value (idle_list L c k)) (idle_value e) \<noteq> 0"
    using e by (auto simp: count_list_0_iff)
  ultimately show ?thesis by linarith
qed

text \<open>C4: an HTTP/1 connection has one user.  In every state the pool can reach, through any interleaving of
  checkouts, new connections, drops, cancelled waiters and idle sweeps, two checked-out guards hold the
  same connection only if it is an HTTP/2 connection, and a checked-out HTTP/1 connection is neither
  idle in the pool nor on its way to a waiter.\<close>

theorem pool_exclusive:
  assumes "lru_ok L" and "pool_reachable L (client_poolable poisoned ready) s"
  shows "(\<forall>i j. i < length (sy_held s) \<and> j < length (sy_held s) \<and> i \<noteq> j \<and>
            pl_value (sy_held s ! i) = pl_value (sy_held s ! j) \<longrightarrow> client_is_http2 (pl_value (sy_held s ! i))) \<and>
         (\<forall>pl \<in> set (sy_held s). client_is_http1 (pl_value pl) \<longrightarrow>
            pl_value pl \<notin> snd ` set (sy_inbox s) \<and>
            (\<forall>key. pl_value pl \<notin> idle_value ` set (idle_list L (pi_idle (sy_pool s)) key)))"
proof -
  have u: "uses L s t \<le> 1" if "\<not> client_is_http2 t" for t
    using pc.reachable_inv [OF assms] that by simp
  show ?thesis
  proof (intro conjI allI impI ballI; (elim conjE)?)
    fix i j
    assume ij: "i < length (sy_held s)" "j < length (sy_held s)" "i \<noteq> j"
      "pl_value (sy_held s ! i) = pl_value (sy_held s ! j)"
    then have "2 \<le> count_list (map pl_value (sy_held s)) (pl_value (sy_held s ! i))"
      by (intro count_list_two [of i _ j]) auto
    with u [of "pl_value (sy_held s ! i)"] show "client_is_http2 (pl_value (sy_held s ! i))"
      by (auto simp: uses_def)
  next
    fix pl
    assume pl: "pl \<in> set (sy_held s)" "client_is_http1 (pl_value pl)"
    then have one: "count_list (map pl_value (sy_held s)) (pl_value pl) \<noteq> 0"
      by (auto simp: count_list_0_iff)
    with u [of "pl_value pl"] pl(2)
    have z: "count_list (map snd (sy_inbox s)) (pl_value pl) = 0"
      "idle_count L (pi_idle (sy_pool s)) (pl_value pl) = 0"
      by (auto simp: uses_def client_is_http1_def)
    show "pl_value pl \<notin> snd ` set (sy_inbox s)"
      using z(1) by (auto simp: count_list_0_iff)
    show "pl_value pl \<notin> idle_value ` set (idle_list L (pi_idle (sy_pool s)) key)" for key
      using z(2) idle_count_pos [OF assms(1)] by fastforce
  qed
qed

text \<open>C23: what the pool holds.  In every reachable state each host has at most the configured number of idle
  connections and at most one idle HTTP/2 connection, no host is kept with an empty list and no queue of
  waiters is empty; at most one guard holds the HTTP/2 connecting lock of a host, and the host is marked
  as connecting exactly as long as there is one.\<close>

theorem pool_contents:
  assumes "lru_ok L" and "pool_reachable L (client_poolable poisoned ready) s"
  shows "(\<forall>key l. lru_peek L (pi_idle (sy_pool s)) key = Some l \<longrightarrow>
            l \<noteq> [] \<and> length l \<le> pi_max_idle (sy_pool s) \<and>
            length (filter (\<lambda>e. client_is_http2 (idle_value e)) l) \<le> 1) \<and>
         (\<forall>key. hm_get (pi_waiters (sy_pool s)) key \<noteq> Some []) \<and>
         (\<forall>key. lock_holders s key = (if key \<in> set (pi_connecting (sy_pool s)) then 1 else 0))"
  using pc.reachable_inv [OF assms] by (simp add: pool_inv_def idle_ok_def locks_ok_def)

text \<open>C24: what a checkout returns.  A connection handed out is open, is marked as reused and carries the key
  of the checkout; taken from the pool it is the most recently stored connection of that host that is
  open and within the idle timeout, all later ones having been unusable.  A checkout stays pending only
  when the host has no usable idle connection, and then it is the last in the queue of waiters.\<close>

theorem checkout_usable:
  assumes "lru_ok L"
    and "checkout_poll L (client_poolable poisoned ready) now fresh rx co (Some pin) = (Some pin', co', out)"
  shows "(case out of
            Ready (Inr pl) \<Rightarrow>
              client_is_open poisoned ready (pl_value pl) \<and> pl_is_reused pl \<and> pl_key pl = co_key co \<and>
              (co_waiter co = None \<longrightarrow>
                 (\<exists>xs e ys. idle_list L (pi_idle pin) (co_key co) = xs @ e # ys \<and> idle_value e = pl_value pl \<and>
                    \<not> expires (pi_timeout pin) (idle_at e) now \<and>
                    (\<forall>y \<in> set ys. \<not> client_is_open poisoned ready (idle_value y) \<or>
                       expires (pi_timeout pin) (idle_at y) now)))
          | Ready (Inl e) \<Rightarrow> co_waiter co \<noteq> None \<and> e \<in> {CheckedOutClosedValue, CheckoutNoLongerWanted}
          | NotReady \<Rightarrow>
              co_waiter co' \<noteq> None \<and>
              (co_waiter co = None \<longrightarrow>
                 (\<forall>e \<in> set (idle_list L (pi_idle pin) (co_key co)).
                    \<not> client_is_open poisoned ready (idle_value e) \<or> expires (pi_timeout pin) (idle_at e) now) \<and>
                 (\<exists>ws. hm_get (pi_waiters pin') (co_key co) = Some (ws @ [fresh])) \<and>
                 co_waiter co' = Some fresh))"
proof (cases "co_waiter co")
  case (Some tx)
  with assms(2) show ?thesis
    by (auto simp: checkout_poll_def poll_waiter_def reuse_def
        split: poll.split_asm option.split_asm if_split_asm)
next
  case None
  let ?P = "client_poolable poisoned ready" and ?l = "idle_list L (pi_idle pin) (co_key co)"
  obtain r where ci: "checkout_idle L ?P now fresh co (Some pin) = (Some pin', co', r)"
    and out: "out = (case r of Some pl \<Rightarrow> Ready (Inr pl) | None \<Rightarrow> NotReady)"
    using assms(2) None by (rule_tac pc.poll_cases [OF assms(2)])
      (auto simp: checkout_poll_def poll_waiter_def split: option.split_asm prod.split_asm)
  obtain l entry where pop: "idle_pop ?P (pi_timeout pin) now ?l = (l, entry)" by fastforce
  from checkout_idle_effect [OF assms(1) pop ci] obtain
    r: "r = map_option (\<lambda>e. reuse ?P (co_key co) (idle_value e) (Some pin)) entry"
    and w: "entry = None \<and> co' = co\<lparr>co_waiter := Some fresh\<rparr> \<and>
       pi_waiters pin' = hm_insert (co_key co)
         ((case hm_get (pi_waiters pin) (co_key co) of Some ws \<Rightarrow> ws | None \<Rightarrow> []) @ [fresh]) (pi_waiters pin) \<or>
      entry \<noteq> None"
    using None by (metis option.inject)
  show ?thesis
  proof (rule pc.idle_pop_cases [where poisoned = poisoned and ready = ready and ex = "pi_timeout pin" and now = now and l = ?l])
    assume "idle_pop ?P (pi_timeout pin) now ?l = ([], None)"
      "\<forall>e\<in>set ?l. \<not> po_is_open ?P (idle_value e) \<or> expires (pi_timeout pin) (idle_at e) now"
    with pop out r w None show ?thesis by (auto simp: hash_simps)
  next
    fix xs e ys
    assume a: "?l = xs @ e # ys" "po_is_open ?P (idle_value e)" "\<not> expires (pi_timeout pin) (idle_at e) now"
      "\<forall>y\<in>set ys. \<not> po_is_open ?P (idle_value y) \<or> expires (pi_timeout pin) (idle_at y) now"
      "idle_pop ?P (pi_timeout pin) now ?l =
        (xs @ (if po_can_share ?P (idle_value e) then [\<lparr>idle_at = now, idle_value = idle_value e\<rparr>] else []), Some e)"
    with pop have "entry = Some e" by simp
    with out r None a(1-4) show ?thesis by (auto simp: reuse_def)
  qed
qed

text \<open>C25: what becomes of a connection that is put back into a pool that keeps idle connections at all, that is, whose
  limit per host is positive.  An HTTP/1 connection goes to the first waiting checkout of its host that is still alive and
  is then not stored; if no live checkout waits it is stored at the end of its host's list unless the list is full.  An
  HTTP/2 connection whose host has no entry in the idle map goes to every live waiter, and one copy is stored; if the host
  already has an entry the connection is dropped and the pool stays as it is, waiters included.\<close>

theorem put_serves_waiters:
  assumes "lru_ok L" and "0 < pi_max_idle pin"
    and "live = filter (\<lambda>tx. \<not> closed tx \<and> accepts tx)
           (case hm_get (pi_waiters pin) key of Some ws \<Rightarrow> ws | None \<Rightarrow> [])"
    and "put L (client_poolable poisoned ready) closed accepts now key v pin = (pin', sent)"
  shows "(client_is_http1 v \<and> live \<noteq> [] \<longrightarrow> sent = [(hd live, v)] \<and> pi_idle pin' = pi_idle pin) \<and>
         (client_is_http2 v \<and> lru_peek L (pi_idle pin) key = None \<longrightarrow>
            sent = map (\<lambda>tx. (tx, v)) live \<and>
            idle_list L (pi_idle pin') key = [\<lparr>idle_at = now, idle_value = v\<rparr>]) \<and>
         (client_is_http2 v \<and> lru_peek L (pi_idle pin) key \<noteq> None \<longrightarrow> sent = [] \<and> pin' = pin) \<and>
         (client_is_http1 v \<and> live = [] \<longrightarrow>
            sent = [] \<and> idle_list L (pi_idle pin') key =
              idle_list L (pi_idle pin) key @
                (if pi_max_idle pin \<le> length (idle_list L (pi_idle pin) key) then []
                 else [\<lparr>idle_at = now, idle_value = v\<rparr>]))"
proof -
  let ?P = "client_poolable poisoned ready"
  define ws where "ws = (case hm_get (pi_waiters pin) key of Some ws \<Rightarrow> ws | None \<Rightarrow> [])"
  obtain pin1 v' s where o: "offer_waiters ?P closed accepts key v pin = (pin1, v', s)" by (metis prod_cases3)
  note f = offer_simps [OF o]
  have m: "0 < pi_max_idle pin1" using assms(2) f by simp
  have srv: "(v', s) = snd (serve_waiters ?P closed accepts ws v)"
    using o by (auto simp: ws_def offer_waiters_def split_beta split: option.split_asm)
  note st = store_idle_effect(1) [OF assms(1) m, where now = now and key = key and v = v]
  have h2: "client_is_http2 v \<and> lru_peek L (pi_idle pin) key = None \<longrightarrow>
      sent = map (\<lambda>tx. (tx, v)) live \<and> idle_list L (pi_idle pin') key = [\<lparr>idle_at = now, idle_value = v\<rparr>]"
  proof (intro impI, elim conjE)
    assume h: "client_is_http2 v" "lru_peek L (pi_idle pin) key = None"
    have "v' = Some v" "s = map (\<lambda>tx. (tx, v)) live"
      using srv pc.serve_shared [where poisoned = poisoned and ready = ready and v = v and ws = ws] h assms(3) by (simp_all add: ws_def)
    with o assms(4) h st f m show "sent = map (\<lambda>tx. (tx, v)) live \<and>
        idle_list L (pi_idle pin') key = [\<lparr>idle_at = now, idle_value = v\<rparr>]"
      by (auto simp: put_def idle_list_def [of L "pi_idle pin"])
  qed
  have drop: "sent = [] \<and> pin' = pin" if "client_is_http2 v" "lru_peek L (pi_idle pin) key \<noteq> None"
    using that assms(4) by (simp add: put_def)
  have h1: "sent = s \<and> (v' = None \<longrightarrow> pi_idle pin' = pi_idle pin) \<and>
      (v' = Some v \<longrightarrow> idle_list L (pi_idle pin') key = idle_list L (pi_idle pin) key @
         (if pi_max_idle pin \<le> length (idle_list L (pi_idle pin) key) then []
          else [\<lparr>idle_at = now, idle_value = v\<rparr>]))" if "client_is_http1 v"
    using that o assms(4) st f by (cases v') (auto simp: put_def client_is_http1_def)
  have "(if live = [] then v' = Some v \<and> s = [] else v' = None \<and> s = [(hd live, v)])"
    if "client_is_http1 v"
  proof -
    from that have n: "\<not> po_can_share ?P v" by (simp add: client_is_http1_def)
    show ?thesis
      by (rule pc.serve_unique [OF n, where closed = closed and accepts = accepts and ws = ws])
        (use srv assms(3) in \<open>auto simp: ws_def [symmetric] filter_empty_conv\<close>)
  qed
  with h1 h2 drop show ?thesis by (auto split: if_split_asm)
qed

text \<open>the idle sweep.  It never fails when a timeout is configured, keeps for every host exactly the
  connections that are open and have been idle no longer than the timeout, in their order, and forgets
  the hosts that have none left.\<close>

theorem idle_sweep_exact:
  assumes "lru_ok L" and "pi_timeout pin = Some dur"
  shows "\<exists>pin'. clear_expired L (client_poolable poisoned ready) now pin = Some pin' \<and>
           (\<forall>key. lru_peek L (pi_idle pin') key =
              (case filter (\<lambda>e. client_is_open poisoned ready (idle_value e) \<and> now - idle_at e \<le> dur)
                      (idle_list L (pi_idle pin) key) of
                 [] \<Rightarrow> None | l \<Rightarrow> Some l)) \<and>
           pi_waiters pin' = pi_waiters pin \<and> pi_connecting pin' = pi_connecting pin"
proof -
  obtain pin' where c: "clear_expired L (client_poolable poisoned ready) now pin = Some pin'"
    and "pi_waiters pin' = pi_waiters pin" "pi_connecting pin' = pi_connecting pin"
    using assms(2) by (auto simp: clear_expired_def Let_def)
  with clear_expired_peek [OF assms(1) c assms(2)] show ?thesis by simp
qed

section \<open>Concrete pools\<close>

text \<open>A cache that keeps its entries in order of use and evicts the last.\<close>

definition sample_lru :: "(nat option \<times> ('k \<times> 'v) list, 'k, 'v) lru_lib" where
  "sample_lru =
     \<lparr>lru_new = (\<lambda>cap. (cap, [])),
      lru_peek = (\<lambda>c k. map_of (snd c) k),
      lru_modify = (\<lambda>k f c. (fst c, case map_of (snd c) k of
         Some v \<Rightarrow> (k, f v) # AList.delete k (snd c) | None \<Rightarrow> snd c)),
      lru_get_or_insert = (\<lambda>k d c. (fst c, case map_of (snd c) k of
         Some v \<Rightarrow> (k, v) # AList.delete k (snd c)
       | None \<Rightarrow> (k, d) # (let ks = remdups (map fst (snd c)) in
           case fst c of
             Some n \<Rightarrow> if ks \<noteq> [] \<and> n \<le> length ks then AList.delete (last ks) (snd c) else snd c
           | None \<Rightarrow> snd c))),
      lru_pop = (\<lambda>k c. (fst c, AList.delete k (snd c))),
      lru_map_values = (\<lambda>f c. (fst c, map (\<lambda>(k, v). (k, f k v)) (snd c))),
      lru_keys = (\<lambda>c. remdups (map fst (snd c)))\<rparr>"

lemma map_of_map_values: "map_of (map (\<lambda>(k, v). (k, f k v)) xs) k = map_option (f k) (map_of xs k)"
  by (induction xs) auto

lemma sample_lru_ok: "lru_ok sample_lru"
  unfolding lru_ok_def sample_lru_def
  by (auto simp: delete_conv' map_of_map_values Let_def dom_map_of_conv_image_fst [symmetric]
      split: option.split)

definition sample_client :: "nat \<Rightarrow> unit pool_client" where
  "sample_client n = \<lparr>pc_info = (), pc_tx = Http1 n\<rparr>"

abbreviation all_ready :: "unit pool_client poolable" where
  "all_ready \<equiv> client_poolable (\<lambda>_. False) (\<lambda>_. True)"

definition sample_pool :: "(nat, nat option \<times> (nat \<times> unit pool_client idle list) list) pool_inner" where
  "sample_pool =
     \<lparr>pi_connecting = [], pi_idle = (Some 1, [(7, [\<lparr>idle_at = 5, idle_value = sample_client 1\<rparr>])]),
      pi_max_idle = 2, pi_waiters = [(8, [3, 4])], pi_interval = None, pi_timer = True,
      pi_timeout = Some 100\<rparr>"

lemma sample_reachable:
  "\<exists>s. pool_reachable sample_lru all_ready s \<and>
     sy_held s = [\<lparr>pl_value = sample_client 1, pl_is_reused = False, pl_key = (7 :: nat), pl_pool = True\<rparr>]"
proof -
  define pin :: "(nat, nat option \<times> (nat \<times> unit pool_client idle list) list) pool_inner" where
    "pin = \<lparr>pi_connecting = [], pi_idle = (None, []), pi_max_idle = 2, pi_waiters = [],
      pi_interval = None, pi_timer = True, pi_timeout = Some 100\<rparr>"
  let ?s0 = "pool_start pin :: (nat, unit pool_client, _) pool_sys"
  let ?s1 = "?s0\<lparr>sy_pool := pin, sy_locks := (case Some \<lparr>cn_key = 7, cn_pool = False\<rparr> of
      Some cn \<Rightarrow> cn # sy_locks ?s0 | None \<Rightarrow> sy_locks ?s0)\<rparr>"
  let ?pl = "\<lparr>pl_value = sample_client 1, pl_is_reused = False, pl_key = 7, pl_pool = True\<rparr>"
  have "pool_reachable sample_lru all_ready ?s0"
    by (rule pool_reachable.start [of _ "\<lparr>pg_idle_timeout = Some 100, pg_max_idle_per_host = 2,
        pg_max_pool_size = None\<rparr>" True])
      (simp add: pool_new_def pool_is_enabled_def sample_lru_def pin_def)
  moreover have "pool_step sample_lru all_ready ?s0 ?s1"
    by (rule pool_step.connect [of 7 Auto]) (simp add: pool_connecting_def pool_start_def)
  ultimately have "pool_reachable sample_lru all_ready ?s1" by (rule pool_reachable.step)
  moreover have "pool_step sample_lru all_ready ?s1
      (?s1\<lparr>sy_pool := pin, sy_held := ?pl # sy_held ?s1, sy_inbox := [] @ sy_inbox ?s1, sy_locks := [] @ []\<rparr>)"
  proof (rule pool_step.established [where opn = "\<lambda>_. True" and cn = "\<lparr>cn_key = 7, cn_pool = False\<rparr>" and v = "sample_client 1" and accepts = "\<lambda>_. False"
        and closed = "\<lambda>_. False" and now = 0])
    show "\<not> po_can_share all_ready (sample_client 1) \<longrightarrow> uses sample_lru ?s1 (sample_client 1) = 0"
      by (simp add: uses_def idle_count_def pool_start_def pin_def sample_lru_def)
  qed (simp_all add: pool_start_def pool_pooled_def client_reserve_def sample_client_def
      client_is_http2_def drop_connecting_def)
  ultimately have "pool_reachable sample_lru all_ready
      (?s1\<lparr>sy_pool := pin, sy_held := ?pl # sy_held ?s1, sy_inbox := [] @ sy_inbox ?s1, sy_locks := [] @ []\<rparr>)"
    by (rule pool_reachable.step)
  then show ?thesis by (intro exI conjI) (assumption, simp add: pool_start_def)
qed

theorem pool_exclusive_witness:
  "\<exists>s. pool_reachable sample_lru all_ready s \<and> sy_held s \<noteq> [] \<and>
     (\<forall>pl \<in> set (sy_held s).
        \<forall>key :: nat. pl_value pl \<notin> idle_value ` set (idle_list sample_lru (pi_idle (sy_pool s)) key))"
proof -
  obtain s where s: "pool_reachable sample_lru all_ready s"
    "sy_held s = [\<lparr>pl_value = sample_client 1, pl_is_reused = False, pl_key = (7 :: nat), pl_pool = True\<rparr>]"
    using sample_reachable by blast
  have "client_is_http1 (sample_client 1)"
    by (simp add: sample_client_def client_is_http1_def client_is_http2_def)
  with pool_exclusive [OF sample_lru_ok s(1)] s show ?thesis by (intro exI [of _ s]) auto
qed

theorem pool_contents_witness:
  "\<exists>s. pool_reachable sample_lru all_ready s \<and> sy_held s \<noteq> [] \<and>
     (\<forall>key :: nat. hm_get (pi_waiters (sy_pool s)) key \<noteq> Some [])"
proof -
  obtain s where s: "pool_reachable sample_lru all_ready s"
    "sy_held s = [\<lparr>pl_value = sample_client 1, pl_is_reused = False, pl_key = (7 :: nat), pl_pool = True\<rparr>]"
    using sample_reachable by blast
  with pool_contents [OF sample_lru_ok s(1)] show ?thesis by (intro exI [of _ s]) auto
qed

theorem checkout_usable_witness:
  "snd (snd (checkout_poll sample_lru all_ready 50 9 NotReady \<lparr>co_key = 7, co_waiter = None\<rparr> (Some sample_pool))) =
     Ready (Inr \<lparr>pl_value = sample_client 1, pl_is_reused = True, pl_key = 7, pl_pool = True\<rparr>) \<and>
   (\<exists>xs e ys. idle_list sample_lru (pi_idle sample_pool) 7 = xs @ e # ys \<and> idle_value e = sample_client 1 \<and>
      \<not> expires (Some 100) (idle_at e) 50)"
proof -
  let ?pl = "\<lparr>pl_value = sample_client 1, pl_is_reused = True, pl_key = 7, pl_pool = True\<rparr>"
  have c: "checkout_poll sample_lru all_ready 50 9 NotReady \<lparr>co_key = 7, co_waiter = None\<rparr> (Some sample_pool) =
      (Some (sample_pool\<lparr>pi_idle := (Some 1, [])\<rparr>), \<lparr>co_key = 7, co_waiter = None\<rparr>, Ready (Inr ?pl))"
    by code_simp
  from checkout_usable [OF sample_lru_ok c] c show ?thesis by (auto simp: sample_pool_def)
qed

theorem put_serves_waiters_witness:
  "snd (put sample_lru all_ready (\<lambda>tx. tx = 3) (\<lambda>_. True) 50 8 (sample_client 2) sample_pool) = [(4, sample_client 2)]"
proof -
  obtain pin' sent where p: "put sample_lru all_ready (\<lambda>tx. tx = 3) (\<lambda>_. True) 50 8 (sample_client 2) sample_pool =
      (pin', sent)"
    by fastforce
  have live: "[4] = filter (\<lambda>tx. \<not> tx = 3 \<and> True)
      (case hm_get (pi_waiters sample_pool) 8 of Some ws \<Rightarrow> ws | None \<Rightarrow> [])"
    and m: "0 < pi_max_idle sample_pool" and h: "client_is_http1 (sample_client 2)"
    by (simp_all add: sample_pool_def sample_client_def client_is_http1_def client_is_http2_def)
  from put_serves_waiters [OF sample_lru_ok m live p] p h show ?thesis by simp
qed

theorem idle_sweep_exact_witness:
  "\<exists>pin'. clear_expired sample_lru all_ready 200 sample_pool = Some pin' \<and> lru_peek sample_lru (pi_idle pin') 7 = None"
proof -
  have t: "pi_timeout sample_pool = Some 100" by (simp add: sample_pool_def)
  obtain pin' where c: "clear_expired sample_lru all_ready 200 sample_pool = Some pin'"
    and p: "\<forall>key. lru_peek sample_lru (pi_idle pin') key =
      (case filter (\<lambda>e. client_is_open (\<lambda>_. False) (\<lambda>_. True) (idle_value e) \<and> 200 - idle_at e \<le> 100)
        (idle_list sample_lru (pi_idle sample_pool) key) of [] \<Rightarrow> None | l \<Rightarrow> Some l)"
    using idle_sweep_exact [OF sample_lru_ok t] by blast
  have "lru_peek sample_lru (pi_idle pin') 7 = None"
    unfolding p [rule_format] by (simp add: sample_lru_def sample_pool_def idle_list_def)
  with c show ?thesis by blast
qed

text \<open>The size limit of the pool bounds the number of hosts, not of connections: with room for one, two
  idle connections of the same host are kept.\<close>

theorem pool_size_counts_hosts:
  "let pin = fst (put sample_lru all_ready (\<lambda>_. False) (\<lambda>_. True) 50 7 (sample_client 2) sample_pool)
   in fst (pi_idle pin) = Some 1 \<and>
      map idle_value (idle_list sample_lru (pi_idle pin) 7) = [sample_client 1, sample_client 2]"
  by code_simp

end
