(* ===== verification/Ip_Addr.thy ===== *)
theory Ip_Addr imports Uri_Ext
begin

text \<open>
  Reading IP addresses from text, as the standard library does (\<^verbatim>\<open>core::net::IpAddr::from_str\<close>): dotted
  decimal IPv4 addresses without leading zeros, and IPv6 addresses with one optional \<^verbatim>\<open>::\<close> and an optional
  embedded IPv4 address.  An address is a 32 bit or a 128 bit word.
\<close>

section \<open>Reading numbers and groups\<close>

definition digit_of :: "nat \<Rightarrow> char \<Rightarrow> nat option" where
  "digit_of radix c =
     (let n = (of_char c :: nat);
          d = (if 48 \<le> n \<and> n \<le> 57 then n - 48
               else if 97 \<le> n \<and> n \<le> 122 then n - 87
               else if 65 \<le> n \<and> n \<le> 90 then n - 55
               else radix)
      in if d < radix then Some d else None)"

definition read_number :: "nat \<Rightarrow> nat \<Rightarrow> bool \<Rightarrow> nat \<Rightarrow> string \<Rightarrow> (nat \<times> string) option" where
  "read_number radix max_digits allow_zero_prefix bound s =
     (let ds = takeWhile (\<lambda>c. digit_of radix c \<noteq> None) s;
          n = fold (\<lambda>c acc. acc * radix + (case digit_of radix c of Some d \<Rightarrow> d | None \<Rightarrow> 0)) ds 0
      in if ds = [] \<or> max_digits < length ds \<or>
            \<not> allow_zero_prefix \<and> hd ds = CHR ''0'' \<and> 1 < length ds \<or> bound \<le> n
         then None else Some (n, drop (length ds) s))"

definition read_separator ::
  "char \<Rightarrow> nat \<Rightarrow> (string \<Rightarrow> ('a \<times> string) option) \<Rightarrow> string \<Rightarrow> ('a \<times> string) option"
where
  "read_separator c i p s =
     (if i = 0 then p s
      else (case s of [] \<Rightarrow> None | x # xs \<Rightarrow> if x = c then p xs else None))"

definition read_ipv4 :: "string \<Rightarrow> ((nat \<times> nat \<times> nat \<times> nat) \<times> string) option" where
  "read_ipv4 s =
     (let octet = (\<lambda>i. read_separator CHR ''.'' i (read_number 10 3 False 256))
      in Option.bind (octet 0 s) (\<lambda>(a, s1).
         Option.bind (octet 1 s1) (\<lambda>(b, s2).
         Option.bind (octet 2 s2) (\<lambda>(c, s3).
         Option.bind (octet 3 s3) (\<lambda>(d, s4). Some ((a, b, c, d), s4))))))"

function read_groups :: "nat \<Rightarrow> nat \<Rightarrow> string \<Rightarrow> nat list \<Rightarrow> nat list \<times> bool \<times> string" where
  "read_groups limit i s groups =
     (if limit \<le> i then (groups, False, s)
      else (case (if i < limit - 1 then read_separator CHR '':'' i read_ipv4 s else None) of
              Some ((a, b, c, d), t) \<Rightarrow> (groups @ [a * 256 + b, c * 256 + d], True, t)
            | None \<Rightarrow>
                (case read_separator CHR '':'' i (read_number 16 4 True 65536) s of
                   Some (g, t) \<Rightarrow> read_groups limit (Suc i) t (groups @ [g])
                 | None \<Rightarrow> (groups, False, s))))"
  by pat_completeness auto
termination by (relation "measure (\<lambda>(limit, i, s, groups). limit - i)") auto

declare read_groups.simps [simp del]

definition read_ipv6 :: "string \<Rightarrow> (nat list \<times> string) option" where
  "read_ipv6 s =
     (let (head, head_ipv4, t) = read_groups 8 0 s []
      in if length head = 8 then Some (head, t)
         else if head_ipv4 then None
         else if take 2 t = ''::'' then
           (let (tail, _, u) = read_groups (8 - (length head + 1)) 0 (drop 2 t) []
            in Some (head @ replicate (8 - length head - length tail) 0 @ tail, u))
         else None)"

section \<open>Addresses\<close>

datatype ip_addr = V4 "32 word" | V6 "128 word"

definition v4_of :: "nat \<times> nat \<times> nat \<times> nat \<Rightarrow> 32 word" where
  "v4_of = (\<lambda>(a, b, c, d). of_nat (((a * 256 + b) * 256 + c) * 256 + d))"

definition v6_of :: "nat list \<Rightarrow> 128 word" where
  "v6_of groups = of_nat (fold (\<lambda>g acc. acc * 65536 + g) groups 0)"

text \<open>\<^verbatim>\<open>str::parse::<IpAddr>\<close>.\<close>

definition parse_ip :: "string \<Rightarrow> ip_addr option" where
  "parse_ip s =
     (case read_ipv4 s of
        Some (a, rest) \<Rightarrow> if rest = [] then Some (V4 (v4_of a)) else None
      | None \<Rightarrow>
          (case read_ipv6 s of
             Some (g, rest) \<Rightarrow> if rest = [] then Some (V6 (v6_of g)) else None
           | None \<Rightarrow> None))"

lemma parse_ip_examples:
  "parse_ip ''192.168.1.42'' = Some (V4 0xC0A8012A)" "parse_ip ''192.168.01.42'' = None"
  "parse_ip ''256.1.1.1'' = None" "parse_ip ''google.com'' = None"
  "parse_ip ''::1'' = Some (V6 1)" "parse_ip ''::ffff:1.2.3.4'' = Some (V6 0xFFFF01020304)"
  "parse_ip ''1:2:3:4:5:6:7:8'' = Some (V6 0x00010002000300040005000600070008)"
  "parse_ip ''1::2::3'' = None" "parse_ip '':1'' = None"
  by code_simp+

end
