(* ===== verification/Proxy_Matcher.thy ===== *)
theory Proxy_Matcher imports Request_Model Ip_Addr
begin

text \<open>
  Proxies (\<^verbatim>\<open>proxy.rs\<close> and \<^verbatim>\<open>proxy/matcher.rs\<close>): the builder functions of \<^verbatim>\<open>Proxy\<close>, the environment variables, the
  matcher that decides which proxy a destination uses, and the exclusion list.  Shown: the exclusion list
  follows its documented rules, the decision of a matcher, and that credentials arrive unchanged.
\<close>

section \<open>Libraries\<close>

text \<open>The URI type, percent decoding (with replacement of malformed UTF-8), base64 and the network ranges
  of the crate \<^verbatim>\<open>ipnet\<close> are parameters.\<close>

record 'n proxy_lib =
  px_uri :: uri_lib
  px_parse_uri :: "string \<Rightarrow> uri option"
  px_uri_string :: "uri \<Rightarrow> string"
  px_percent_decode :: "string \<Rightarrow> string"
  px_base64 :: "string \<Rightarrow> string"
  px_ipnet_parse :: "string \<Rightarrow> 'n option"
  px_ipnet_contains :: "'n \<Rightarrow> ip_addr \<Rightarrow> bool"

text \<open>\<^verbatim>\<open>str::trim\<close>: the UTF-8 encodings of the Unicode white space characters.\<close>

definition white_space :: "string list" where
  "white_space =
     map (\<lambda>n. [char_of (n :: nat)]) [9, 10, 11, 12, 13, 32] @
     map (\<lambda>n. map char_of [0xC2, n :: nat]) [0x85, 0xA0] @
     map (map char_of)
       ([[0xE1, 0x9A, 0x80 :: nat], [0xE2, 0x81, 0x9F], [0xE3, 0x80, 0x80]] @
        map (\<lambda>n. [0xE2, 0x80, n]) ([0x80..<0x8B] @ [0xA8, 0xA9, 0xAF]))"

function trim_start :: "string list \<Rightarrow> string \<Rightarrow> string" where
  "trim_start ws s =
     (case find (\<lambda>w. w \<noteq> [] \<and> prefix w s) ws of
        None \<Rightarrow> s
      | Some w \<Rightarrow> trim_start ws (drop (length w) s))"
  by pat_completeness auto
termination
proof (relation "measure (\<lambda>(ws, s). length s)", goal_cases)
  case (2 ws s w)
  then have "w \<noteq> []" "prefix w s" by (auto simp: find_Some_iff)
  then show ?case using prefix_length_le [of w s] by (cases w; cases s) auto
qed simp

declare trim_start.simps [simp del]

definition str_trim :: "string \<Rightarrow> string" where
  "str_trim s = rev (trim_start (map rev white_space) (rev (trim_start white_space s)))"

text \<open>\<^verbatim>\<open>str::get(i..)\<close>: \<open>None\<close> past the end or inside a character.\<close>

definition str_get_from :: "nat \<Rightarrow> string \<Rightarrow> string option" where
  "str_get_from i s =
     (if i = 0 \<or> i = length s \<or> i < length s \<and> \<not> in_range 0x80 0xBF (of_char (s ! i))
      then Some (drop i s) else None)"

section \<open>Exclusions\<close>

datatype 'n ip_entry = Address ip_addr | Network 'n

record 'n no_proxy_rules =
  np_ips :: "'n ip_entry list"
  np_domains :: "string list"

definition no_proxy_empty :: "'n no_proxy_rules" where
  "no_proxy_empty = \<lparr>np_ips = [], np_domains = []\<rparr>"

definition no_proxy_part :: "'n proxy_lib \<Rightarrow> string \<Rightarrow> 'n no_proxy_rules \<Rightarrow> 'n no_proxy_rules" where
  "no_proxy_part L part np =
     (case px_ipnet_parse L part of
        Some net \<Rightarrow> np\<lparr>np_ips := np_ips np @ [Network net]\<rparr>
      | None \<Rightarrow>
          (case parse_ip part of
             Some addr \<Rightarrow> np\<lparr>np_ips := np_ips np @ [Address addr]\<rparr>
           | None \<Rightarrow>
               if str_trim part \<noteq> [] then np\<lparr>np_domains := np_domains np @ [part]\<rparr> else np))"

definition no_proxy_from_string :: "'n proxy_lib \<Rightarrow> string \<Rightarrow> 'n no_proxy_rules" where
  "no_proxy_from_string L s =
     fold (no_proxy_part L) (map str_trim (split_on CHR '','' s)) no_proxy_empty"

fun ip_matcher_contains :: "'n proxy_lib \<Rightarrow> 'n ip_entry list \<Rightarrow> ip_addr \<Rightarrow> bool" where
  "ip_matcher_contains L [] addr = False"
| "ip_matcher_contains L (ip # ips) addr =
     (case ip of
        Address address \<Rightarrow> if addr = address then True else ip_matcher_contains L ips addr
      | Network net \<Rightarrow> if px_ipnet_contains L net addr then True else ip_matcher_contains L ips addr)"

fun domain_matcher_contains :: "string list \<Rightarrow> string \<Rightarrow> bool" where
  "domain_matcher_contains [] domain = False"
| "domain_matcher_contains (d # ds) domain =
     (if eq_ignore_ascii_case d domain \<or>
         (case strip_prefix CHR ''.'' d of Some s \<Rightarrow> eq_ignore_ascii_case s domain | None \<Rightarrow> False)
      then True
      else if (case str_get_from (length domain - length d) domain of
                 Some s \<Rightarrow> eq_ignore_ascii_case s d | None \<Rightarrow> False)
      then
        if prefix ''.'' d then True
        else if length domain - (length d + 1) < length domain \<and>
                domain ! (length domain - (length d + 1)) = CHR ''.''
        then True
        else domain_matcher_contains ds domain
      else if d = ''*'' then True
      else domain_matcher_contains ds domain)"

definition no_proxy_contains :: "'n proxy_lib \<Rightarrow> 'n no_proxy_rules \<Rightarrow> string \<Rightarrow> bool" where
  "no_proxy_contains L np host =
     (let h = strip_ipv6_brackets host
      in case parse_ip h of
           Some ip \<Rightarrow> ip_matcher_contains L (np_ips np) ip
         | None \<Rightarrow> domain_matcher_contains (np_domains np) h)"

section \<open>Matchers\<close>

datatype proxy_auth = AuthEmpty | AuthBasic header_value | AuthRaw string string

record extra =
  ex_auth :: "header_value option"
  ex_misc :: "header_map option"

definition extra_default :: extra where
  "extra_default = \<lparr>ex_auth = None, ex_misc = None\<rparr>"

record intercept =
  ic_uri :: uri
  ic_auth :: proxy_auth
  ic_extra :: extra

datatype intercepted = Proxied intercept | UnixSocket string

record 'n matcher =
  mt_http :: "intercept option"
  mt_https :: "intercept option"
  mt_no :: "'n no_proxy_rules"
  mt_unix :: "string option"

record matcher_builder =
  mb_is_cgi :: bool
  mb_all :: string
  mb_http :: string
  mb_https :: string
  mb_no :: string
  mb_unix :: "string option"

definition matcher_builder_default :: matcher_builder where
  "matcher_builder_default =
     \<lparr>mb_is_cgi = False, mb_all = [], mb_http = [], mb_https = [], mb_no = [], mb_unix = None\<rparr>"

definition matcher_intercept :: "'n proxy_lib \<Rightarrow> 'n matcher \<Rightarrow> uri \<Rightarrow> intercepted option" where
  "matcher_intercept L m dst =
     (case mt_unix m of
        Some unix \<Rightarrow> Some (UnixSocket unix)
      | None \<Rightarrow>
          (case uri_host dst of
             None \<Rightarrow> None
           | Some h \<Rightarrow>
               if no_proxy_contains L (mt_no m) h then None
               else if is_http dst then map_option Proxied (mt_http m)
               else if is_https dst then map_option Proxied (mt_https m)
               else None))"

definition intercept_basic_auth :: "intercept \<Rightarrow> header_value option" where
  "intercept_basic_auth ic =
     (case ex_auth (ic_extra ic) of
        Some v \<Rightarrow> Some v
      | None \<Rightarrow> (case ic_auth ic of AuthBasic v \<Rightarrow> Some v | _ \<Rightarrow> None))"

definition custom_headers :: "intercept \<Rightarrow> header_map option" where
  "custom_headers ic = ex_misc (ic_extra ic)"

definition raw_auth :: "intercept \<Rightarrow> (string \<times> string) option" where
  "raw_auth ic = (case ic_auth ic of AuthRaw u p \<Rightarrow> Some (u, p) | _ \<Rightarrow> None)"

text \<open>The environment is a partial function from names to values.\<close>

fun get_first_env :: "(string \<Rightarrow> string option) \<Rightarrow> string list \<Rightarrow> string" where
  "get_first_env env [] = []"
| "get_first_env env (n # ns) = (case env n of Some v \<Rightarrow> v | None \<Rightarrow> get_first_env env ns)"

definition builder_from_env :: "(string \<Rightarrow> string option) \<Rightarrow> matcher_builder" where
  "builder_from_env env =
     \<lparr>mb_is_cgi = (env ''REQUEST_METHOD'' \<noteq> None),
      mb_all = get_first_env env [''ALL_PROXY'', ''all_proxy''],
      mb_http = get_first_env env [''HTTP_PROXY'', ''http_proxy''],
      mb_https = get_first_env env [''HTTPS_PROXY'', ''https_proxy''],
      mb_no = get_first_env env [''NO_PROXY'', ''no_proxy''],
      mb_unix = None\<rparr>"

definition socks_schemes :: "string list" where
  "socks_schemes = [''socks4'', ''socks4a'', ''socks5'', ''socks5h'']"

definition parse_env_uri :: "'n proxy_lib \<Rightarrow> string \<Rightarrow> intercept option" where
  "parse_env_uri L val =
     Option.bind (px_parse_uri L val) (\<lambda>uri.
     Option.bind (case uri_scheme uri of
                    Some s \<Rightarrow>
                      if s = ''http'' \<or> s = ''https'' then Some (s, True)
                      else if s \<in> set socks_schemes then Some (s, False)
                      else None
                  | None \<Rightarrow> Some (''http'', True)) (\<lambda>(scheme, is_httpish).
     Option.bind (uri_authority uri) (\<lambda>authority0.
     Option.bind (if \<not> is_httpish \<and> auth_port authority0 = None
                  then lib_parse_authority (px_uri L) (auth_str authority0 @ '':1080'')
                  else Some authority0) (\<lambda>authority.
     let (auth, parsed) =
           (case rsplit_once CHR ''@'' (auth_str authority) of
              Some (info, host_port) \<Rightarrow>
                (let (user0, pass0) = (case split_once CHR '':'' info of
                                         Some (u, p) \<Rightarrow> (u, Some p)
                                       | None \<Rightarrow> (info, None));
                     user = px_percent_decode L user0;
                     pass = map_option (px_percent_decode L) pass0
                 in (if is_httpish then AuthBasic (basic_auth (px_base64 L) user pass)
                     else AuthRaw user (case pass of Some p \<Rightarrow> p | None \<Rightarrow> []),
                     lib_parse_authority (px_uri L) host_port))
            | None \<Rightarrow> (AuthEmpty, Some authority))
     in Option.bind parsed (\<lambda>a.
        Option.bind (lib_from_parts (px_uri L)
            \<lparr>uri_scheme = Some scheme, uri_authority = Some a, uri_pq = Some (''/'', None)\<rparr>) (\<lambda>u.
        Some \<lparr>ic_uri = u, ic_auth = auth, ic_extra = extra_default\<rparr>))))))"

definition matcher_build :: "'n proxy_lib \<Rightarrow> matcher_builder \<Rightarrow> extra \<Rightarrow> 'n matcher" where
  "matcher_build L b ex =
     (if mb_is_cgi b then \<lparr>mt_http = None, mt_https = None, mt_no = no_proxy_empty, mt_unix = None\<rparr>
      else
        let all0 = parse_env_uri L (mb_all b);
            http0 = parse_env_uri L (mb_http b);
            https0 = parse_env_uri L (mb_https b);
            http1 = map_option (\<lambda>i. i\<lparr>ic_extra := ex\<rparr>) http0;
            https1 = map_option (\<lambda>i. i\<lparr>ic_extra := ex\<rparr>) https0;
            all1 = (if http1 = None \<or> https1 = None then map_option (\<lambda>i. i\<lparr>ic_extra := ex\<rparr>) all0 else all0)
        in \<lparr>mt_http = (case http1 of Some i \<Rightarrow> Some i | None \<Rightarrow> all1),
            mt_https = (case https1 of Some i \<Rightarrow> Some i | None \<Rightarrow> all1),
            mt_no = no_proxy_from_string L (mb_no b), mt_unix = mb_unix b\<rparr>)"

section \<open>Configured proxies\<close>

datatype proxy_target = PAll uri | PHttp uri | PHttps uri | PUnix string

record proxy =
  pr_extra :: extra
  pr_scheme :: proxy_target
  pr_no_proxy :: "string option"

definition proxy_new :: "proxy_target \<Rightarrow> proxy" where
  "proxy_new sch = \<lparr>pr_extra = extra_default, pr_scheme = sch, pr_no_proxy = None\<rparr>"

definition proxy_http :: "(error, uri) result \<Rightarrow> (error, proxy) result" where
  "proxy_http u = map_sum id (proxy_new \<circ> PHttp) u"

definition proxy_https :: "(error, uri) result \<Rightarrow> (error, proxy) result" where
  "proxy_https u = map_sum id (proxy_new \<circ> PHttps) u"

definition proxy_all :: "(error, uri) result \<Rightarrow> (error, proxy) result" where
  "proxy_all u = map_sum id (proxy_new \<circ> PAll) u"

definition proxy_unix :: "string \<Rightarrow> (error, proxy) result" where
  "proxy_unix path = Inr (proxy_new (PUnix path))"

definition proxy_basic_auth :: "'n proxy_lib \<Rightarrow> proxy \<Rightarrow> string \<Rightarrow> string \<Rightarrow> proxy" where
  "proxy_basic_auth L p username password =
     (let header = basic_auth (px_base64 L) username (Some password);
          set = (\<lambda>u. set_userinfo (px_uri L) u username (Some password));
          ex = (pr_extra p)\<lparr>ex_auth := Some header\<rparr>
      in case pr_scheme p of
           PAll u \<Rightarrow> p\<lparr>pr_scheme := PAll (set u), pr_extra := ex\<rparr>
         | PHttp u \<Rightarrow> p\<lparr>pr_scheme := PHttp (set u), pr_extra := ex\<rparr>
         | PHttps u \<Rightarrow> p\<lparr>pr_scheme := PHttps (set u), pr_extra := ex\<rparr>
         | PUnix _ \<Rightarrow> p)"

definition custom_http_auth :: "proxy \<Rightarrow> header_value \<Rightarrow> proxy" where
  "custom_http_auth p v = p\<lparr>pr_extra := (pr_extra p)\<lparr>ex_auth := Some v\<rparr>\<rparr>"

definition custom_http_headers :: "proxy \<Rightarrow> header_map \<Rightarrow> proxy" where
  "custom_http_headers p h =
     (case pr_scheme p of
        PUnix _ \<Rightarrow> p
      | _ \<Rightarrow> p\<lparr>pr_extra := (pr_extra p)\<lparr>ex_misc := Some h\<rparr>\<rparr>)"

definition proxy_no_proxy :: "proxy \<Rightarrow> string option \<Rightarrow> proxy" where
  "proxy_no_proxy p np = p\<lparr>pr_no_proxy := np\<rparr>"

definition into_matcher :: "'n proxy_lib \<Rightarrow> proxy \<Rightarrow> 'n matcher" where
  "into_matcher L p =
     (let b = matcher_builder_default\<lparr>mb_no := (case pr_no_proxy p of Some n \<Rightarrow> n | None \<Rightarrow> [])\<rparr>
      in case pr_scheme p of
           PAll u \<Rightarrow> matcher_build L (b\<lparr>mb_all := px_uri_string L u\<rparr>) (pr_extra p)
         | PHttp u \<Rightarrow> matcher_build L (b\<lparr>mb_http := px_uri_string L u\<rparr>) (pr_extra p)
         | PHttps u \<Rightarrow> matcher_build L (b\<lparr>mb_https := px_uri_string L u\<rparr>) (pr_extra p)
         | PUnix path \<Rightarrow> matcher_build L (b\<lparr>mb_unix := Some path\<rparr>) (pr_extra p))"

text \<open>\<^verbatim>\<open>NoProxy\<close> of \<^verbatim>\<open>proxy.rs\<close> is its list, unparsed.\<close>

definition no_proxy_of :: "string \<Rightarrow> string option" where
  "no_proxy_of list = Some list"

definition no_proxy_from_env :: "(string \<Rightarrow> string option) \<Rightarrow> string option" where
  "no_proxy_from_env env =
     Option.bind (case env ''NO_PROXY'' of Some v \<Rightarrow> Some v | None \<Rightarrow> env ''no_proxy'') (\<lambda>raw.
     Some (case no_proxy_of raw of Some n \<Rightarrow> n | None \<Rightarrow> []))"

definition matcher_system :: "'n proxy_lib \<Rightarrow> (string \<Rightarrow> string option) \<Rightarrow> 'n matcher" where
  "matcher_system L env = matcher_build L (builder_from_env env) extra_default"

section \<open>The documented rules\<close>

text \<open>An entry matches a name when it is the wildcard, the name itself or a domain the name is below; a
  leading dot of the entry is ignored, and so is the case of letters.\<close>

definition strip_dot :: "string \<Rightarrow> string" where
  "strip_dot d = (case strip_prefix CHR ''.'' d of Some s \<Rightarrow> s | None \<Rightarrow> d)"

definition entry_matches :: "string \<Rightarrow> string \<Rightarrow> bool" where
  "entry_matches d host \<longleftrightarrow>
     d = ''*'' \<or> lower host = lower (strip_dot d) \<or> suffix (''.'' @ lower (strip_dot d)) (lower host)"

text \<open>The walk over the entries compares an entry with the end of the name before it looks for the wildcard, so the
  wildcard is not tried on a name that ends with an asterisk itself.\<close>

definition entry_hits :: "string \<Rightarrow> string \<Rightarrow> bool" where
  "entry_hits d host \<longleftrightarrow>
     d = ''*'' \<and> \<not> suffix ''*'' host \<or> lower host = lower (strip_dot d) \<or>
     suffix (''.'' @ lower (strip_dot d)) (lower host)"

lemma entry_hits_matches:
  "entry_hits d host \<Longrightarrow> entry_matches d host"
  "host = ''*'' \<or> \<not> suffix ''*'' host \<Longrightarrow> entry_matches d host \<Longrightarrow> entry_hits d host"
  by (auto simp: entry_hits_def entry_matches_def strip_dot_def)

definition ascii :: "string \<Rightarrow> bool" where
  "ascii s = list_all (\<lambda>c. (of_char c :: nat) < 128) s"

lemma str_get_from_ascii:
  assumes "ascii s" "i \<le> length s"
  shows "str_get_from i s = Some (drop i s)"
proof -
  have "(of_char (s ! i) :: nat) < 128" if "i < length s"
    using assms(1) that by (simp add: ascii_def list_all_length)
  then have "\<not> in_range 0x80 0xBF (of_char (s ! i))" if "i < length s"
    using that by (auto simp: in_range_def)
  then show ?thesis using assms(2) by (auto simp: str_get_from_def)
qed

lemma ascii_lower_punct:
  assumes "p = CHR ''.'' \<or> p = CHR ''*''"
  shows "ascii_lower c = p \<longleftrightarrow> c = p"
proof (cases "65 \<le> (of_char c :: nat) \<and> (of_char c :: nat) \<le> 90")
  case True
  then have "(of_char (ascii_lower c) :: nat) = of_char c + 32" by (simp add: ascii_lower_def Let_def)
  with True assms show ?thesis by auto
next
  case False
  then have "ascii_lower c = c" by (auto simp: ascii_lower_def Let_def)
  then show ?thesis by simp
qed

lemmas ascii_lower_dot = ascii_lower_punct [of "CHR ''.''", simplified]

lemmas ascii_lower_star = ascii_lower_punct [of "CHR ''*''", simplified]

text \<open>Walking the entries one by one is the same as asking for an entry that matches.\<close>

lemma entry_step:
  assumes host: "ascii domain" and d: "d \<noteq> []"
  shows "domain_matcher_contains (d # ds) domain \<longleftrightarrow> entry_hits d domain \<or> domain_matcher_contains ds domain"
proof -
  define n where "n = length domain - length d"
  have get: "str_get_from n domain = Some (drop n domain)"
    by (rule str_get_from_ascii [OF host]) (simp add: n_def)
  have suf: "eq_ignore_ascii_case (drop n domain) d \<longleftrightarrow> suffix (lower d) (lower domain)"
  proof
    assume "eq_ignore_ascii_case (drop n domain) d"
    then show "suffix (lower d) (lower domain)"
      by (simp add: eq_ignore_ascii_case_def lower_drop) (metis suffix_drop)
  next
    assume "suffix (lower d) (lower domain)"
    then obtain xs where xs: "lower domain = xs @ lower d" by (auto simp: suffix_def)
    then have "length domain = length xs + length d" by (metis length_append length_lower)
    then have "length xs = n" by (simp add: n_def)
    with xs show "eq_ignore_ascii_case (drop n domain) d" by (simp add: eq_ignore_ascii_case_def lower_drop)
  qed
  have dot: "n - 1 < length domain \<and> domain ! (n - 1) = CHR ''.'' \<longleftrightarrow> suffix (''.'' @ lower d) (lower domain)"
    if s: "suffix (lower d) (lower domain)" and ne: "lower d \<noteq> lower domain"
  proof -
    from s obtain xs where xs: "lower domain = xs @ lower d" by (auto simp: suffix_def)
    with ne have "xs \<noteq> []" by auto
    then obtain ys y where ys: "xs = ys @ [y]" by (cases xs rule: rev_cases) auto
    have len: "length domain = length xs + length d" by (metis xs length_append length_lower)
    then have n: "n = Suc (length ys)" using ys by (simp add: n_def)
    have "lower domain ! length ys = y" by (simp add: xs ys)
    moreover have l: "length ys < length domain" using len ys by simp
    ultimately have "domain ! length ys = CHR ''.'' \<longleftrightarrow> y = CHR ''.''"
      by (simp add: lower_def ascii_lower_dot) (metis ascii_lower_dot)
    moreover have "suffix (''.'' @ lower d) (lower domain) \<longleftrightarrow> y = CHR ''.''"
      by (auto simp: xs ys suffix_def)
    ultimately show ?thesis using n l by simp
  qed
  show ?thesis
  proof (cases "prefix ''.'' d")
    case True
    then obtain e where e: "d = CHR ''.'' # e" by (auto simp: prefix_def)
    then have "strip_dot d = e" "lower d = CHR ''.'' # lower e" "d \<noteq> ''*''"
      by (auto simp: strip_dot_def lower_def ascii_lower_dot)
    then show ?thesis
      using get suf e by (auto simp: n_def entry_hits_def eq_ignore_ascii_case_def)
  next
    case False
    then have s: "strip_dot d = d" "strip_prefix CHR ''.'' d = None"
      by (cases d; simp add: strip_dot_def)+
    have star: "suffix ''*'' domain \<longleftrightarrow> suffix (lower d) (lower domain)" if "d = ''*''"
    proof -
      have "lower ''*'' = ''*''" by code_simp
      moreover have "suffix ''*'' domain \<longleftrightarrow> suffix ''*'' (lower domain)"
        by (cases domain rule: rev_cases) (auto simp: lower_def ascii_lower_star eq_commute [of "CHR ''*''"])
      ultimately show ?thesis using that by simp
    qed
    have d1: "length domain - (length d + 1) = n - 1" by (simp add: n_def)
    have step: "domain_matcher_contains (d # ds) domain \<longleftrightarrow>
        (if lower d = lower domain then True
         else if suffix (lower d) (lower domain) then
           suffix (''.'' @ lower d) (lower domain) \<or> domain_matcher_contains ds domain
         else d = ''*'' \<or> domain_matcher_contains ds domain)"
    proof (cases "lower d = lower domain")
      case True
      then show ?thesis by (simp add: eq_ignore_ascii_case_def)
    next
      case ne: False
      then show ?thesis
        using get suf dot s False unfolding domain_matcher_contains.simps d1 n_def [symmetric]
        by (simp add: eq_ignore_ascii_case_def)
    qed
    show ?thesis
    proof (cases "suffix (lower d) (lower domain)")
      case True
      with star show ?thesis unfolding step entry_hits_def s(1) by auto
    next
      case f: False
      then have "\<not> suffix (''.'' @ lower d) (lower domain)" "lower d \<noteq> lower domain"
        using suffix_ConsD [of "CHR ''.''"] by auto
      with f star show ?thesis unfolding step entry_hits_def s(1) by auto
    qed
  qed
qed

lemma domain_matcher_entries:
  assumes "ascii host" "[] \<notin> set ds"
  shows "domain_matcher_contains ds host \<longleftrightarrow> (\<exists>d \<in> set ds. entry_hits d host)"
  using assms(2)
proof (induction ds)
  case (Cons d ds)
  then have d: "d \<noteq> []" and IH: "domain_matcher_contains ds host \<longleftrightarrow> (\<exists>d \<in> set ds. entry_hits d host)"
    by auto
  show ?case unfolding entry_step [OF assms(1) d] IH by simp
qed simp

lemma ip_matcher_entries:
  "ip_matcher_contains L ips addr \<longleftrightarrow>
     Address addr \<in> set ips \<or> (\<exists>net. Network net \<in> set ips \<and> px_ipnet_contains L net addr)"
  by (induction ips) (auto split: ip_entry.split)

definition ip_of_part :: "'n proxy_lib \<Rightarrow> string \<Rightarrow> 'n ip_entry option" where
  "ip_of_part L p =
     (case px_ipnet_parse L p of Some n \<Rightarrow> Some (Network n) | None \<Rightarrow> map_option Address (parse_ip p))"

lemma no_proxy_fold:
  "np_ips (fold (no_proxy_part L) parts np) = np_ips np @ List.map_filter (ip_of_part L) parts"
  "np_domains (fold (no_proxy_part L) parts np) =
     np_domains np @ filter (\<lambda>p. ip_of_part L p = None \<and> str_trim p \<noteq> []) parts"
  by (induction parts arbitrary: np)
    (auto simp: no_proxy_part_def ip_of_part_def List.map_filter_def split: option.split)

definition no_proxy_parts :: "string \<Rightarrow> string list" where
  "no_proxy_parts s = map str_trim (split_on CHR '','' s)"

lemma str_trim_Nil: "str_trim [] = []"
  by code_simp

lemma in_map_filter: "y \<in> set (List.map_filter f xs) \<longleftrightarrow> (\<exists>x \<in> set xs. f x = Some y)"
  by (induction xs) (auto simp: List.map_filter_simps split: option.split)

lemma ip_of_part_simps:
  "ip_of_part L p = Some (Address a) \<longleftrightarrow> px_ipnet_parse L p = None \<and> parse_ip p = Some a"
  "ip_of_part L p = Some (Network n) \<longleftrightarrow> px_ipnet_parse L p = Some n"
  "ip_of_part L p = None \<longleftrightarrow> px_ipnet_parse L p = None \<and> parse_ip p = None"
  by (auto simp: ip_of_part_def split: option.split)

lemma no_proxy_lists:
  "np_ips (no_proxy_from_string L list) = List.map_filter (ip_of_part L) (no_proxy_parts list)"
  "np_domains (no_proxy_from_string L list) =
     filter (\<lambda>p. ip_of_part L p = None \<and> str_trim p \<noteq> []) (no_proxy_parts list)"
  by (simp_all add: no_proxy_from_string_def no_proxy_fold no_proxy_empty_def no_proxy_parts_def)

text \<open>What the documentation of \<^verbatim>\<open>NoProxy::from_string\<close> says of a list and a host, stated on the entries of the list.\<close>

definition names_host :: "'n proxy_lib \<Rightarrow> string \<Rightarrow> string \<Rightarrow> bool" where
  "names_host L list h \<longleftrightarrow>
     (case parse_ip h of
        Some ip \<Rightarrow>
          (\<exists>p \<in> set (no_proxy_parts list).
             (case px_ipnet_parse L p of
                Some net \<Rightarrow> px_ipnet_contains L net ip
              | None \<Rightarrow> parse_ip p = Some ip))
      | None \<Rightarrow>
          (\<exists>p \<in> set (no_proxy_parts list).
             px_ipnet_parse L p = None \<and> parse_ip p = None \<and> str_trim p \<noteq> [] \<and> entry_matches p h))"

lemma no_proxy_address:
  assumes "parse_ip (strip_ipv6_brackets host) = Some ip"
  shows "no_proxy_contains L (no_proxy_from_string L list) host \<longleftrightarrow> names_host L list (strip_ipv6_brackets host)"
proof -
  have q: "(case px_ipnet_parse L p of Some net \<Rightarrow> px_ipnet_contains L net ip | None \<Rightarrow> parse_ip p = Some ip) \<longleftrightarrow>
      px_ipnet_parse L p = None \<and> parse_ip p = Some ip \<or>
      (\<exists>net. px_ipnet_parse L p = Some net \<and> px_ipnet_contains L net ip)" for p
    by (cases "px_ipnet_parse L p") simp_all
  have "no_proxy_contains L (no_proxy_from_string L list) host \<longleftrightarrow>
      (\<exists>p \<in> set (no_proxy_parts list). px_ipnet_parse L p = None \<and> parse_ip p = Some ip) \<or>
      (\<exists>net. (\<exists>p \<in> set (no_proxy_parts list). px_ipnet_parse L p = Some net) \<and> px_ipnet_contains L net ip)"
    by (simp add: assms no_proxy_contains_def no_proxy_lists ip_matcher_entries in_map_filter ip_of_part_simps)
  then show ?thesis unfolding names_host_def assms option.case q by blast
qed

lemma no_proxy_name:
  assumes "parse_ip (strip_ipv6_brackets host) = None" "ascii (strip_ipv6_brackets host)"
  shows "no_proxy_contains L (no_proxy_from_string L list) host \<longleftrightarrow>
    (\<exists>p \<in> set (no_proxy_parts list). px_ipnet_parse L p = None \<and> parse_ip p = None \<and> str_trim p \<noteq> [] \<and>
       entry_hits p (strip_ipv6_brackets host))"
proof -
  have "[] \<notin> set (filter (\<lambda>p. ip_of_part L p = None \<and> str_trim p \<noteq> []) (no_proxy_parts list))"
    by (auto simp: str_trim_Nil)
  from domain_matcher_entries [OF assms(2) this] show ?thesis
    by (simp add: assms(1) no_proxy_contains_def no_proxy_lists ip_of_part_simps Bex_def conj_ac)
qed

text \<open>C18: the exclusion list follows its documented rules.  The rules name a host that is an IP address when an entry is
  that address or a network containing it, and any other host when an entry that is no address is the wildcard, the name
  itself or a parent domain of it, ignoring a leading dot and the case of letters.  For an ASCII host, which the host of a
  URI always is, every excluded host is named by the rules, and every host the rules name is excluded, except perhaps a
  name that ends with an asterisk without being the asterisk alone: there the wildcard may fail.\<close>

theorem no_proxy_rules_spec:
  assumes "h = strip_ipv6_brackets host" "ascii h"
  shows "(no_proxy_contains L (no_proxy_from_string L list) host \<longrightarrow> names_host L list h) \<and>
    (names_host L list h \<and> (h = ''*'' \<or> \<not> suffix ''*'' h) \<longrightarrow>
       no_proxy_contains L (no_proxy_from_string L list) host)"
proof (cases "parse_ip h")
  case (Some ip)
  then show ?thesis using no_proxy_address [of host ip L list] assms(1) by simp
next
  case None
  with no_proxy_name [of host L list] assms show ?thesis
    by (auto simp: names_host_def intro: entry_hits_matches)
qed

section \<open>Credentials of a proxy\<close>

definition proxy_lib_ok :: "'n proxy_lib \<Rightarrow> bool" where
  "proxy_lib_ok L \<longleftrightarrow>
     uri_lib_ok (px_uri L) \<and> px_parse_uri L [] = None \<and>
     (\<forall>s. CHR ''%'' \<notin> set s \<and> utf8_valid s \<longrightarrow>
        px_percent_decode L (lib_percent_encode (px_uri L) userinfo_set s) = s)"

lemma userinfo_text_password:
  assumes "uri_lib_ok L"
  shows "userinfo_text L a n (Some p) =
    (lib_percent_encode L userinfo_set n @ '':'' @ lib_percent_encode L userinfo_set p) @ ''@'' @ host_and_port a"
proof -
  have "lib_percent_encode L userinfo_set [] = []" using assms by (simp add: uri_lib_ok_def)
  then show ?thesis by (cases "n = []") (simp_all add: userinfo_text_def Let_def)
qed

lemma rsplit_at: "CHR ''@'' \<notin> set h \<Longrightarrow> rsplit_once CHR ''@'' (x @ CHR ''@'' # h) = Some (x, h)"
  by (simp add: rsplit_once_Some)

lemma parse_env_uri_auth:
  assumes ok: "proxy_lib_ok L"
    and uri: "px_parse_uri L val = Some u" "uri_authority u = Some a"
      "auth_str a = (enc n @ '':'' @ enc p) @ ''@'' @ h" "CHR ''@'' \<notin> set h"
    and enc: "enc = lib_percent_encode (px_uri L) userinfo_set"
    and np: "CHR ''%'' \<notin> set n" "utf8_valid n" "CHR ''%'' \<notin> set p" "utf8_valid p"
    and parse: "parse_env_uri L val = Some ic"
  shows "ic_auth ic = (if uri_scheme u \<in> Some ` set socks_schemes then AuthRaw n p
                       else AuthBasic (basic_auth (px_base64 L) n (Some p)))"
    and "\<exists>a. uri_authority (ic_uri ic) = Some a \<and> CHR ''@'' \<notin> set (auth_str a)"
proof -
  from ok have L: "uri_lib_ok (px_uri L)" by (simp add: proxy_lib_ok_def)
  then have same: "lib_parse_authority (px_uri L) s = Some x \<Longrightarrow> auth_str x = s"
    and parts: "lib_from_parts (px_uri L) w = Some w' \<Longrightarrow> w' = w" for s x w w'
    by (auto simp: uri_lib_ok_def)
  have dec: "px_percent_decode L (enc n) = n" "px_percent_decode L (enc p) = p"
    using ok np by (simp_all add: proxy_lib_ok_def enc)
  have colon: "split_once CHR '':'' (enc n @ CHR '':'' # enc p) = Some (enc n, enc p)"
    using encode_no_sep(1) [OF L] by (simp add: split_once_Some enc)
  obtain scheme httpish where sch: "(case uri_scheme u of
        Some s \<Rightarrow> if s = ''http'' \<or> s = ''https'' then Some (s, True)
          else if s \<in> set socks_schemes then Some (s, False) else None
      | None \<Rightarrow> Some (''http'', True)) = Some (scheme, httpish)"
    using parse uri(1) by (auto simp: parse_env_uri_def Option.bind_eq_Some_conv)
  then have hs: "httpish \<longleftrightarrow> uri_scheme u \<notin> Some ` set socks_schemes"
    by (auto simp: socks_schemes_def split: option.split_asm if_split_asm)
  obtain b where b: "(if \<not> httpish \<and> auth_port a = None
      then lib_parse_authority (px_uri L) (auth_str a @ '':1080'') else Some a) = Some b"
    using parse uri(1,2) sch by (auto simp: parse_env_uri_def Option.bind_eq_Some_conv)
  then obtain h' where h': "auth_str b = (enc n @ '':'' @ enc p) @ ''@'' @ h'" "CHR ''@'' \<notin> set h'"
    using same uri(3,4) by (auto split: if_split_asm)
  have "rsplit_once CHR ''@'' (auth_str b) = Some (enc n @ CHR '':'' # enc p, h')"
    using rsplit_at [OF h'(2), of "enc n @ CHR '':'' # enc p"] h'(1) by simp
  with parse uri(1,2) sch b colon dec obtain c w where
    c: "lib_parse_authority (px_uri L) h' = Some c"
    "lib_from_parts (px_uri L) \<lparr>uri_scheme = Some scheme, uri_authority = Some c, uri_pq = Some (''/'', None)\<rparr> = Some w"
    "ic = \<lparr>ic_uri = w, ic_auth = (if httpish then AuthBasic (basic_auth (px_base64 L) n (Some p)) else AuthRaw n p),
           ic_extra = extra_default\<rparr>"
    by (auto simp: parse_env_uri_def Option.bind_eq_Some_conv Let_def)
  from c(3) hs show "ic_auth ic = (if uri_scheme u \<in> Some ` set socks_schemes then AuthRaw n p
      else AuthBasic (basic_auth (px_base64 L) n (Some p)))"
    by simp
  from c same [OF c(1)] parts [OF c(2)] h'(2)
  show "\<exists>a. uri_authority (ic_uri ic) = Some a \<and> CHR ''@'' \<notin> set (auth_str a)"
    by simp
qed

text \<open>C26: credentials set on a proxy arrive unchanged.  When a proxy for all destinations is given a user name and
  a password without a percent sign, every request it intercepts sees the matching Basic header, a SOCKS
  proxy is authenticated with exactly that name and password, and the URI the connection is made to no
  longer contains them.\<close>

theorem proxy_auth_roundtrip:
  assumes "proxy_lib_ok L" and "uri_authority u = Some a"
    and "lib_parse_authority (px_uri L) (userinfo_text (px_uri L) a n (Some p)) = Some a'"
    and "lib_from_parts (px_uri L) (u\<lparr>uri_authority := Some a'\<rparr>) = Some u'"
    and "px_parse_uri L (px_uri_string L u') = Some u'"
    and "CHR ''%'' \<notin> set n" "utf8_valid n" "CHR ''%'' \<notin> set p" "utf8_valid p"
    and "matcher_intercept L (into_matcher L (proxy_basic_auth L (proxy_new (PAll u)) n p)) dst = Some (Proxied ic)"
  shows "intercept_basic_auth ic = Some (basic_auth (px_base64 L) n (Some p)) \<and>
         (uri_scheme u \<in> Some ` set socks_schemes \<longrightarrow> raw_auth ic = Some (n, p)) \<and>
         (\<exists>b. uri_authority (ic_uri ic) = Some b \<and> CHR ''@'' \<notin> set (auth_str b))"
proof -
  let ?enc = "lib_percent_encode (px_uri L) userinfo_set"
  have L: "uri_lib_ok (px_uri L)" and nil: "px_parse_uri L [] = None"
    using assms(1) by (simp_all add: proxy_lib_ok_def)
  have set: "set_userinfo (px_uri L) u n (Some p) = u'" using assms(2-4) by (simp add: set_userinfo_def)
  have u': "u' = u\<lparr>uri_authority := Some a'\<rparr>" using L assms(4) by (auto simp: uri_lib_ok_def)
  have a': "auth_str a' = (?enc n @ '':'' @ ?enc p) @ ''@'' @ host_and_port a"
    using L assms(3) userinfo_text_password [OF L, of a n p] by (auto simp: uri_lib_ok_def)
  let ?ex = "\<lparr>ex_auth = Some (basic_auth (px_base64 L) n (Some p)), ex_misc = None\<rparr>"
  have "parse_env_uri L [] = None" using nil by (simp add: parse_env_uri_def)
  then have "into_matcher L (proxy_basic_auth L (proxy_new (PAll u)) n p) =
      matcher_build L (matcher_builder_default\<lparr>mb_all := px_uri_string L u'\<rparr>) ?ex"
    by (simp add: into_matcher_def proxy_basic_auth_def proxy_new_def set extra_default_def
        matcher_builder_default_def Let_def)
  with assms(10) \<open>parse_env_uri L [] = None\<close> obtain i where
    i: "parse_env_uri L (px_uri_string L u') = Some i" "ic = i\<lparr>ic_extra := ?ex\<rparr>"
    by (auto simp: matcher_intercept_def matcher_build_def matcher_builder_default_def Let_def
        split: option.split_asm if_split_asm)
  note auth = parse_env_uri_auth [OF assms(1,5) _ a' host_and_port_no_at refl assms(6-9) i(1)]
  from auth u' i(2) show ?thesis
    by (auto simp: intercept_basic_auth_def raw_auth_def)
qed

section \<open>Concrete configurations\<close>

fun hex_decode :: "string \<Rightarrow> string" where
  "hex_decode [] = []"
| "hex_decode (c # s) =
     (case (if c = CHR ''%'' \<and> 2 \<le> length s then (digit_of 16 (s ! 0), digit_of 16 (s ! 1)) else (None, None)) of
        (Some x, Some y) \<Rightarrow> char_of (16 * x + y) # hex_decode (drop 2 s)
      | _ \<Rightarrow> c # hex_decode s)"

lemma hex_chars_digit: "n < 16 \<Longrightarrow> digit_of 16 (hex_chars ! n) = Some n"
proof -
  have "list_all (\<lambda>n. digit_of 16 (hex_chars ! n) = Some n) [0..<16]" by code_simp
  then show "n < 16 \<Longrightarrow> digit_of 16 (hex_chars ! n) = Some n" by (simp add: list_all_iff)
qed

lemma hex_decode_byte: "hex_decode (hex_byte c @ t) = c # hex_decode t"
proof -
  let ?n = "of_char c :: nat"
  have "?n div 16 < 16" using nat_of_char_less_256 [of c] by (simp add: less_mult_imp_div_less)
  moreover have "?n mod 16 < 16" by (rule mod_less_divisor) simp
  moreover have "16 * (?n div 16) + ?n mod 16 = ?n" by (rule mult_div_mod_eq)
  ultimately show ?thesis
    by (simp add: hex_byte_def hex_chars_digit numeral_2_eq_2 del: of_char_mod_256)
qed

lemma hex_decode_encode:
  assumes "CHR ''%'' \<notin> set s"
  shows "hex_decode (hex_encode P s) = s"
  using assms
proof (induction s)
  case (Cons c s)
  then show ?case
    using hex_decode_byte [of c "hex_encode P s"] by (cases "P c") (auto simp: hex_encode_def)
qed (simp add: hex_encode_def)

definition sample_proxy_lib :: "unit proxy_lib" where
  "sample_proxy_lib =
     \<lparr>px_uri = sample_lib,
      px_parse_uri = (\<lambda>s. if s = [] then None
        else Some \<lparr>uri_scheme = Some ''socks5'',
          uri_authority = Some \<lparr>auth_str = s, auth_host = s, auth_port = None\<rparr>, uri_pq = Some (''/'', None)\<rparr>),
      px_uri_string = (\<lambda>u. case uri_authority u of Some a \<Rightarrow> auth_str a | None \<Rightarrow> []),
      px_percent_decode = hex_decode, px_base64 = (\<lambda>s. s),
      px_ipnet_parse = (\<lambda>s. if s = ''192.168.1.0/24'' then Some () else None),
      px_ipnet_contains = (\<lambda>_ a. case a of V4 w \<Rightarrow> drop_bit 8 w = 0xC0A801 | V6 _ \<Rightarrow> False)\<rparr>"

lemma sample_proxy_lib_ok: "proxy_lib_ok sample_proxy_lib"
  using sample_lib_ok by (simp add: proxy_lib_ok_def sample_proxy_lib_def sample_lib_simps hex_decode_encode)

theorem no_proxy_rules_spec_witness:
  "no_proxy_contains sample_proxy_lib
     (no_proxy_from_string sample_proxy_lib ''google.com, 192.168.1.0/24'') ''www.Google.com'' \<and>
   \<not> no_proxy_contains sample_proxy_lib
     (no_proxy_from_string sample_proxy_lib ''google.com, 192.168.1.0/24'') ''notgoogle.com''"
proof -
  let ?list = "''google.com, 192.168.1.0/24''"
  have a: "''www.Google.com'' = strip_ipv6_brackets ''www.Google.com''" "ascii ''www.Google.com''"
    "''notgoogle.com'' = strip_ipv6_brackets ''notgoogle.com''" "ascii ''notgoogle.com''"
    "\<not> suffix ''*'' ''www.Google.com''"
    "names_host sample_proxy_lib ?list ''www.Google.com''" "\<not> names_host sample_proxy_lib ?list ''notgoogle.com''"
    by code_simp+
  show ?thesis
    using no_proxy_rules_spec [OF a(1,2), of sample_proxy_lib ?list]
      no_proxy_rules_spec [OF a(3,4), of sample_proxy_lib ?list] a by blast
qed

definition sample_proxy_uri :: uri where
  "sample_proxy_uri =
     \<lparr>uri_scheme = Some ''socks5'',
      uri_authority = Some \<lparr>auth_str = ''h:9'', auth_host = ''h:9'', auth_port = None\<rparr>,
      uri_pq = Some (''/'', None)\<rparr>"

definition sample_intercept :: "string \<Rightarrow> string \<Rightarrow> intercepted option" where
  "sample_intercept n p =
     matcher_intercept sample_proxy_lib
       (into_matcher sample_proxy_lib (proxy_basic_auth sample_proxy_lib (proxy_new (PAll sample_proxy_uri)) n p))
       \<lparr>uri_scheme = Some ''http'',
        uri_authority = Some \<lparr>auth_str = ''d'', auth_host = ''d'', auth_port = None\<rparr>, uri_pq = None\<rparr>"

theorem proxy_auth_roundtrip_witness:
  "\<exists>ic. sample_intercept ''us:er'' ''p@ss'' = Some (Proxied ic) \<and> raw_auth ic = Some (''us:er'', ''p@ss'')"
proof -
  have "case sample_intercept ''us:er'' ''p@ss'' of Some (Proxied _) \<Rightarrow> True | _ \<Rightarrow> False" by code_simp
  then obtain ic where ic: "sample_intercept ''us:er'' ''p@ss'' = Some (Proxied ic)"
    by (auto split: option.split_asm intercepted.split_asm)
  have h: "uri_authority sample_proxy_uri = Some \<lparr>auth_str = ''h:9'', auth_host = ''h:9'', auth_port = None\<rparr>"
    "uri_scheme sample_proxy_uri \<in> Some ` set socks_schemes"
    by (simp_all add: sample_proxy_uri_def socks_schemes_def)
  define a' where "a' = (let t = userinfo_text sample_lib
      \<lparr>auth_str = ''h:9'', auth_host = ''h:9'', auth_port = None\<rparr> ''us:er'' (Some ''p@ss'')
    in \<lparr>auth_str = t, auth_host = t, auth_port = (None :: 16 word option)\<rparr>)"
  have u: "px_uri sample_proxy_lib = sample_lib" by (simp add: sample_proxy_lib_def)
  have p1: "lib_parse_authority (px_uri sample_proxy_lib)
      (userinfo_text (px_uri sample_proxy_lib) \<lparr>auth_str = ''h:9'', auth_host = ''h:9'', auth_port = None\<rparr>
        ''us:er'' (Some ''p@ss'')) = Some a'"
    by (simp add: u sample_lib_simps a'_def Let_def)
  have p2: "lib_from_parts (px_uri sample_proxy_lib) (sample_proxy_uri\<lparr>uri_authority := Some a'\<rparr>) =
      Some (sample_proxy_uri\<lparr>uri_authority := Some a'\<rparr>)"
    by (simp add: u sample_lib_simps)
  have "auth_str a' \<noteq> []" by (simp add: a'_def Let_def userinfo_text_def)
  then have p3: "px_parse_uri sample_proxy_lib (px_uri_string sample_proxy_lib (sample_proxy_uri\<lparr>uri_authority := Some a'\<rparr>)) =
      Some (sample_proxy_uri\<lparr>uri_authority := Some a'\<rparr>)"
    by (simp add: sample_proxy_lib_def sample_proxy_uri_def a'_def Let_def)
  have v: "CHR ''%'' \<notin> set ''us:er''" "utf8_valid ''us:er''" "CHR ''%'' \<notin> set ''p@ss''" "utf8_valid ''p@ss''"
    by code_simp+
  from proxy_auth_roundtrip [OF sample_proxy_lib_ok h(1) p1 p2 p3 v ic [unfolded sample_intercept_def]] h(2) ic
  show ?thesis by blast
qed

text \<open>The percent sign is not encoded in the user information but decoded when it is read: a SOCKS user
  name that contains an escape sequence is changed.\<close>

theorem percent_sign_decoded:
  "case sample_intercept ''a%41'' ''p'' of Some (Proxied ic) \<Rightarrow> raw_auth ic = Some (''aA'', ''p'') | _ \<Rightarrow> False"
  by code_simp

text \<open>The wildcard does not exclude a name that ends with an asterisk.\<close>

theorem wildcard_misses_asterisk: "\<not> domain_matcher_contains [''*''] ''foo*''"
  by code_simp

text \<open>An exclusion list configured on a Unix socket proxy has no effect.\<close>

theorem unix_ignores_exclusions:
  "matcher_intercept L (into_matcher L (proxy_no_proxy (proxy_new (PUnix path)) np)) dst = Some (UnixSocket path)"
  by (simp add: matcher_intercept_def into_matcher_def proxy_no_proxy_def proxy_new_def matcher_build_def
      matcher_builder_default_def Let_def)

end
