(* ===== verification/Conn_Model.thy ===== *)
theory Conn_Model
  imports Proxy_Matcher
begin

text \<open>
  What a connection is and which requests may share it: socket binding options (\<^verbatim>\<open>conn/net.rs\<close>), request groups
  (\<^verbatim>\<open>group.rs\<close>), connection descriptors and their pool key (\<^verbatim>\<open>conn/descriptor.rs\<close>) and the metadata of an
  established connection (\<^verbatim>\<open>conn.rs\<close>).  Shown: two descriptors have the same key exactly when their group, URI,
  version, proxy and binding agree.
\<close>

section \<open>Socket binding\<close>

record socket_bind =
  sb_interface :: "string option"
  sb_ipv4 :: "32 word option"
  sb_ipv6 :: "128 word option"

definition socket_bind_default :: socket_bind where
  "socket_bind_default = \<lparr>sb_interface = None, sb_ipv4 = None, sb_ipv6 = None\<rparr>"

definition set_interface :: "string \<Rightarrow> socket_bind \<Rightarrow> socket_bind" where
  "set_interface i sb = sb\<lparr>sb_interface := Some i\<rparr>"

definition set_local_address :: "ip_addr option \<Rightarrow> socket_bind \<Rightarrow> socket_bind" where
  "set_local_address a sb =
     (case a of
        Some (V4 x) \<Rightarrow> sb\<lparr>sb_ipv4 := Some x\<rparr>
      | Some (V6 x) \<Rightarrow> sb\<lparr>sb_ipv6 := Some x\<rparr>
      | None \<Rightarrow> sb)"

definition set_local_addresses :: "32 word option \<Rightarrow> 128 word option \<Rightarrow> socket_bind \<Rightarrow> socket_bind" where
  "set_local_addresses a4 a6 sb =
     (let sb1 = (case a4 of Some x \<Rightarrow> sb\<lparr>sb_ipv4 := Some x\<rparr> | None \<Rightarrow> sb)
      in (case a6 of Some x \<Rightarrow> sb1\<lparr>sb_ipv6 := Some x\<rparr> | None \<Rightarrow> sb1))"

section \<open>Ordered maps\<close>

text \<open>\<^verbatim>\<open>std::collections::BTreeMap\<close>: an association list in strictly increasing key order, so that equal
  maps are equal lists.\<close>

fun btree_insert :: "'k :: linorder \<Rightarrow> 'v \<Rightarrow> ('k \<times> 'v) list \<Rightarrow> ('k \<times> 'v) list" where
  "btree_insert k v [] = [(k, v)]"
| "btree_insert k v ((k', v') # m) =
     (if k < k' then (k, v) # (k', v') # m
      else if k = k' then (k, v) # m
      else (k', v') # btree_insert k v m)"

definition btree_wf :: "('k :: linorder \<times> 'v) list \<Rightarrow> bool" where
  "btree_wf m \<longleftrightarrow> sorted (map fst m) \<and> distinct (map fst m)"

lemma btree_insert_keys: "fst ` set (btree_insert k v m) = insert k (fst ` set m)"
  by (induction k v m rule: btree_insert.induct) auto

lemma btree_insert_lookup: "map_of (btree_insert k v m) = (map_of m)(k \<mapsto> v)"
  by (induction k v m rule: btree_insert.induct) (auto simp: fun_eq_iff)

lemma btree_insert_wf: "btree_wf m \<Longrightarrow> btree_wf (btree_insert k v m)"
proof (induction k v m rule: btree_insert.induct)
  case (2 k v k' v' m)
  have "set (map fst (btree_insert k v m)) = insert k (fst ` set m)" by (simp add: btree_insert_keys)
  with 2 show ?case
    by (cases "k < k'"; cases "k = k'") (auto simp: btree_wf_def image_iff)
qed (simp add: btree_wf_def)

text \<open>A map is determined by its lookups, so the order of insertions of different keys is irrelevant.\<close>

lemma btree_ext:
  assumes "btree_wf m" "btree_wf m'" "map_of m = map_of m'"
  shows "m = m'"
proof -
  have d: "distinct (map fst m)" "distinct (map fst m')" and s: "sorted (map fst m)" "sorted (map fst m')"
    using assms(1,2) by (auto simp: btree_wf_def)
  have "fst ` set m = fst ` set m'" using assms(3) by (metis dom_map_of_conv_image_fst)
  then have keys: "map fst m = map fst m'" using d s by (metis list.set_map sorted_distinct_set_unique)
  show ?thesis
  proof (rule nth_equalityI)
    show len: "length m = length m'" using keys by (metis length_map)
    fix i
    assume i: "i < length m"
    have "map_of m (fst (m ! i)) = Some (snd (m ! i))"
      using d(1) i by (metis map_of_eq_Some_iff nth_mem prod.collapse)
    moreover have "fst (m' ! i) = fst (m ! i)" using keys i len by (metis nth_map)
    moreover have "map_of m' (fst (m' ! i)) = Some (snd (m' ! i))"
      using d(2) i len by (metis map_of_eq_Some_iff nth_mem prod.collapse)
    ultimately show "m ! i = m' ! i" using assms(3) by (simp add: prod_eq_iff)
  qed
qed

section \<open>Groups\<close>

datatype group_key = KRequest | KEmulate | KNamed | KUri | KVersion | KProxy | KSocketBind

text \<open>The derived order is the order of the constructors.\<close>

primrec group_key_index :: "group_key \<Rightarrow> nat" where
  "group_key_index KRequest = 0"
| "group_key_index KEmulate = 1"
| "group_key_index KNamed = 2"
| "group_key_index KUri = 3"
| "group_key_index KVersion = 4"
| "group_key_index KProxy = 5"
| "group_key_index KSocketBind = 6"

lemma group_key_index_inj: "group_key_index a = group_key_index b \<longleftrightarrow> a = b"
  by (cases a; cases b) simp_all

instantiation group_key :: linorder
begin

definition less_eq_group_key :: "group_key \<Rightarrow> group_key \<Rightarrow> bool" where
  "less_eq_group_key a b \<longleftrightarrow> group_key_index a \<le> group_key_index b"

definition less_group_key :: "group_key \<Rightarrow> group_key \<Rightarrow> bool" where
  "less_group_key a b \<longleftrightarrow> group_key_index a < group_key_index b"

instance
  by standard (auto simp: less_eq_group_key_def less_group_key_def group_key_index_inj)

end

datatype group_id = Borrowed string | Owned string | Number "64 word"

text \<open>Groups compare their URI and proxy by the equality of \<^verbatim>\<open>http::Uri\<close> and \<^verbatim>\<open>Matcher\<close>, which ignores the case
  of scheme and host: \<open>'u\<close> and \<open>'m\<close> stand for the values up to that equality.\<close>

datatype ('u, 'm) group = Group "(group_key \<times> ('u, 'm) group_variant) list"
and ('u, 'm) group_variant =
    GRequest "('u, 'm) group"
  | GEmulate "('u, 'm) group"
  | GNamed group_id
  | GUri 'u
  | GVersion version
  | GProxy 'm
  | GSocketBind "socket_bind option"

primrec group_map :: "('u, 'm) group \<Rightarrow> (group_key \<times> ('u, 'm) group_variant) list" where
  "group_map (Group m) = m"

definition group_default :: "('u, 'm) group" where
  "group_default = Group []"

definition group_new :: "group_id \<Rightarrow> ('u, 'm) group" where
  "group_new name = Group [(KNamed, GNamed name)]"

definition group_extend ::
  "group_key \<Rightarrow> ('u, 'm) group_variant option \<Rightarrow> ('u, 'm) group \<Rightarrow> ('u, 'm) group"
where
  "group_extend k entry g =
     (case entry of Some e \<Rightarrow> Group (btree_insert k e (group_map g)) | None \<Rightarrow> g)"

definition group_uri :: "'u \<Rightarrow> ('u, 'm) group \<Rightarrow> ('u, 'm) group" where
  "group_uri u = group_extend KUri (Some (GUri u))"

definition group_version :: "version option \<Rightarrow> ('u, 'm) group \<Rightarrow> ('u, 'm) group" where
  "group_version v = group_extend KVersion (map_option GVersion v)"

definition group_proxy :: "'m option \<Rightarrow> ('u, 'm) group \<Rightarrow> ('u, 'm) group" where
  "group_proxy p = group_extend KProxy (map_option GProxy p)"

definition group_socket_bind :: "socket_bind option \<Rightarrow> ('u, 'm) group \<Rightarrow> ('u, 'm) group" where
  "group_socket_bind sb = group_extend KSocketBind (Some (GSocketBind sb))"

definition group_request :: "('u, 'm) group \<Rightarrow> ('u, 'm) group \<Rightarrow> ('u, 'm) group" where
  "group_request inner = group_extend KRequest (Some (GRequest inner))"

definition group_emulate :: "('u, 'm) group \<Rightarrow> ('u, 'm) group \<Rightarrow> ('u, 'm) group" where
  "group_emulate inner = group_extend KEmulate (Some (GEmulate inner))"

text \<open>The groups a caller can build: a name, and the nested groups of a request and of an emulation.\<close>

inductive caller_group :: "('u, 'm) group \<Rightarrow> bool" where
  caller_default: "caller_group group_default"
| caller_new: "caller_group (group_new name)"
| caller_request: "caller_group g \<Longrightarrow> caller_group inner \<Longrightarrow> caller_group (group_request inner g)"
| caller_emulate: "caller_group g \<Longrightarrow> caller_group inner \<Longrightarrow> caller_group (group_emulate inner g)"

lemma caller_group_shape:
  assumes "caller_group g"
  shows "btree_wf (group_map g) \<and> fst ` set (group_map g) \<subseteq> {KRequest, KEmulate, KNamed}"
  using assms
proof induction
  case caller_default
  then show ?case by (simp add: group_default_def btree_wf_def)
next
  case (caller_new name)
  then show ?case by (simp add: group_new_def btree_wf_def)
qed (auto simp: group_request_def group_emulate_def group_extend_def btree_insert_wf btree_insert_keys)

section \<open>Descriptors\<close>

text \<open>The TLS options are opaque here.  The hash cached beside the group is not part of the equality.\<close>

record ('u, 'm, 'n, 't) descriptor =
  cd_uri :: uri
  cd_version :: "version option"
  cd_proxy :: "'n matcher option"
  cd_tls :: "'t option"
  cd_bind :: "socket_bind option"
  cd_id :: "('u, 'm) group"

definition descriptor_new ::
  "(uri \<Rightarrow> 'u) \<Rightarrow> ('n matcher \<Rightarrow> 'm) \<Rightarrow> uri \<Rightarrow> ('u, 'm) group \<Rightarrow> 'n matcher option \<Rightarrow> version option \<Rightarrow>
   't option \<Rightarrow> socket_bind option \<Rightarrow> ('u, 'm, 'n, 't) descriptor"
where
  "descriptor_new uk mk u g p v t sb =
     \<lparr>cd_uri = u, cd_version = v, cd_proxy = p, cd_tls = t, cd_bind = sb,
      cd_id = group_socket_bind sb (group_proxy (map_option mk p) (group_version v (group_uri (uk u) g)))\<rparr>"

text \<open>\<^verbatim>\<open>Hash for ConnectionId\<close>: the cached hash if there is one, otherwise the hash of the group, never zero,
  which is cached unless another thread was faster.  The new content of the cache is the second result;
  \<open>seen\<close> is its content when the exchange is made.\<close>

definition id_hash :: "(('u, 'm) group \<Rightarrow> 64 word) \<Rightarrow> ('u, 'm) group \<Rightarrow> 64 word \<Rightarrow> 64 word \<Rightarrow> 64 word \<times> 64 word" where
  "id_hash h g cached seen =
     (if cached \<noteq> 0 then (cached, seen)
      else (let computed = (if h g = 0 then 1 else h g)
            in (computed, if seen = 0 then computed else seen)))"

text \<open>Equal keys have equal hashes whatever has been cached before, as long as the cache holds what this
  function puts there.\<close>

lemma id_hash_stable:
  assumes "cached \<in> {0, fst (id_hash h g 0 0)}" "seen \<in> {cached, fst (id_hash h g 0 0)}"
  shows "fst (id_hash h g cached seen) = fst (id_hash h g 0 0) \<and>
         snd (id_hash h g cached seen) = fst (id_hash h g 0 0)"
  using assms by (auto simp: id_hash_def Let_def)

lemma descriptor_id_lookup:
  assumes "btree_wf (group_map g)"
  shows "map_of (group_map (cd_id (descriptor_new uk mk u g p v t sb))) =
    (let m1 = (map_of (group_map g))(KUri \<mapsto> GUri (uk u));
         m2 = (case v of Some x \<Rightarrow> m1(KVersion \<mapsto> GVersion x) | None \<Rightarrow> m1);
         m3 = (case p of Some x \<Rightarrow> m2(KProxy \<mapsto> GProxy (mk x)) | None \<Rightarrow> m2)
     in m3(KSocketBind \<mapsto> GSocketBind sb))"
    and "btree_wf (group_map (cd_id (descriptor_new uk mk u g p v t sb)))"
  using assms
  by (auto simp: descriptor_new_def group_uri_def group_version_def group_proxy_def group_socket_bind_def
      group_extend_def btree_insert_lookup btree_insert_wf Let_def split: option.split)

lemma map_of_outside: "k \<notin> fst ` set m \<Longrightarrow> map_of m k = None"
  by (simp add: map_of_eq_None_iff)

lemma group_eq_iff: "g = g' \<longleftrightarrow> group_map g = group_map g'"
  by (cases g; cases g') simp

text \<open>C15: pool keys separate connections.  For groups a caller can build, two descriptors have the same pool
  key exactly when they agree on the group, the URI, the HTTP version, the proxy and the socket binding; so a
  pooled connection is never shared between requests that differ in one of them.\<close>

theorem connection_id_separates:
  assumes "caller_group g" and "caller_group g'"
  shows "cd_id (descriptor_new uk mk u g p v t sb) = cd_id (descriptor_new uk mk u' g' p' v' t' sb') \<longleftrightarrow>
         g = g' \<and> uk u = uk u' \<and> map_option mk p = map_option mk p' \<and> v = v' \<and> sb = sb'"
    (is "?l = ?r")
proof
  let ?a = "cd_id (descriptor_new uk mk u g p v t sb)" and ?b = "cd_id (descriptor_new uk mk u' g' p' v' t' sb')"
  note shape = caller_group_shape [OF assms(1)] caller_group_shape [OF assms(2)]
  have out: "map_of (group_map g) k = None" "map_of (group_map g') k = None"
    if "k \<in> {KUri, KVersion, KProxy, KSocketBind}" for k
    using that shape by (auto intro!: map_of_outside)
  have a: "map_of (group_map ?a) k =
      (case k of KUri \<Rightarrow> Some (GUri (uk u)) | KVersion \<Rightarrow> map_option GVersion v
       | KProxy \<Rightarrow> map_option (GProxy \<circ> mk) p | KSocketBind \<Rightarrow> Some (GSocketBind sb)
       | _ \<Rightarrow> map_of (group_map g) k)" for k
    using shape(1) out(1) by (auto simp: descriptor_id_lookup(1) Let_def split: option.split group_key.split)
  have b: "map_of (group_map ?b) k =
      (case k of KUri \<Rightarrow> Some (GUri (uk u')) | KVersion \<Rightarrow> map_option GVersion v'
       | KProxy \<Rightarrow> map_option (GProxy \<circ> mk) p' | KSocketBind \<Rightarrow> Some (GSocketBind sb')
       | _ \<Rightarrow> map_of (group_map g') k)" for k
    using shape(2) out(2) by (auto simp: descriptor_id_lookup(1) Let_def split: option.split group_key.split)
  {
    assume ?l
    then have eq: "map_of (group_map ?a) k = map_of (group_map ?b) k" for k by simp
    have "map_of (group_map g) k = map_of (group_map g') k" for k
      using eq [of k] out [of k] unfolding a b by (cases k) simp_all
    then have "g = g'" using shape btree_ext [of "group_map g" "group_map g'"] by (auto simp: group_eq_iff)
    moreover have "uk u = uk u'" using eq [of KUri] unfolding a b by simp
    moreover have "map_option mk p = map_option mk p'"
      using eq [of KProxy] unfolding a b by (cases p; cases p') auto
    moreover have "v = v'" using eq [of KVersion] unfolding a b by (cases v; cases v') auto
    moreover have "sb = sb'" using eq [of KSocketBind] unfolding a b by simp
    ultimately show ?r by simp
  }
  assume ?r
  then show ?l by (simp add: descriptor_new_def)
qed

theorem connection_id_separates_witness:
  "cd_id (descriptor_new id id sample_proxy_uri (group_new (Number 1)) (None :: unit matcher option) None (Some ''tls'') None) \<noteq>
   cd_id (descriptor_new id id sample_proxy_uri (group_new (Number 1)) None (Some HTTP_2) None None)"
  by (simp only: connection_id_separates [OF caller_new caller_new]) simp

text \<open>Descriptors that differ in their TLS options only share a key.\<close>

theorem tls_options_not_in_key:
  "cd_id (descriptor_new uk mk u g p v t sb) = cd_id (descriptor_new uk mk u g p v t' sb)"
  by (simp add: descriptor_new_def)

text \<open>A name given as a literal and the same name given as an owned string are different groups.\<close>

theorem literal_name_differs: "group_new (Borrowed s) \<noteq> group_new (Owned s)"
  by (simp add: group_new_def)

section \<open>Established connections\<close>

text \<open>The metadata \<^verbatim>\<open>Connected\<close>.  The poison pill is a shared flag, named by a number and read in \<open>flags\<close>;
  an extra value carries the number of its type, as \<^verbatim>\<open>http::Extensions\<close> keeps one value per type.\<close>

record 'x conn_info =
  ci_h2 :: bool
  ci_is_proxied :: bool
  ci_auth :: "header_value option"
  ci_headers :: "header_map option"
  ci_extra :: "(nat \<times> 'x) list"
  ci_pill :: nat

definition conn_info_new :: "nat \<Rightarrow> 'x conn_info" where
  "conn_info_new pill =
     \<lparr>ci_h2 = False, ci_is_proxied = False, ci_auth = None, ci_headers = None, ci_extra = [], ci_pill = pill\<rparr>"

definition ci_add_extra :: "nat \<times> 'x \<Rightarrow> 'x conn_info \<Rightarrow> 'x conn_info" where
  "ci_add_extra x ci = ci\<lparr>ci_extra := ci_extra ci @ [x]\<rparr>"

definition ci_set_extras :: "'x conn_info \<Rightarrow> (nat, 'x) hash_map \<Rightarrow> (nat, 'x) hash_map" where
  "ci_set_extras ci ext = fold (\<lambda>(t, x). hm_insert t x) (ci_extra ci) ext"

definition ci_proxy :: "intercept \<Rightarrow> 'x conn_info \<Rightarrow> 'x conn_info" where
  "ci_proxy ic ci =
     (let ci1 = ci\<lparr>ci_is_proxied := True\<rparr>;
          ci2 = (case intercept_basic_auth ic of Some a \<Rightarrow> ci1\<lparr>ci_auth := Some a\<rparr> | None \<Rightarrow> ci1)
      in (case custom_headers ic of Some h \<Rightarrow> ci2\<lparr>ci_headers := Some h\<rparr> | None \<Rightarrow> ci2))"

definition ci_negotiated_h2 :: "'x conn_info \<Rightarrow> 'x conn_info" where
  "ci_negotiated_h2 ci = ci\<lparr>ci_h2 := True\<rparr>"

definition ci_poisoned :: "(nat \<Rightarrow> bool) \<Rightarrow> 'x conn_info \<Rightarrow> bool" where
  "ci_poisoned flags ci = flags (ci_pill ci)"

definition ci_poison :: "'x conn_info \<Rightarrow> (nat \<Rightarrow> bool) \<Rightarrow> (nat \<Rightarrow> bool)" where
  "ci_poison ci flags = flags(ci_pill ci := True)"

text \<open>\<^verbatim>\<open>TlsConn::connected\<close> and \<^verbatim>\<open>Conn::connected\<close>, on the metadata of the stream below, the protocol that ALPN
  selected and the TLS information the stream can give.\<close>

definition tls_conn_connected :: "string option \<Rightarrow> 'x conn_info \<Rightarrow> 'x conn_info" where
  "tls_conn_connected alpn ci = (if alpn = Some ''h2'' then ci_negotiated_h2 ci else ci)"

definition conn_connected ::
  "bool \<Rightarrow> intercept option \<Rightarrow> (nat \<times> 'x) option \<Rightarrow> 'x conn_info \<Rightarrow> 'x conn_info"
where
  "conn_connected tls_info proxy info ci =
     (let ci1 = (case proxy of Some ic \<Rightarrow> ci_proxy ic ci | None \<Rightarrow> ci)
      in if tls_info then (case info of Some x \<Rightarrow> ci_add_extra x ci1 | None \<Rightarrow> ci1) else ci1)"

section \<open>Request options\<close>

record ('u, 'm, 'n, 't, 'h1, 'h2) request_options =
  ro_group :: "('u, 'm) group"
  ro_proxy :: "'n matcher option"
  ro_version :: "version option"
  ro_tls :: "'t option"
  ro_http1 :: "'h1 option"
  ro_http2 :: "'h2 option"
  ro_bind :: "socket_bind option"

definition request_options_default :: "('u, 'm, 'n, 't, 'h1, 'h2) request_options" where
  "request_options_default =
     \<lparr>ro_group = group_default, ro_proxy = None, ro_version = None, ro_tls = None, ro_http1 = None,
      ro_http2 = None, ro_bind = None\<rparr>"

end
