(* ===== verification/Http_Client.thy ===== *)
theory Http_Client
  imports Cookie_Jar Pool Conn_Model
begin

text \<open>
  The innermost service, \<^verbatim>\<open>HttpClient\<close> of \<^verbatim>\<open>client/layer/client.rs\<close>, with the features \<^verbatim>\<open>http2\<close> and \<^verbatim>\<open>cookies\<close>: it accepts
  a request, writes its head for the connection it got, attaches and stores cookies, sends the request again
  when a reused connection hands it back, and returns the connection to the pool.  The asynchronous functions
  are functions of the answers the world gives them; bodies travel with their requests and are not
  represented.  Shown: the head fits the connection, a request is resent only if it was not sent, and the
  cookies sent fit the URI.
\<close>

section \<open>Request targets\<close>

text \<open>The URI type and the validation of header values belong to the crate \<^verbatim>\<open>http\<close>.  \<open>None\<close> is a panic of
  the code (\<^verbatim>\<open>expect\<close>, \<^verbatim>\<open>unreachable!\<close>).\<close>

record client_lib =
  cl_uri :: uri_lib
  cl_hv_str :: "string \<Rightarrow> header_value option"
  cl_hv_shared :: "string \<Rightarrow> header_value option"

definition uri_default :: uri where
  "uri_default = \<lparr>uri_scheme = None, uri_authority = None, uri_pq = Some (''/'', None)\<rparr>"

definition origin_form :: "client_lib \<Rightarrow> uri \<Rightarrow> uri option" where
  "origin_form L u =
     (case uri_pq u of
        Some pq \<Rightarrow>
          if pq \<noteq> (''/'', None)
          then lib_from_parts (cl_uri L) \<lparr>uri_scheme = None, uri_authority = None, uri_pq = Some pq\<rparr>
          else Some uri_default
      | None \<Rightarrow> Some uri_default)"

text \<open>Only debug assertions.\<close>

definition absolute_form :: "uri \<Rightarrow> uri" where
  "absolute_form u = u"

definition authority_form :: "client_lib \<Rightarrow> uri \<Rightarrow> uri option" where
  "authority_form L u =
     (case uri_authority u of
        Some a \<Rightarrow> lib_from_parts (cl_uri L) \<lparr>uri_scheme = None, uri_authority = Some a, uri_pq = None\<rparr>
      | None \<Rightarrow> None)"

definition build_base_uri :: "client_lib \<Rightarrow> string \<Rightarrow> authority \<Rightarrow> uri option" where
  "build_base_uri L s a =
     lib_from_parts (cl_uri L) \<lparr>uri_scheme = Some s, uri_authority = Some a, uri_pq = Some (''/'', None)\<rparr>"

definition set_scheme :: "client_lib \<Rightarrow> uri \<Rightarrow> string \<Rightarrow> uri option" where
  "set_scheme L u s = lib_from_parts (cl_uri L) (u\<lparr>uri_scheme := Some s, uri_pq := Some (''/'', None)\<rparr>)"

text \<open>The base URI of the connection and the URI of the request afterwards.\<close>

definition normalize_uri :: "client_lib \<Rightarrow> uri \<Rightarrow> bool \<Rightarrow> ((error, uri) result \<times> uri) option" where
  "normalize_uri L u for_connect =
     (case (uri_scheme u, uri_authority u) of
        (Some s, Some a) \<Rightarrow> map_option (\<lambda>b. (Inr b, u)) (build_base_uri L s a)
      | (None, Some a) \<Rightarrow>
          if for_connect then
            (let s = (if auth_port a = Some 443 then ''https'' else ''http'')
             in Option.bind (set_scheme L u s) (\<lambda>u'. map_option (\<lambda>b. (Inr b, u')) (build_base_uri L s a)))
          else Some (Inl (ClientError UserAbsoluteUriRequired None), u)
      | _ \<Rightarrow> Some (Inl (ClientError UserAbsoluteUriRequired None), u))"

definition is_schema_secure :: "uri \<Rightarrow> bool" where
  "is_schema_secure u = (case uri_scheme u of Some s \<Rightarrow> s = ''wss'' \<or> s = ''https'' | None \<Rightarrow> False)"

definition generate_host_header :: "client_lib \<Rightarrow> uri \<Rightarrow> header_value option" where
  "generate_host_header L u =
     (case uri_host u of
        None \<Rightarrow> None
      | Some hostname \<Rightarrow>
          (let port = (case (uri_port u, is_schema_secure u) of
                         (Some p, secure) \<Rightarrow>
                           if p = 443 \<and> secure \<or> p = 80 \<and> \<not> secure then None else Some p
                       | (None, _) \<Rightarrow> None)
           in case port of
                Some p \<Rightarrow> cl_hv_shared L (hostname @ '':'' @ nat_decimal (unat p))
              | None \<Rightarrow> cl_hv_str L hostname))"

section \<open>Accepting a request\<close>

record client_config =
  hc_retry_canceled :: bool
  hc_set_host :: bool
  hc_ver :: ver

text \<open>\<^verbatim>\<open>HttpClient::request\<close>: the request as it will be sent, the descriptor of its connection and the protocol
  builders with the options of this request.  \<open>opt1\<close> and \<open>opt2\<close> are \<^verbatim>\<open>Builder::options\<close> of the two protocol
  builders, \<open>uk\<close> and \<open>mk\<close> the equalities of \<^verbatim>\<open>Uri\<close> and \<^verbatim>\<open>Matcher\<close>.\<close>

definition http_request ::
  "client_lib \<Rightarrow> (uri \<Rightarrow> 'u) \<Rightarrow> ('n matcher \<Rightarrow> 'm) \<Rightarrow> ('h1 \<Rightarrow> 'b1 \<Rightarrow> 'b1) \<Rightarrow> ('h2 \<Rightarrow> 'b2 \<Rightarrow> 'b2) \<Rightarrow> 'b1 \<Rightarrow> 'b2 \<Rightarrow>
   ('p, ('u, 'm, 'n, 't, 'h1, 'h2) request_options) request \<Rightarrow>
   (error, ('p, ('u, 'm, 'n, 't, 'h1, 'h2) request_options) request \<times>
           ('u, 'm, 'n, 't) descriptor \<times> 'b1 \<times> 'b2) result option"
where
  "http_request L uk mk opt1 opt2 b1 b2 req =
     (let for_connect = (rq_method req = ''CONNECT'')
      in if rq_version req = HTTP_10 \<and> for_connect then
           Some (Inl (ClientError UserUnsupportedRequestMethod None))
         else if rq_version req \<notin> {HTTP_10, HTTP_11, HTTP_2} then
           Some (Inl (ClientError UserUnsupportedVersion None))
         else Option.bind (normalize_uri L (rq_uri req) for_connect) (\<lambda>(r, u').
           case r of
             Inl e \<Rightarrow> Some (Inl (ClientError UserAbsoluteUriRequired (Some e)))
           | Inr base \<Rightarrow>
               (let (o1, slot) = rc_remove (ext_options (rq_ext req));
                    ro = (case o1 of Some x \<Rightarrow> x | None \<Rightarrow> request_options_default);
                    req' = req\<lparr>rq_uri := u', rq_ext := (rq_ext req)\<lparr>ext_options := slot\<rparr>\<rparr>;
                    c1 = (case ro_http1 ro of Some x \<Rightarrow> opt1 x b1 | None \<Rightarrow> b1);
                    c2 = (case ro_http2 ro of Some x \<Rightarrow> opt2 x b2 | None \<Rightarrow> b2)
                in Some (Inr (req',
                     descriptor_new uk mk base (ro_group ro) (ro_proxy ro) (ro_version ro) (ro_tls ro) (ro_bind ro),
                     c1, c2)))))"

section \<open>One attempt\<close>

definition set_host_header :: "client_lib \<Rightarrow> bool \<Rightarrow> uri \<Rightarrow> header_map \<Rightarrow> header_map option" where
  "set_host_header L set_host u h =
     (if set_host \<and> \<not> hdr_contains h ''host''
      then map_option (\<lambda>v. hdr_insert ''host'' v h) (generate_host_header L u)
      else Some h)"

definition add_proxy_headers :: "'x conn_info \<Rightarrow> header_map \<Rightarrow> header_map option" where
  "add_proxy_headers ci h =
     (let h1 = (case ci_auth ci of Some a \<Rightarrow> or_insert ''proxy-authorization'' a h | None \<Rightarrow> h)
      in (case ci_headers ci of Some hs \<Rightarrow> replace_headers h1 hs | None \<Rightarrow> Some h1))"

text \<open>The first half of \<^verbatim>\<open>try_send_request\<close>: the head of the request for the connection it got.\<close>

definition write_head ::
  "client_lib \<Rightarrow> client_config \<Rightarrow> 'x conn_info pool_client \<Rightarrow> ('p, 'o) request \<Rightarrow>
   (error, ('p, 'o) request) result option"
where
  "write_head L cfg pc req =
     (let u = rq_uri req
      in if client_is_http1 pc then
           if rq_version req = HTTP_2 then Some (Inl (ClientError UserUnsupportedVersion None))
           else Option.bind (set_host_header L (hc_set_host cfg) u (rq_headers req)) (\<lambda>h.
             if rq_method req = ''CONNECT'' then
               map_option (\<lambda>u'. Inr (req\<lparr>rq_headers := h, rq_uri := u'\<rparr>)) (authority_form L u)
             else if ci_is_proxied (pc_info pc) then
               map_option (\<lambda>h'. Inr (req\<lparr>rq_headers := h', rq_uri := absolute_form u\<rparr>))
                 (add_proxy_headers (pc_info pc) h)
             else map_option (\<lambda>u'. Inr (req\<lparr>rq_headers := h, rq_uri := u'\<rparr>)) (origin_form L u))
         else if rq_method req = ''CONNECT'' \<and> \<not> client_is_http2 pc then
           map_option (\<lambda>u'. Inr (req\<lparr>rq_uri := u'\<rparr>)) (authority_form L u)
         else Some (Inr req))"

definition attach_cookies :: "cookies \<Rightarrow> header_map \<Rightarrow> header_map" where
  "attach_cookies ck h =
     (case ck of
        Compressed v \<Rightarrow> hdr_insert ''cookie'' \<lparr>hv_bytes = v, hv_sensitive = False\<rparr> h
      | Uncompressed vs \<Rightarrow>
          fold (\<lambda>v. hdr_append ''cookie'' \<lparr>hv_bytes = v, hv_sensitive = False\<rparr>) vs h
      | Empty \<Rightarrow> h)"

text \<open>What the world answers during one attempt: the outcome of \<^verbatim>\<open>connection_for\<close>, the cookie stores as they
  are read, the reply of the connection to the request (a response, the request handed back unsent, or an
  error), and whether the connection is ready again afterwards.\<close>

datatype ('p, 'o) send_reply =
    Answered response
  | Unsent "('p, 'o) request" error
  | SendFailed error

record ('k, 'x, 'p, 'o) send_attempt =
  at_conn :: "(error, ('k, 'x conn_info pool_client) pooled) result"
  at_cookies :: "nat \<Rightarrow> uri \<Rightarrow> version \<Rightarrow> cookies"
  at_reply :: "('p, 'o) request \<Rightarrow> ('p, 'o) send_reply"
  at_ready :: bool

text \<open>What the client does: requests given to a connection, calls of a cookie store, and the connection dropped,
  which puts it back, at once (on every error path too) or when it is ready again.\<close>

datatype ('p, 'o) client_event =
    Transmit "('p, 'o) request"
  | StoreCookies nat "header_value list" uri
  | ReleaseNow
  | ReleaseWhenReady

datatype ('p, 'o) try_send_error =
    Retryable error "('p, 'o) request" bool
  | Nope error

record 'x client_response =
  cr_response :: response
  cr_extras :: "(nat, 'x) hash_map"
  cr_info :: "'x conn_info"

definition add_cookies ::
  "(nat \<Rightarrow> uri \<Rightarrow> version \<Rightarrow> cookies) \<Rightarrow> nat option \<Rightarrow> uri \<Rightarrow> 'x conn_info pool_client \<Rightarrow>
   header_map \<Rightarrow> header_map"
where
  "add_cookies ask store u pc h =
     (case store of
        None \<Rightarrow> h
      | Some cs \<Rightarrow>
          if hdr_contains h ''cookie'' then h
          else attach_cookies (ask cs u (if client_is_http2 pc then HTTP_2 else HTTP_11)) h)"

definition try_send_request ::
  "client_lib \<Rightarrow> client_config \<Rightarrow> nat request_config \<Rightarrow> ('k, 'x, 'p, 'o) send_attempt \<Rightarrow> ('p, 'o) request \<Rightarrow>
   (('p, 'o) client_event list \<times> (('p, 'o) try_send_error, 'x client_response) result) option"
where
  "try_send_request L cfg cookie_store at req =
     (case at_conn at of
        Inl e \<Rightarrow> Some ([], Inl (Nope e))
      | Inr pooled \<Rightarrow>
          (let pc = pl_value pooled; u = rq_uri req
           in Option.bind (write_head L cfg pc req) (\<lambda>head.
                case head of
                  Inl e \<Rightarrow> Some ([ReleaseNow], Inl (Nope e))
                | Inr req1 \<Rightarrow>
                    (let store = rc_fetch cookie_store (ext_cookie_store (rq_ext req1));
                         req2 = req1\<lparr>rq_headers := add_cookies (at_cookies at) store u pc (rq_headers req1)\<rparr>
                     in Some (case at_reply at req2 of
                          Unsent r e \<Rightarrow>
                            ([Transmit req2, ReleaseNow], Inl (Retryable (client_error_new Canceled e) r (pl_is_reused pooled)))
                        | SendFailed e \<Rightarrow> ([Transmit req2, ReleaseNow], Inl (Nope (client_error_new SendRequest e)))
                        | Answered res \<Rightarrow>
                            (let values = hdr_get_all (rs_headers res) ''set-cookie'';
                                 stored = (case store of
                                             Some cs \<Rightarrow> if values \<noteq> [] then [StoreCookies cs values u] else []
                                           | None \<Rightarrow> [])
                             in ([Transmit req2] @ stored @
                                 [if client_is_http2 pc \<or> \<not> pl_pool pooled \<or> at_ready at
                                  then ReleaseNow else ReleaseWhenReady],
                                 Inr \<lparr>cr_response = res, cr_extras = ci_set_extras (pc_info pc) [],
                                      cr_info = pc_info pc\<rparr>)))))))"

section \<open>Resending\<close>

text \<open>\<^verbatim>\<open>send_request\<close>, over the answers of the world to its attempts: \<open>Waiting\<close> when they do not suffice.\<close>

datatype 'a outcome = Panic | Waiting | Done 'a

fun send_request ::
  "client_lib \<Rightarrow> client_config \<Rightarrow> nat request_config \<Rightarrow> uri \<Rightarrow> ('k, 'x, 'p, 'o) send_attempt list \<Rightarrow>
   ('p, 'o) request \<Rightarrow> ('p, 'o) client_event list \<times> (error, 'x client_response) result outcome"
where
  "send_request L cfg store u [] req = ([], Waiting)"
| "send_request L cfg store u (at # ats) req =
     (case try_send_request L cfg store at req of
        None \<Rightarrow> ([], Panic)
      | Some (evs, Inr res) \<Rightarrow> (evs, Done (Inr res))
      | Some (evs, Inl (Nope e)) \<Rightarrow> (evs, Done (Inl e))
      | Some (evs, Inl (Retryable e r reused)) \<Rightarrow>
          if \<not> hc_retry_canceled cfg \<or> \<not> reused then (evs, Done (Inl e))
          else (case send_request L cfg store u ats (r\<lparr>rq_uri := u\<rparr>) of
                  (evs', out) \<Rightarrow> (evs @ evs', out)))"

section \<open>The head of a request\<close>

text \<open>What the crate \<^verbatim>\<open>http\<close> promises: parts that fit together make a URI with these parts, and text of visible
  characters is a header value.\<close>

definition valid_parts :: "uri \<Rightarrow> bool" where
  "valid_parts u \<longleftrightarrow>
     (uri_scheme u \<noteq> None \<longrightarrow> uri_authority u \<noteq> None \<and> uri_pq u \<noteq> None) \<and>
     (uri_scheme u = None \<and> uri_authority u \<noteq> None \<longrightarrow> uri_pq u = None)"

definition visible :: "string \<Rightarrow> bool" where
  "visible s \<longleftrightarrow> list_all (\<lambda>c. 32 < (of_char c :: nat) \<and> (of_char c :: nat) < 127) s"

definition client_lib_ok :: "client_lib \<Rightarrow> bool" where
  "client_lib_ok L \<longleftrightarrow>
     uri_lib_ok (cl_uri L) \<and>
     (\<forall>u. valid_parts u \<longrightarrow> lib_from_parts (cl_uri L) u = Some u) \<and>
     (\<forall>s. visible s \<longrightarrow>
        cl_hv_str L s = Some \<lparr>hv_bytes = s, hv_sensitive = False\<rparr> \<and>
        cl_hv_shared L s = Some \<lparr>hv_bytes = s, hv_sensitive = False\<rparr>)"

lemma visible_decimal: "visible (nat_decimal n)"
proof (induction n rule: nat_decimal.induct)
  case (1 n)
  have d: "32 < (of_char (char_of (48 + k :: nat) :: char) :: nat)"
    "(of_char (char_of (48 + k :: nat) :: char) :: nat) < 127" if "k < 10" for k
    using that by (simp_all add: of_char_of)
  show ?case
  proof (cases "n < 10")
    case True
    then show ?thesis using d [of n] by (simp add: nat_decimal.simps [of n] visible_def)
  next
    case False
    then show ?thesis using 1 d [of "n mod 10"] by (simp add: nat_decimal.simps [of n] visible_def)
  qed
qed

text \<open>The host of a URI with its port, unless it is the default port of the scheme.\<close>

definition host_text :: "uri \<Rightarrow> string" where
  "host_text u =
     (case uri_host u of None \<Rightarrow> [] | Some h \<Rightarrow>
        h @ (case uri_port u of
               None \<Rightarrow> []
             | Some p \<Rightarrow> if p = (if is_schema_secure u then 443 else 80) then [] else '':'' @ nat_decimal (unat p)))"

lemma generate_host_header_text:
  assumes "client_lib_ok L" "uri_host u = Some h" "visible h"
  shows "generate_host_header L u = Some \<lparr>hv_bytes = host_text u, hv_sensitive = False\<rparr>"
proof -
  have hv: "visible s \<Longrightarrow> cl_hv_str L s = Some \<lparr>hv_bytes = s, hv_sensitive = False\<rparr>"
    "visible s \<Longrightarrow> cl_hv_shared L s = Some \<lparr>hv_bytes = s, hv_sensitive = False\<rparr>" for s
    using assms(1) by (simp_all add: client_lib_ok_def)
  have "visible (h @ '':'' @ nat_decimal n)" for n
    using assms(3) visible_decimal [of n] by (simp add: visible_def)
  then show ?thesis
    using assms(2,3) by (auto simp: generate_host_header_def host_text_def hv Let_def split: option.split)
qed

lemma http_request_accepts:
  assumes "client_lib_ok L" "http_request L uk mk opt1 opt2 b1 b2 req0 = Some (Inr (req, d, c1, c2))"
  obtains a where "uri_authority (rq_uri req0) = Some a" "uri_authority (rq_uri req) = Some a"
    "uri_scheme (rq_uri req) \<noteq> None" "rq_method req = rq_method req0" "rq_version req = rq_version req0"
    "rq_headers req = rq_headers req0" "rq_method req \<noteq> ''CONNECT'' \<longrightarrow> rq_uri req = rq_uri req0"
    "uri_scheme (rq_uri req0) \<noteq> None \<longrightarrow> rq_uri req = rq_uri req0"
    "cd_uri d = \<lparr>uri_scheme = uri_scheme (rq_uri req), uri_authority = Some a, uri_pq = Some (''/'', None)\<rparr>"
proof -
  have fp: "lib_from_parts (cl_uri L) u = Some u" if "valid_parts u" for u
    using assms(1) that by (simp add: client_lib_ok_def)
  define k where "k \<longleftrightarrow> rq_method req0 = ''CONNECT''"
  let ?fin = "\<lambda>(r, u'). case r of
      Inl e \<Rightarrow> Some (Inl (ClientError UserAbsoluteUriRequired (Some e)))
    | Inr base \<Rightarrow>
        (let (o1, slot) = rc_remove (ext_options (rq_ext req0));
             ro = (case o1 of Some x \<Rightarrow> x | None \<Rightarrow> request_options_default)
         in Some (Inr (req0\<lparr>rq_uri := u', rq_ext := (rq_ext req0)\<lparr>ext_options := slot\<rparr>\<rparr>,
              descriptor_new uk mk base (ro_group ro) (ro_proxy ro) (ro_version ro) (ro_tls ro) (ro_bind ro),
              case ro_http1 ro of Some x \<Rightarrow> opt1 x b1 | None \<Rightarrow> b1,
              case ro_http2 ro of Some x \<Rightarrow> opt2 x b2 | None \<Rightarrow> b2)))"
  have "Option.bind (normalize_uri L (rq_uri req0) k) ?fin = Some (Inr (req, d, c1, c2))"
    using assms(2) unfolding http_request_def Let_def k_def [symmetric]
    by (simp split: if_split_asm)
  then obtain x where x: "normalize_uri L (rq_uri req0) k = Some x" "?fin x = Some (Inr (req, d, c1, c2))"
    unfolding Option.bind_eq_Some_conv by blast
  obtain base u' where xe: "x = (Inr base, u')"
    using x(2) by (cases x; cases "fst x") auto
  have n: "normalize_uri L (rq_uri req0) k = Some (Inr base, u')" using x(1) xe by simp
  have r: "rq_uri req = u'" "rq_method req = rq_method req0" "rq_version req = rq_version req0"
      "rq_headers req = rq_headers req0" "cd_uri d = base"
    using x(2) by (auto simp: xe rc_remove_def Let_def descriptor_new_def)
  have "\<exists>a. uri_authority (rq_uri req0) = Some a \<and> uri_authority u' = Some a \<and> uri_scheme u' \<noteq> None \<and>
      (\<not> k \<longrightarrow> u' = rq_uri req0) \<and> (uri_scheme (rq_uri req0) \<noteq> None \<longrightarrow> u' = rq_uri req0) \<and>
      base = \<lparr>uri_scheme = uri_scheme u', uri_authority = Some a, uri_pq = Some (''/'', None)\<rparr>"
    using n by (auto simp: normalize_uri_def build_base_uri_def set_scheme_def fp valid_parts_def Let_def
        split: option.split_asm if_split_asm)
  with r that k_def show thesis by metis
qed

text \<open>The values of a header in the request that is sent.  \<open>plain\<close> says that the connection goes to a proxy
  that reads the request, so that the request may carry headers meant for the proxy.\<close>

definition plain_proxied :: "'x conn_info pool_client \<Rightarrow> ('p, 'o) request \<Rightarrow> bool" where
  "plain_proxied pc req \<longleftrightarrow>
     client_is_http1 pc \<and> rq_method req \<noteq> ''CONNECT'' \<and> ci_is_proxied (pc_info pc)"

definition head_values ::
  "client_config \<Rightarrow> 'x conn_info pool_client \<Rightarrow> ('p, 'o) request \<Rightarrow> string \<Rightarrow> header_value list"
where
  "head_values cfg pc req n =
     (let own = hdr_get_all (rq_headers req) n;
          given = (case ci_headers (pc_info pc) of Some hs \<Rightarrow> hdr_get_all hs n | None \<Rightarrow> [])
      in if plain_proxied pc req \<and> given \<noteq> [] then given
         else if own \<noteq> [] then own
         else if n = ''host'' \<and> client_is_http1 pc \<and> hc_set_host cfg
         then [\<lparr>hv_bytes = host_text (rq_uri req), hv_sensitive = False\<rparr>]
         else if n = ''proxy-authorization'' \<and> plain_proxied pc req
         then (case ci_auth (pc_info pc) of Some a \<Rightarrow> [a] | None \<Rightarrow> [])
         else [])"

definition head_uri :: "'x conn_info pool_client \<Rightarrow> ('p, 'o) request \<Rightarrow> uri" where
  "head_uri pc req =
     (let u = rq_uri req
      in if client_is_http2 pc \<or> plain_proxied pc req then u
         else if rq_method req = ''CONNECT''
         then \<lparr>uri_scheme = None, uri_authority = uri_authority u, uri_pq = None\<rparr>
         else \<lparr>uri_scheme = None, uri_authority = None,
               uri_pq = Some (case uri_pq u of Some pq \<Rightarrow> pq | None \<Rightarrow> (''/'', None))\<rparr>)"

lemma set_host_header_values:
  assumes "client_lib_ok L" "uri_host u = Some h" "visible h"
  shows "\<exists>hs. set_host_header L sh u hdrs = Some hs \<and>
    (\<forall>n. hdr_get_all hs n =
       (if n = ''host'' \<and> sh \<and> hdr_get_all hdrs n = [] then [\<lparr>hv_bytes = host_text u, hv_sensitive = False\<rparr>]
        else hdr_get_all hdrs n))"
  using generate_host_header_text [OF assms]
  by (auto simp: set_host_header_def hdr_contains_def hash_simps)

lemma add_proxy_headers_values:
  assumes "\<And>hs. ci_headers ci = Some hs \<Longrightarrow> hdr_wf hs"
  shows "\<exists>hs. add_proxy_headers ci hdrs = Some hs \<and>
    (\<forall>n. hdr_get_all hs n =
       (let given = (case ci_headers ci of Some hs \<Rightarrow> hdr_get_all hs n | None \<Rightarrow> [])
        in if given \<noteq> [] then given
           else if hdr_get_all hdrs n \<noteq> [] then hdr_get_all hdrs n
           else if n = ''proxy-authorization'' then (case ci_auth ci of Some a \<Rightarrow> [a] | None \<Rightarrow> [])
           else []))"
proof -
  define h1 where "h1 = (case ci_auth ci of Some a \<Rightarrow> or_insert ''proxy-authorization'' a hdrs | None \<Rightarrow> hdrs)"
  have h1: "hdr_get_all h1 n = (if hdr_get_all hdrs n \<noteq> [] then hdr_get_all hdrs n
      else if n = ''proxy-authorization'' then (case ci_auth ci of Some a \<Rightarrow> [a] | None \<Rightarrow> []) else [])" for n
    by (auto simp: h1_def or_insert_def hdr_contains_def hash_simps split: option.split)
  show ?thesis
  proof (cases "ci_headers ci")
    case None
    then show ?thesis using h1 by (simp add: add_proxy_headers_def h1_def [symmetric])
  next
    case (Some hs)
    from replace_headers_values [OF assms [OF Some], of h1] Some h1 show ?thesis
      by (auto simp: add_proxy_headers_def h1_def [symmetric] hdr_contains_def)
  qed
qed

text \<open>C13: the head of a request fits its connection.  For every request the client accepts, writing the head
  never panics; it fails only when an HTTP/2 request got an HTTP/1 connection.  On HTTP/2 and towards a plain
  proxy the target is the absolute URI, for \<^verbatim>\<open>CONNECT\<close> it is the authority, otherwise path and query alone.
  Every header has the values of the request, except that a missing \<^verbatim>\<open>Host\<close> is derived from the URI on HTTP/1,
  and that proxy credentials and proxy headers are added on a plain proxy connection; on no other connection
  do they reach the peer.\<close>

theorem request_head:
  assumes "client_lib_ok L"
    and "http_request L uk mk opt1 opt2 b1 b2 req0 = Some (Inr (req, d, c1, c2))"
    and "\<And>a. uri_authority (rq_uri req0) = Some a \<Longrightarrow> visible (auth_host a)"
    and "\<And>hs. ci_headers (pc_info pc) = Some hs \<Longrightarrow> hdr_wf hs"
  shows "\<exists>r. write_head L cfg pc req = Some r \<and>
    (case r of
       Inl e \<Rightarrow> e = ClientError UserUnsupportedVersion None \<and> client_is_http1 pc \<and> rq_version req = HTTP_2
     | Inr req' \<Rightarrow>
         rq_method req' = rq_method req \<and> rq_version req' = rq_version req \<and> rq_ext req' = rq_ext req \<and>
         rq_uri req' = head_uri pc req \<and>
         (\<forall>n. hdr_get_all (rq_headers req') n = head_values cfg pc req n) \<and>
         (\<not> plain_proxied pc req \<longrightarrow>
            hdr_get_all (rq_headers req') ''proxy-authorization'' = hdr_get_all (rq_headers req) ''proxy-authorization''))"
proof -
  from assms(1,2) obtain a where a: "uri_authority (rq_uri req0) = Some a" "uri_authority (rq_uri req) = Some a"
    by (rule http_request_accepts)
  have host: "uri_host (rq_uri req) = Some (auth_host a)" "visible (auth_host a)"
    using a assms(3) by (simp_all add: uri_host_def)
  have fp: "lib_from_parts (cl_uri L) u = Some u" if "valid_parts u" for u
    using assms(1) that by (simp add: client_lib_ok_def)
  show ?thesis
  proof (cases "client_is_http1 pc \<and> rq_version req \<noteq> HTTP_2")
    case False
    then show ?thesis
      by (auto simp: write_head_def client_is_http1_def Let_def head_uri_def head_values_def plain_proxied_def)
  next
    case True
    obtain hs where hs: "set_host_header L (hc_set_host cfg) (rq_uri req) (rq_headers req) = Some hs"
      "hdr_get_all hs n =
         (if n = ''host'' \<and> hc_set_host cfg \<and> hdr_get_all (rq_headers req) n = []
          then [\<lparr>hv_bytes = host_text (rq_uri req), hv_sensitive = False\<rparr>]
          else hdr_get_all (rq_headers req) n)" for n
      using set_host_header_values [OF assms(1) host, of "hc_set_host cfg" "rq_headers req"] by blast
    obtain ps where ps: "add_proxy_headers (pc_info pc) hs = Some ps"
      "hdr_get_all ps n =
         (let given = (case ci_headers (pc_info pc) of Some hs \<Rightarrow> hdr_get_all hs n | None \<Rightarrow> [])
          in if given \<noteq> [] then given
             else if hdr_get_all hs n \<noteq> [] then hdr_get_all hs n
             else if n = ''proxy-authorization'' then (case ci_auth (pc_info pc) of Some a \<Rightarrow> [a] | None \<Rightarrow> [])
             else [])" for n
      using add_proxy_headers_values [of "pc_info pc" hs] assms(4) by blast
    have auth: "authority_form L (rq_uri req) =
        Some \<lparr>uri_scheme = None, uri_authority = uri_authority (rq_uri req), uri_pq = None\<rparr>"
      by (simp add: authority_form_def a fp valid_parts_def)
    have origin: "origin_form L (rq_uri req) =
        Some \<lparr>uri_scheme = None, uri_authority = None,
              uri_pq = Some (case uri_pq (rq_uri req) of Some pq \<Rightarrow> pq | None \<Rightarrow> (''/'', None))\<rparr>"
      by (simp add: origin_form_def uri_default_def fp valid_parts_def split: option.split)
    have h: "client_is_http1 pc" "rq_version req \<noteq> HTTP_2" "\<not> client_is_http2 pc"
      using True by (simp_all add: client_is_http1_def)
    show ?thesis
      using hs(2) ps(2)
      by (simp add: write_head_def h hs(1) ps(1) auth origin Let_def head_uri_def head_values_def
          plain_proxied_def absolute_form_def)
  qed
qed

section \<open>Cookie stores\<close>

text \<open>The contract of the trait \<^verbatim>\<open>CookieStore\<close> that the client relies on: every field value fits the URI it was asked
  for, and only HTTP/2 and HTTP/3 get more than one field.\<close>

locale cookie_store_laws =
  fixes ask :: "uri \<Rightarrow> version \<Rightarrow> cookies"
    and fits :: "uri \<Rightarrow> string \<Rightarrow> bool"
  assumes compressed: "ask u v = Compressed s \<Longrightarrow> fits u s"
    and uncompressed: "ask u v = Uncompressed ss \<Longrightarrow> s \<in> set ss \<Longrightarrow> fits u s"
    and one_field: "v \<notin> {HTTP_2, HTTP_3} \<Longrightarrow> ask u v \<noteq> Uncompressed ss"
begin

lemma append_fields:
  "hdr_get_all (fold (\<lambda>v. hdr_append n \<lparr>hv_bytes = v, hv_sensitive = False\<rparr>) vs h) m =
     (if m = n then hdr_get_all h n @ map (\<lambda>v. \<lparr>hv_bytes = v, hv_sensitive = False\<rparr>) vs else hdr_get_all h m)"
  by (induction vs arbitrary: h) (simp_all add: hash_simps)

lemma attach_fits:
  assumes "v \<in> set (hdr_get_all (attach_cookies (ask u ver) h) ''cookie'')" "hdr_get_all h ''cookie'' = []"
  shows "fits u (hv_bytes v)"
  using assms compressed [of u ver] uncompressed [of u ver]
  by (cases "ask u ver") (auto simp: attach_cookies_def append_fields hash_simps)

lemma attach_one:
  assumes "hdr_get_all h ''cookie'' = []"
  shows "length (hdr_get_all (attach_cookies (ask u HTTP_11) h) ''cookie'') \<le> 1"
  using assms one_field [of HTTP_11 u]
  by (cases "ask u HTTP_11") (auto simp: attach_cookies_def append_fields hash_simps)

end

text \<open>A field value of the jar lists cookies that were inserted, unchanged, from an origin that may set them,
  and that the request may carry.\<close>

definition cookie_may_go :: "cookie_env \<Rightarrow> jar_op list \<Rightarrow> int \<Rightarrow> uri \<Rightarrow> host \<Rightarrow> raw_cookie \<Rightarrow> bool" where
  "cookie_may_go E ops now u host c \<longleftrightarrow>
     (\<exists>inp u0 t h0 d p.
        (inp, Inr u0, t) \<in> set (all_adds E ops) \<and> add_target E inp (Inr u0) t = Some (u0, h0, d, p, c, False) \<and>
        request_host E u0 = Some h0 \<and> domain_match h0 d \<and> request_matches_cookie u host d p c now)"

definition jar_field :: "cookie_env \<Rightarrow> jar_op list \<Rightarrow> int \<Rightarrow> uri \<Rightarrow> string \<Rightarrow> bool" where
  "jar_field E ops now u s \<longleftrightarrow>
     (\<exists>host cs. request_host E u = Some host \<and> cs \<noteq> [] \<and> s = join ''; '' (map cookie_pair cs) \<and>
        (\<forall>c \<in> set cs. cookie_may_go E ops now u host c))"

lemma selected_may_go:
  assumes "c \<in> set (selected (jar_run E ops) u h now)"
  shows "cookie_may_go E ops now u h c"
proof -
  have wf: "store_wf (jar_run E ops)" using jar_inv_run by (simp add: jar_inv_def)
  from assms obtain d p n ho e where g: "store_get (jar_run E ops) d p n ho = Some e"
    and c: "ce_cookie e = c" and m: "request_matches_cookie u h d p c now"
    unfolding selected_iff [OF wf] by blast
  from added_by_run g c obtain inp r t u0 h0 where
    i: "(inp, r, t) \<in> set (all_adds E ops)" and a: "add_target E inp r t = Some (u0, h0, d, p, c, False)"
    unfolding added_by_def by blast
  from i a m add_target_props [OF a] show ?thesis unfolding cookie_may_go_def by metis
qed

lemma jar_field_list:
  assumes "request_host E u = Some h" "cs \<noteq> []" "set cs \<subseteq> set (selected (jar_run E ops) u h now)"
  shows "jar_field E ops now u (join ''; '' (map cookie_pair cs))"
  unfolding jar_field_def using assms selected_may_go by blast

interpretation jar: cookie_store_laws "\<lambda>u v. jar_cookies E (jar_run E ops) u v now" "jar_field E ops now"
  for E ops now
proof
  fix u v s ss
  {
    assume a: "jar_cookies E (jar_run E ops) u v now = Compressed s"
    then obtain h where h: "request_host E u = Some h" by (auto simp: jar_cookies_def split: option.split_asm)
    let ?cs = "selected (jar_run E ops) u h now"
    have "s = join ''; '' (map cookie_pair ?cs)" "s \<noteq> []"
      using a h by (auto simp: jar_cookies_def Let_def join_pairs_join split: if_split_asm)
    moreover from this have "?cs \<noteq> []" by auto
    ultimately show "jar_field E ops now u s" using jar_field_list [OF h] by blast
  next
    assume a: "jar_cookies E (jar_run E ops) u v now = Uncompressed ss" and s: "s \<in> set ss"
    then obtain h where h: "request_host E u = Some h" by (auto simp: jar_cookies_def split: option.split_asm)
    obtain c where c: "c \<in> set (selected (jar_run E ops) u h now)" "s = cookie_pair c"
      using a h s by (auto simp: jar_cookies_def Let_def split: if_split_asm)
    then show "jar_field E ops now u s" using jar_field_list [OF h, of "[c]"] by simp
  }
  show "v \<notin> {HTTP_2, HTTP_3} \<Longrightarrow> jar_cookies E (jar_run E ops) u v now \<noteq> Uncompressed ss"
    by (auto simp: jar_cookies_def Let_def split: option.split)
qed

lemma cookie_store_laws_weaken:
  assumes "cookie_store_laws ask F" "\<And>u s. F u s \<Longrightarrow> G u s"
  shows "cookie_store_laws ask G"
  using assms by (auto simp: cookie_store_laws_def)

section \<open>A whole request\<close>

fun transmitted :: "('p, 'o) client_event \<Rightarrow> ('p, 'o) request option" where
  "transmitted (Transmit r) = Some r"
| "transmitted _ = None"

definition transmits :: "('p, 'o) client_event list \<Rightarrow> ('p, 'o) request list" where
  "transmits evs = List.map_filter transmitted evs"

lemma transmits_simps [simp]:
  "transmits [] = []"
  "transmits (Transmit r # evs) = r # transmits evs"
  "transmits (StoreCookies cs vs u # evs) = transmits evs"
  "transmits (ReleaseNow # evs) = transmits evs"
  "transmits (ReleaseWhenReady # evs) = transmits evs"
  "transmits (evs @ evs') = transmits evs @ transmits evs'"
  by (simp_all add: transmits_def List.map_filter_def)

lemma Transmit_in: "Transmit r \<in> set evs \<longleftrightarrow> r \<in> set (transmits evs)"
proof (induction evs)
  case (Cons ev evs)
  then show ?case by (cases ev) auto
qed simp

definition full_head ::
  "client_lib \<Rightarrow> client_config \<Rightarrow> nat request_config \<Rightarrow> ('k, 'x, 'p, 'o) send_attempt \<Rightarrow>
   'x conn_info pool_client \<Rightarrow> ('p, 'o) request \<Rightarrow> ('p, 'o) request option"
where
  "full_head L cfg store at pc req =
     (case write_head L cfg pc req of
        Some (Inr r) \<Rightarrow> Some (r\<lparr>rq_headers := add_cookies (at_cookies at)
             (rc_fetch store (ext_cookie_store (rq_ext r))) (rq_uri req) pc (rq_headers r)\<rparr>)
      | _ \<Rightarrow> None)"

lemma write_head_frame:
  assumes "write_head L cfg pc req = Some (Inr r)"
  shows "rq_method r = rq_method req" "rq_version r = rq_version req" "rq_ext r = rq_ext req"
  using assms by (auto simp: write_head_def Let_def Option.bind_eq_Some_conv split: if_split_asm)

lemma full_head_frame:
  assumes "full_head L cfg store at pc req = Some r"
  shows "rq_method r = rq_method req" "rq_version r = rq_version req" "rq_ext r = rq_ext req"
  using assms write_head_frame by (fastforce simp: full_head_def split: option.split_asm sum.split_asm)+

text \<open>What one attempt can do.\<close>

lemma try_send_cases:
  assumes "try_send_request L cfg store at req = Some (evs, out)"
  obtains (refused) e where "evs = [] \<or> evs = [ReleaseNow]" "out = Inl (Nope e)"
  | (unsent) pooled r r' e where "at_conn at = Inr pooled" "full_head L cfg store at (pl_value pooled) req = Some r"
      "at_reply at r = Unsent r' e" "evs = [Transmit r, ReleaseNow]"
      "out = Inl (Retryable (client_error_new Canceled e) r' (pl_is_reused pooled))"
  | (failed) pooled r e where "at_conn at = Inr pooled" "full_head L cfg store at (pl_value pooled) req = Some r"
      "at_reply at r = SendFailed e" "evs = [Transmit r, ReleaseNow]" "out = Inl (Nope (client_error_new SendRequest e))"
  | (answered) pooled r res cr rest where "at_conn at = Inr pooled"
      "full_head L cfg store at (pl_value pooled) req = Some r" "at_reply at r = Answered res"
      "evs = Transmit r # rest" "out = Inr cr" "cr_response cr = res" "transmits rest = []"
      "\<And>cs vs u. StoreCookies cs vs u \<in> set rest \<Longrightarrow>
         u = rq_uri req \<and> vs = hdr_get_all (rs_headers res) ''set-cookie'' \<and>
         rc_fetch store (ext_cookie_store (rq_ext req)) = Some cs"
proof (cases "at_conn at")
  case (Inl e)
  with assms show thesis by (intro refused) (auto simp: try_send_request_def)
next
  case (Inr pooled)
  let ?pc = "pl_value pooled"
  obtain head where h: "write_head L cfg ?pc req = Some head"
    using assms Inr by (auto simp: try_send_request_def Let_def Option.bind_eq_Some_conv)
  show thesis
  proof (cases head)
    case (Inl e)
    with assms Inr h show thesis by (intro refused) (auto simp: try_send_request_def Let_def)
  next
    case h1: (Inr r1)
    define r where "r = r1\<lparr>rq_headers := add_cookies (at_cookies at)
        (rc_fetch store (ext_cookie_store (rq_ext r1))) (rq_uri req) ?pc (rq_headers r1)\<rparr>"
    have f: "full_head L cfg store at ?pc req = Some r" by (simp add: full_head_def h h1 r_def)
    have x: "rq_ext r1 = rq_ext req" using write_head_frame h h1 by blast
    note out = assms [unfolded try_send_request_def Let_def Inr sum.case h h1 Option.bind.simps r_def [symmetric]]
    show thesis
    proof (cases "at_reply at r")
      case (Answered res)
      with out show thesis
        by (intro answered [OF Inr f Answered, of "tl evs" "projr out"])
          (auto simp: x split: option.split_asm if_split_asm)
    next
      case (Unsent r' e)
      with out show thesis by (intro unsent [OF Inr f Unsent]) auto
    next
      case (SendFailed e)
      with out show thesis by (intro failed [OF Inr f SendFailed]) auto
    qed
  qed
qed

text \<open>What holds of the world: a request that is handed back is the request that was handed over.\<close>

definition hands_back :: "('k, 'x, 'p, 'o) send_attempt \<Rightarrow> bool" where
  "hands_back at \<longleftrightarrow> (\<forall>r r' e. at_reply at r = Unsent r' e \<longrightarrow> r' = r)"

definition reused_connection :: "('k, 'x, 'p, 'o) send_attempt \<Rightarrow> bool" where
  "reused_connection at = (case at_conn at of Inr pooled \<Rightarrow> pl_is_reused pooled | Inl _ \<Rightarrow> False)"

text \<open>C14: when a request is sent again.  The client gives a request to a second connection only if resending is
  enabled and the connection before, a reused one, handed the request back unsent; every copy has the method,
  version and extensions of the request.  A response is the answer to the last copy.  The first attempt that
  gets no connection or a fresh one ends the loop, so the client returns once such an attempt has been
  made.\<close>

theorem resend_only_unsent:
  assumes "\<forall>at \<in> set ats. hands_back at"
    and "send_request L cfg store u ats req = (evs, out)"
  shows "length (transmits evs) \<le> length ats \<and>
    (\<forall>i. Suc i < length (transmits evs) \<longrightarrow>
       hc_retry_canceled cfg \<and> reused_connection (ats ! i) \<and>
       (\<exists>e. at_reply (ats ! i) (transmits evs ! i) = Unsent (transmits evs ! i) e)) \<and>
    (\<forall>r \<in> set (transmits evs).
       rq_method r = rq_method req \<and> rq_version r = rq_version req \<and> rq_ext r = rq_ext req) \<and>
    (\<forall>res. out = Done (Inr res) \<longrightarrow> transmits evs \<noteq> [] \<and>
       at_reply (ats ! (length (transmits evs) - 1)) (last (transmits evs)) = Answered (cr_response res)) \<and>
    (out = Waiting \<longrightarrow> (\<forall>at \<in> set ats. reused_connection at))"
  using assms
proof (induction ats arbitrary: req evs out)
  case Nil
  then show ?case by simp
next
  case (Cons at ats)
  have hb: "hands_back at" "\<forall>at \<in> set ats. hands_back at" using Cons.prems(1) by simp_all
  show ?case
  proof (cases "try_send_request L cfg store at req")
    case None
    with Cons.prems(2) show ?thesis by simp
  next
    case (Some p)
    obtain evs1 out1 where p: "p = (evs1, out1)" by (cases p)
    note run = Cons.prems(2) [unfolded send_request.simps Some p option.case prod.case]
    from Some p have "try_send_request L cfg store at req = Some (evs1, out1)" by simp
    then show ?thesis
    proof (cases rule: try_send_cases)
      case (refused e)
      with run show ?thesis by auto
    next
      case (failed pooled r e)
      with run full_head_frame [OF failed(2)] show ?thesis by auto
    next
      case (answered pooled r res cr rest)
      with run full_head_frame [OF answered(2)] show ?thesis by auto
    next
      case (unsent pooled r r' e)
      have same: "r' = r" using hb(1) unsent(3) by (simp add: hands_back_def)
      note fr = full_head_frame [OF unsent(2)]
      show ?thesis
      proof (cases "hc_retry_canceled cfg \<and> pl_is_reused pooled")
        case False
        with run unsent fr show ?thesis by auto
      next
        case True
        obtain evs2 where s: "send_request L cfg store u ats (r\<lparr>rq_uri := u\<rparr>) = (evs2, out)" "evs = Transmit r # ReleaseNow # evs2"
          using run unsent True same by (auto split: prod.split_asm)
        note IH = Cons.IH [OF hb(2) s(1)]
        have re: "reused_connection at" using True unsent(1) by (simp add: reused_connection_def)
        have "hc_retry_canceled cfg \<and> reused_connection ((at # ats) ! i) \<and>
            (\<exists>e. at_reply ((at # ats) ! i) (transmits evs ! i) = Unsent (transmits evs ! i) e)"
          if "Suc i < length (transmits evs)" for i
          using that IH s(2) True re unsent(3) same by (cases i) auto
        moreover have "transmits evs \<noteq> [] \<and>
            at_reply ((at # ats) ! (length (transmits evs) - 1)) (last (transmits evs)) = Answered (cr_response res)"
          if "out = Done (Inr res)" for res
          using that IH s(2) by (cases "transmits evs2") auto
        ultimately show ?thesis using IH s(2) fr re by auto
      qed
    qed
  qed
qed

text \<open>What holds of the connections: the headers of a proxy are a header map and set no cookie.\<close>

definition proxy_sets_no_cookie :: "('k, 'x, 'p, 'o) send_attempt \<Rightarrow> bool" where
  "proxy_sets_no_cookie at \<longleftrightarrow>
     (\<forall>pooled hs. at_conn at = Inr pooled \<and> ci_headers (pc_info (pl_value pooled)) = Some hs \<longrightarrow>
        hdr_wf hs \<and> \<not> hdr_contains hs ''cookie'')"

lemma write_head_cookie:
  assumes "write_head L cfg pc req = Some (Inr r)"
    and "\<And>hs. ci_headers (pc_info pc) = Some hs \<Longrightarrow> hdr_wf hs \<and> \<not> hdr_contains hs ''cookie''"
  shows "hdr_get_all (rq_headers r) ''cookie'' = hdr_get_all (rq_headers req) ''cookie''"
proof -
  have host: "hdr_get_all hs ''cookie'' = hdr_get_all h ''cookie''" if "set_host_header L sh u h = Some hs" for hs sh u h
    using that by (auto simp: set_host_header_def hash_simps split: if_split_asm)
  have prox: "hdr_get_all hs ''cookie'' = hdr_get_all h ''cookie''" if "add_proxy_headers (pc_info pc) h = Some hs" for hs h
    using that add_proxy_headers_values [of "pc_info pc" h] assms(2)
    by (cases "ci_headers (pc_info pc)") (auto simp: Let_def hdr_contains_def)
  show ?thesis
    using assms(1)
    by (auto simp: write_head_def Let_def Option.bind_eq_Some_conv split: if_split_asm dest!: host prox)
qed

lemma full_head_cookie:
  assumes "full_head L cfg store at pc req = Some r"
    and "\<And>hs. ci_headers (pc_info pc) = Some hs \<Longrightarrow> hdr_wf hs \<and> \<not> hdr_contains hs ''cookie''"
    and "\<And>cs. rc_fetch store (ext_cookie_store (rq_ext req)) = Some cs \<Longrightarrow> cookie_store_laws (at_cookies at cs) G"
    and "\<forall>v \<in> set (hdr_get_all (rq_headers req) ''cookie''). G (rq_uri req) (hv_bytes v)"
  shows "\<forall>v \<in> set (hdr_get_all (rq_headers r) ''cookie''). G (rq_uri req) (hv_bytes v)"
proof -
  obtain r1 where w: "write_head L cfg pc req = Some (Inr r1)"
    and r: "r = r1\<lparr>rq_headers := add_cookies (at_cookies at)
        (rc_fetch store (ext_cookie_store (rq_ext r1))) (rq_uri req) pc (rq_headers r1)\<rparr>"
    using assms(1) by (auto simp: full_head_def split: option.split_asm sum.split_asm)
  note same = write_head_cookie [OF w assms(2)] write_head_frame(3) [OF w]
  show ?thesis
  proof (cases "rc_fetch store (ext_cookie_store (rq_ext req))")
    case None
    with assms(4) same show ?thesis by (simp add: r add_cookies_def)
  next
    case (Some cs)
    from cookie_store_laws.attach_fits [OF assms(3) [OF Some]] Some assms(4) same show ?thesis
      by (auto simp: r add_cookies_def hdr_contains_def)
  qed
qed

lemma send_request_cookies:
  assumes "\<forall>at \<in> set ats. hands_back at \<and> proxy_sets_no_cookie at \<and>
      (\<forall>cs. rc_fetch store (ext_cookie_store (rq_ext req)) = Some cs \<longrightarrow> cookie_store_laws (at_cookies at cs) G)"
    and "send_request L cfg store u ats req = (evs, out)" "rq_uri req = u"
    and "\<forall>v \<in> set (hdr_get_all (rq_headers req) ''cookie''). G u (hv_bytes v)"
  shows "(\<forall>r \<in> set (transmits evs). \<forall>v \<in> set (hdr_get_all (rq_headers r) ''cookie''). G u (hv_bytes v)) \<and>
    (\<forall>cs vs u'. StoreCookies cs vs u' \<in> set evs \<longrightarrow>
       u' = u \<and> rc_fetch store (ext_cookie_store (rq_ext req)) = Some cs \<and>
       (\<exists>res. out = Done (Inr res) \<and> vs = hdr_get_all (rs_headers (cr_response res)) ''set-cookie''))"
  using assms
proof (induction ats arbitrary: req evs out)
  case Nil
  then show ?case by simp
next
  case (Cons at ats)
  have at: "hands_back at" "proxy_sets_no_cookie at"
    "\<And>cs. rc_fetch store (ext_cookie_store (rq_ext req)) = Some cs \<Longrightarrow> cookie_store_laws (at_cookies at cs) G"
    using Cons.prems(1) by simp_all
  have fit: "\<forall>v \<in> set (hdr_get_all (rq_headers r) ''cookie''). G u (hv_bytes v)"
    if "at_conn at = Inr pooled" "full_head L cfg store at (pl_value pooled) req = Some r" for pooled r
    using full_head_cookie [OF that(2) _ at(3)] Cons.prems(3,4) at(2) that(1)
    by (auto simp: proxy_sets_no_cookie_def)
  show ?case
  proof (cases "try_send_request L cfg store at req")
    case None
    with Cons.prems(2) show ?thesis by simp
  next
    case (Some p)
    obtain evs1 out1 where p: "p = (evs1, out1)" by (cases p)
    note run = Cons.prems(2) [unfolded send_request.simps Some p option.case prod.case]
    from Some p have "try_send_request L cfg store at req = Some (evs1, out1)" by simp
    then show ?thesis
    proof (cases rule: try_send_cases)
      case (refused e)
      with run show ?thesis by auto
    next
      case (failed pooled r e)
      with run fit [OF failed(1,2)] show ?thesis by auto
    next
      case (answered pooled r res cr rest)
      with run have e: "evs = Transmit r # rest" "out = Done (Inr cr)" by auto
      show ?thesis unfolding e
        using fit [OF answered(1,2)] answered(6,7,8) Cons.prems(3) by auto
    next
      case (unsent pooled r r' e)
      have same: "r' = r" using at(1) unsent(3) by (simp add: hands_back_def)
      show ?thesis
      proof (cases "hc_retry_canceled cfg \<and> pl_is_reused pooled")
        case False
        with run unsent fit [OF unsent(1,2)] show ?thesis by auto
      next
        case True
        obtain evs2 where s: "send_request L cfg store u ats (r\<lparr>rq_uri := u\<rparr>) = (evs2, out)" "evs = Transmit r # ReleaseNow # evs2"
          using run unsent True same by (auto split: prod.split_asm)
        have x: "rq_ext (r\<lparr>rq_uri := u\<rparr>) = rq_ext req" using full_head_frame(3) [OF unsent(2)] by simp
        from Cons.IH [OF _ s(1)] Cons.prems(1) x fit [OF unsent(1,2)] s(2) show ?thesis by auto
      qed
    qed
  qed
qed

text \<open>C6: the client sends only cookies that fit the URI.  When the cookie stores are jars, with any histories
  at the moments they are read, and the caller sets no \<^verbatim>\<open>Cookie\<close> header, then in every copy of the request that
  is sent every \<^verbatim>\<open>Cookie\<close> field lists cookies that the jar of this request got from an origin that may set them
  and that may go to this URI.  The cookies of a response are stored once, in the same jar, under the URI of
  the request.\<close>

theorem client_cookies_fit:
  assumes "\<forall>at \<in> set ats. hands_back at \<and> proxy_sets_no_cookie at"
    and "\<forall>at \<in> set ats. \<forall>cs. at_cookies at cs = (\<lambda>u v. jar_cookies E (jar_run E (hist at cs)) u v (clock at cs))"
    and "send_request L cfg store (rq_uri req) ats req = (evs, out)"
    and "\<not> hdr_contains (rq_headers req) ''cookie''"
  shows "(\<forall>r \<in> set (transmits evs). \<forall>v \<in> set (hdr_get_all (rq_headers r) ''cookie'').
            \<exists>at \<in> set ats. \<exists>cs. rc_fetch store (ext_cookie_store (rq_ext req)) = Some cs \<and>
              jar_field E (hist at cs) (clock at cs) (rq_uri req) (hv_bytes v)) \<and>
         (\<forall>cs vs u. StoreCookies cs vs u \<in> set evs \<longrightarrow>
            u = rq_uri req \<and> rc_fetch store (ext_cookie_store (rq_ext req)) = Some cs \<and>
            (\<exists>res. out = Done (Inr res) \<and> vs = hdr_get_all (rs_headers (cr_response res)) ''set-cookie''))"
proof -
  let ?G = "\<lambda>u s. \<exists>at \<in> set ats. \<exists>cs. rc_fetch store (ext_cookie_store (rq_ext req)) = Some cs \<and>
      jar_field E (hist at cs) (clock at cs) u s"
  have laws: "cookie_store_laws (at_cookies at cs) ?G"
    if at: "at \<in> set ats" and cs: "rc_fetch store (ext_cookie_store (rq_ext req)) = Some cs" for at cs
  proof -
    have "cookie_store_laws (at_cookies at cs) (jar_field E (hist at cs) (clock at cs))"
      using assms(2) at jar.cookie_store_laws_axioms by simp
    then show ?thesis by (rule cookie_store_laws_weaken) (use at cs in blast)
  qed
  have none: "\<forall>v \<in> set (hdr_get_all (rq_headers req) ''cookie''). ?G (rq_uri req) (hv_bytes v)"
    using assms(4) by (simp add: hdr_contains_def)
  have all: "\<forall>at \<in> set ats. hands_back at \<and> proxy_sets_no_cookie at \<and>
      (\<forall>cs. rc_fetch store (ext_cookie_store (rq_ext req)) = Some cs \<longrightarrow> cookie_store_laws (at_cookies at cs) ?G)"
    using assms(1) laws by blast
  from send_request_cookies [OF all assms(3) refl none] show ?thesis .
qed

section \<open>The builder\<close>

text \<open>Durations are nanoseconds and a cookie store is named by a number.  \<open>bd_timer\<close> says that the timer is not
  empty, which the default timer is only when no runtime is compiled in.\<close>

record ('b1, 'b2) client_builder =
  bd_config :: client_config
  bd_h1 :: 'b1
  bd_h2 :: 'b2
  bd_pool :: pool_config
  bd_timer :: bool
  bd_cookie_store :: "nat option"

definition builder_new :: "'b1 \<Rightarrow> 'b2 \<Rightarrow> ('b1, 'b2) client_builder" where
  "builder_new b1 b2 =
     \<lparr>bd_config = \<lparr>hc_retry_canceled = True, hc_set_host = True, hc_ver = Auto\<rparr>, bd_h1 = b1, bd_h2 = b2,
      bd_pool = \<lparr>pg_idle_timeout = Some (90 * 10 ^ 9), pg_max_idle_per_host = u64_max, pg_max_pool_size = None\<rparr>,
      bd_timer = True, bd_cookie_store = None\<rparr>"

definition builder_pool_idle_timeout :: "nat option \<Rightarrow> ('b1, 'b2) client_builder \<Rightarrow> ('b1, 'b2) client_builder" where
  "builder_pool_idle_timeout t b = b\<lparr>bd_pool := (bd_pool b)\<lparr>pg_idle_timeout := t\<rparr>\<rparr>"

definition builder_pool_max_idle :: "nat \<Rightarrow> ('b1, 'b2) client_builder \<Rightarrow> ('b1, 'b2) client_builder" where
  "builder_pool_max_idle n b = b\<lparr>bd_pool := (bd_pool b)\<lparr>pg_max_idle_per_host := n\<rparr>\<rparr>"

definition builder_pool_max_size :: "nat option \<Rightarrow> ('b1, 'b2) client_builder \<Rightarrow> ('b1, 'b2) client_builder" where
  "builder_pool_max_size n b = b\<lparr>bd_pool := (bd_pool b)\<lparr>pg_max_pool_size := n\<rparr>\<rparr>"

definition builder_http2_only :: "bool \<Rightarrow> ('b1, 'b2) client_builder \<Rightarrow> ('b1, 'b2) client_builder" where
  "builder_http2_only v b = b\<lparr>bd_config := (bd_config b)\<lparr>hc_ver := (if v then Http2Only else Auto)\<rparr>\<rparr>"

definition builder_http1_options ::
  "('h1 \<Rightarrow> 'b1 \<Rightarrow> 'b1) \<Rightarrow> 'h1 option \<Rightarrow> ('b1, 'b2) client_builder \<Rightarrow> ('b1, 'b2) client_builder"
where
  "builder_http1_options opt1 x b = (case x of Some v \<Rightarrow> b\<lparr>bd_h1 := opt1 v (bd_h1 b)\<rparr> | None \<Rightarrow> b)"

definition builder_http2_options ::
  "('h2 \<Rightarrow> 'b2 \<Rightarrow> 'b2) \<Rightarrow> 'h2 option \<Rightarrow> ('b1, 'b2) client_builder \<Rightarrow> ('b1, 'b2) client_builder"
where
  "builder_http2_options opt2 x b = (case x of Some v \<Rightarrow> b\<lparr>bd_h2 := opt2 v (bd_h2 b)\<rparr> | None \<Rightarrow> b)"

definition builder_pool_timer :: "bool \<Rightarrow> ('b1, 'b2) client_builder \<Rightarrow> ('b1, 'b2) client_builder" where
  "builder_pool_timer t b = b\<lparr>bd_timer := t\<rparr>"

definition builder_cookie_store :: "nat option \<Rightarrow> ('b1, 'b2) client_builder \<Rightarrow> ('b1, 'b2) client_builder" where
  "builder_cookie_store cs b = b\<lparr>bd_cookie_store := cs\<rparr>"

record ('k, 'c, 'b1, 'b2) http_client =
  ht_config :: client_config
  ht_h1 :: 'b1
  ht_h2 :: 'b2
  ht_pool :: "('k, 'c) pool_inner option"
  ht_cookie_store :: "nat request_config"

definition builder_build ::
  "('c, 'k, 't idle list) lru_lib \<Rightarrow> ('b1, 'b2) client_builder \<Rightarrow> ('k, 'c, 'b1, 'b2) http_client"
where
  "builder_build L b =
     \<lparr>ht_config = bd_config b, ht_h1 = bd_h1 b, ht_h2 = bd_h2 b, ht_pool = pool_new L (bd_pool b) (bd_timer b),
      ht_cookie_store = bd_cookie_store b\<rparr>"

lemma builder_pooling:
  "ht_pool (builder_build L b) = None \<longleftrightarrow> pg_max_idle_per_host (bd_pool b) = 0"
  by (simp add: builder_build_def pool_new_def pool_is_enabled_def)

section \<open>Concrete requests\<close>

definition sample_client_lib :: client_lib where
  "sample_client_lib =
     \<lparr>cl_uri = sample_lib, cl_hv_str = (\<lambda>s. Some \<lparr>hv_bytes = s, hv_sensitive = False\<rparr>),
      cl_hv_shared = (\<lambda>s. Some \<lparr>hv_bytes = s, hv_sensitive = False\<rparr>)\<rparr>"

lemma sample_client_lib_ok: "client_lib_ok sample_client_lib"
  using sample_lib_ok by (simp add: client_lib_ok_def sample_client_lib_def sample_lib_simps)

type_synonym sample_options = "(uri, unit matcher, unit, unit, unit, unit) request_options"

definition sample_get :: "(unit, sample_options) request" where
  "sample_get =
     \<lparr>rq_method = ''GET'',
      rq_uri = \<lparr>uri_scheme = Some ''https'',
        uri_authority = Some \<lparr>auth_str = ''www.example.com'', auth_host = ''www.example.com'', auth_port = None\<rparr>,
        uri_pq = Some (''/x'', None)\<rparr>,
      rq_version = HTTP_11, rq_headers = [],
      rq_ext = \<lparr>ext_redirect = None, ext_options = None, ext_timeout = None, ext_default_headers = None,
        ext_orig_headers = None, ext_preserve = None, ext_cookie_store = None, ext_accept_encoding = None\<rparr>\<rparr>"

definition sample_client_config :: client_config where
  "sample_client_config = \<lparr>hc_retry_canceled = True, hc_set_host = True, hc_ver = Auto\<rparr>"

definition sample_client :: "pool_tx \<Rightarrow> unit conn_info pool_client" where
  "sample_client tx = \<lparr>pc_info = conn_info_new 0, pc_tx = tx\<rparr>"

theorem request_head_witness:
  "\<exists>r. write_head sample_client_lib sample_client_config (sample_client (Http1 0))
         (sample_get\<lparr>rq_ext := (rq_ext sample_get)\<lparr>ext_options := None\<rparr>\<rparr>) = Some (Inr r) \<and>
       rq_uri r = \<lparr>uri_scheme = None, uri_authority = None, uri_pq = Some (''/x'', None)\<rparr> \<and>
       hdr_get_all (rq_headers r) ''host'' = [\<lparr>hv_bytes = ''www.example.com'', hv_sensitive = False\<rparr>]"
proof -
  let ?req = "sample_get\<lparr>rq_ext := (rq_ext sample_get)\<lparr>ext_options := None\<rparr>\<rparr>"
  let ?pc = "sample_client (Http1 0)"
  have acc: "\<exists>d. http_request sample_client_lib id id (\<lambda>_ b. b) (\<lambda>_ b. b) () () sample_get = Some (Inr (?req, d, (), ()))"
    by (simp add: http_request_def sample_get_def normalize_uri_def build_base_uri_def sample_client_lib_def
        sample_lib_simps rc_remove_def Let_def)
  then obtain d where d: "http_request sample_client_lib id id (\<lambda>_ b. b) (\<lambda>_ b. b) () () sample_get =
      Some (Inr (?req, d, (), ()))" ..
  have vis: "visible (auth_host a)" if "uri_authority (rq_uri sample_get) = Some a" for a
  proof -
    have "visible ''www.example.com''" by code_simp
    with that show ?thesis by (auto simp: sample_get_def)
  qed
  have no: "hdr_wf hs" if "ci_headers (pc_info ?pc) = Some hs" for hs
    using that by (simp add: sample_client_def conn_info_new_def)
  have e: "head_uri ?pc ?req = \<lparr>uri_scheme = None, uri_authority = None, uri_pq = Some (''/x'', None)\<rparr>"
    "head_values sample_client_config ?pc ?req ''host'' = [\<lparr>hv_bytes = ''www.example.com'', hv_sensitive = False\<rparr>]"
    "rq_version ?req \<noteq> HTTP_2"
    by code_simp+
  from request_head [where cfg = sample_client_config, OF sample_client_lib_ok d vis no] e show ?thesis
    by (force split: sum.split_asm)
qed

definition sample_response :: response where
  "sample_response =
     \<lparr>rs_status = 200, rs_version = HTTP_11,
      rs_headers = [(''set-cookie'', [\<lparr>hv_bytes = ''s=2'', hv_sensitive = False\<rparr>])], rs_uri = None, rs_history = None\<rparr>"

definition sample_attempt :: "pool_tx \<Rightarrow> bool \<Rightarrow> (nat, unit, unit, sample_options) send_attempt" where
  "sample_attempt tx reused =
     \<lparr>at_conn = Inr \<lparr>pl_value = sample_client tx, pl_is_reused = reused, pl_key = 0, pl_pool = True\<rparr>,
      at_cookies = (\<lambda>_ u v. jar_cookies sample_env (jar_run sample_env sample_history) u v 3),
      at_reply = (\<lambda>r. if reused then Unsent r Elapsed else Answered sample_response), at_ready = True\<rparr>"

definition sample_send ::
  "pool_tx \<Rightarrow> (unit, sample_options) client_event list \<times> (error, unit client_response) result outcome"
where
  "sample_send tx =
     send_request sample_client_lib sample_client_config (Some 7) (rq_uri sample_get)
       [sample_attempt tx True, sample_attempt (Http1 1) False] sample_get"

lemma sample_attempt_ok:
  "hands_back (sample_attempt tx reused)" "proxy_sets_no_cookie (sample_attempt tx reused)"
  by (simp_all add: hands_back_def proxy_sets_no_cookie_def sample_attempt_def sample_client_def conn_info_new_def)

theorem resend_only_unsent_witness:
  "length (transmits (fst (sample_send (Http1 0)))) = 2 \<and> reused_connection (sample_attempt (Http1 0) True) \<and>
   (\<exists>r e. at_reply (sample_attempt (Http1 0) True) r = Unsent r e)"
proof -
  obtain evs out where s: "sample_send (Http1 0) = (evs, out)" by (cases "sample_send (Http1 0)")
  have n: "length (transmits (fst (sample_send (Http1 0)))) = 2" by code_simp
  have h: "\<forall>at \<in> set [sample_attempt (Http1 0) True, sample_attempt (Http1 1) False]. hands_back at"
    by (simp add: sample_attempt_ok)
  from resend_only_unsent [OF h s [unfolded sample_send_def]] n s show ?thesis
    by (auto dest: spec [of _ 0])
qed

theorem client_cookies_fit_witness:
  "\<exists>r v. r \<in> set (transmits (fst (sample_send (Http1 0)))) \<and> v \<in> set (hdr_get_all (rq_headers r) ''cookie'') \<and>
     hv_bytes v = ''s=1; t=3'' \<and> jar_field sample_env sample_history 3 (rq_uri sample_get) ''s=1; t=3''"
proof -
  obtain evs out where s: "sample_send (Http1 0) = (evs, out)" by (cases "sample_send (Http1 0)")
  define r where "r = hd (transmits (fst (sample_send (Http1 0))))"
  have ne: "transmits (fst (sample_send (Http1 0))) \<noteq> []" by code_simp
  have v: "hdr_get_all (rq_headers r) ''cookie'' = [\<lparr>hv_bytes = ''s=1; t=3'', hv_sensitive = False\<rparr>]"
    unfolding r_def by code_simp
  have r: "r \<in> set (transmits evs)" using ne s by (simp add: r_def)
  have h: "\<forall>at \<in> set [sample_attempt (Http1 0) True, sample_attempt (Http1 1) False].
      hands_back at \<and> proxy_sets_no_cookie at"
    by (simp add: sample_attempt_ok)
  have j: "\<forall>at \<in> set [sample_attempt (Http1 0) True, sample_attempt (Http1 1) False]. \<forall>cs.
      at_cookies at cs = (\<lambda>u v. jar_cookies sample_env (jar_run sample_env sample_history) u v 3)"
    by (simp add: sample_attempt_def)
  have c: "\<not> hdr_contains (rq_headers sample_get) ''cookie''" by code_simp
  from client_cookies_fit [where hist = "\<lambda>_ _. sample_history" and clock = "\<lambda>_ _. 3",
      OF h j s [unfolded sample_send_def] c] r v
  have "jar_field sample_env sample_history 3 (rq_uri sample_get) ''s=1; t=3''" by auto
  with r v s show ?thesis by (intro exI [of _ r]) auto
qed

text \<open>A request that an HTTP/2 connection hands back keeps the cookie fields written for HTTP/2: the next
  attempt sends several \<^verbatim>\<open>Cookie\<close> fields over HTTP/1.\<close>

theorem resent_cookies_stay_split:
  "length (hdr_get_all (rq_headers (transmits (fst (sample_send (Http2 0))) ! 1)) ''cookie'') = 2"
  by code_simp

end
