(* ===== verification/Connect_Race.thy ===== *)
theory Connect_Race
  imports Http_Client "HOL-Library.Multiset"
begin

text \<open>
  How the client gets a connection (\<^verbatim>\<open>connection_for\<close>, \<^verbatim>\<open>one_connection_for\<close> and \<^verbatim>\<open>connect_to\<close> of
  \<^verbatim>\<open>client/layer/client.rs\<close>, and \<^verbatim>\<open>lazy.rs\<close>): a checkout of the pool and a new connection race, the new connection
  takes the HTTP/2 lock of its host when it needs it, and the loser is dropped or goes on in the background.
  A step is at most one critical section of the pool, so that other tasks may run between any two steps.
  Shown: every step is a run of the pool system, so that all that holds of its reachable states holds of the
  client.
\<close>

section \<open>Establishing a connection\<close>

text \<open>\<^verbatim>\<open>PoolTx::http1\<close> and \<^verbatim>\<open>PoolTx::http2\<close> over the answers of the protocol library: the handshake, the readiness of the
  sender, and the error the connection task reported, if any.  \<open>closed\<close> is \<^verbatim>\<open>Error::is_closed\<close>.\<close>

definition http1_handshake ::
  "(error \<Rightarrow> bool) \<Rightarrow> (error, nat) result \<Rightarrow> (error, unit) result \<Rightarrow> error option \<Rightarrow> (error, pool_tx) result"
where
  "http1_handshake closed hs ready reported =
     (case hs of
        Inl e \<Rightarrow> Inl (client_error_new SendRequest e)
      | Inr tx \<Rightarrow>
          (case ready of
             Inr () \<Rightarrow> Inr (Http1 tx)
           | Inl e \<Rightarrow>
               if closed e
               then Inl (client_error_new SendRequest (case reported of Some e' \<Rightarrow> e' | None \<Rightarrow> e))
               else Inl (client_error_new SendRequest e)))"

definition http2_handshake :: "(error, nat) result \<Rightarrow> (error, unit) result \<Rightarrow> (error, pool_tx) result" where
  "http2_handshake hs ready =
     (case hs of
        Inl e \<Rightarrow> Inl (client_error_new SendRequest e)
      | Inr tx \<Rightarrow> (case ready of Inr () \<Rightarrow> Inr (Http2 tx) | Inl e \<Rightarrow> Inl (client_error_new SendRequest e)))"

text \<open>The lazy future of \<^verbatim>\<open>connect_to\<close>.  A step touches the pool at most once: \<open>Going\<close> continues the same poll,
  \<open>Pending\<close> returns to the runtime.\<close>

datatype ('k, 'x) connect_state =
    CInit
  | CConnecting "'k connecting"
  | CUpgrade "'k connecting" "'x conn_info"
  | CHandshake "'k connecting" "'x conn_info"
  | CFinished

datatype 'r progress = Going | Pending | Finished 'r

text \<open>\<^verbatim>\<open>Lazy::started\<close>.\<close>

definition started :: "('k, 'x) connect_state \<Rightarrow> bool" where
  "started c = (case c of CInit \<Rightarrow> False | _ \<Rightarrow> True)"

text \<open>What a step finds: the clock, the name of the next channel, the checkout's receiver, the senders of the
  pool, the connector and the two handshakes.\<close>

record 'x race_env =
  re_now :: nat
  re_fresh :: nat
  re_rx :: "'x conn_info pool_client option poll"
  re_closed :: "nat \<Rightarrow> bool"
  re_accepts :: "nat \<Rightarrow> bool"
  re_connector :: "(error, 'x conn_info) result poll"
  re_http1 :: "(error, nat) result poll"
  re_http2 :: "(error, nat) result poll"

definition connect_ver :: "client_config \<Rightarrow> version option \<Rightarrow> ver" where
  "connect_ver cfg v = (case v of Some HTTP_2 \<Rightarrow> Http2Only | _ \<Rightarrow> hc_ver cfg)"

definition handshake_poll :: "'x race_env \<Rightarrow> bool \<Rightarrow> (error, pool_tx) result poll" where
  "handshake_poll env is_h2 =
     (case (if is_h2 then re_http2 env else re_http1 env) of
        NotReady \<Rightarrow> NotReady
      | Ready (Inl e) \<Rightarrow> Ready (Inl e)
      | Ready (Inr n) \<Rightarrow> Ready (Inr (if is_h2 then Http2 n else Http1 n)))"

definition connect_step ::
  "('c, 'k, 'x conn_info pool_client idle list) lru_lib \<Rightarrow> 'x conn_info pool_client poolable \<Rightarrow> 'x race_env \<Rightarrow>
   'k \<Rightarrow> ver \<Rightarrow> ('k, 'x) connect_state \<Rightarrow> ('k, 'c) pool_inner option \<Rightarrow>
   ('k, 'c) pool_inner option \<times> ('k, 'x) connect_state \<times>
   (error, ('k, 'x conn_info pool_client) pooled) result progress \<times> (nat \<times> 'x conn_info pool_client) list"
where
  "connect_step L P env key v st pool =
     (case st of
        CInit \<Rightarrow>
          (case pool_connecting key v pool of
             (pool1, Some cn) \<Rightarrow> (pool1, CConnecting cn, Going, [])
           | (pool1, None) \<Rightarrow> (pool1, CFinished, Finished (Inl (ClientError Canceled None)), []))
      | CConnecting cn \<Rightarrow>
          (case re_connector env of
             NotReady \<Rightarrow> (pool, CConnecting cn, Pending, [])
           | Ready (Inl e) \<Rightarrow>
               (drop_connecting cn pool, CFinished, Finished (Inl (client_error_new Connect e)), [])
           | Ready (Inr info) \<Rightarrow>
               (pool, if ci_h2 info \<and> v \<noteq> Http2Only then CUpgrade cn info else CHandshake cn info, Going, []))
      | CUpgrade cn info \<Rightarrow>
          (case alpn_h2 cn pool of
             (pool1, Some cn') \<Rightarrow> (pool1, CHandshake cn' info, Going, [])
           | (pool1, None) \<Rightarrow>
               (pool1, CFinished,
                Finished (Inl (client_error_new Canceled (Other ''ALPN upgraded to HTTP/2'' None))), []))
      | CHandshake cn info \<Rightarrow>
          (case handshake_poll env (v = Http2Only \<or> ci_h2 info) of
             NotReady \<Rightarrow> (pool, CHandshake cn info, Pending, [])
           | Ready (Inl e) \<Rightarrow> (drop_connecting cn pool, CFinished, Finished (Inl e), [])
           | Ready (Inr tx) \<Rightarrow>
               (case pool_pooled L P (re_closed env) (re_accepts env) (re_now env) cn
                       \<lparr>pc_info = info, pc_tx = tx\<rparr> pool of
                  (pool1, pl, sent) \<Rightarrow> (pool1, CFinished, Finished (Inr pl), sent)))
      | CFinished \<Rightarrow> (pool, CFinished, Pending, []))"

text \<open>Dropping the future before it is finished drops the guard it holds.\<close>

definition drop_connect :: "('k, 'x) connect_state \<Rightarrow> ('k, 'c) pool_inner option \<Rightarrow> ('k, 'c) pool_inner option" where
  "drop_connect st pool =
     (case st of
        CConnecting cn \<Rightarrow> drop_connecting cn pool
      | CUpgrade cn _ \<Rightarrow> drop_connecting cn pool
      | CHandshake cn _ \<Rightarrow> drop_connecting cn pool
      | _ \<Rightarrow> pool)"

section \<open>The race for a connection\<close>

datatype connect_error = Normal error | CheckoutIsClosed pool_error

definition pool_error_canceled :: "pool_error \<Rightarrow> bool" where
  "pool_error_canceled e \<longleftrightarrow> e = CheckedOutClosedValue"

fun client_is_canceled :: "error \<Rightarrow> bool" where
  "client_is_canceled (ClientError k _) = (k = Canceled)"
| "client_is_canceled _ = False"

text \<open>The states of \<^verbatim>\<open>one_connection_for\<close>: without a pool, the \<^verbatim>\<open>select\<close> about to poll its first and its second
  future, and the two branches that wait for the other future.\<close>

datatype ('k, 'x) race =
    Solo "('k, 'x) connect_state"
  | First "'k checkout" "('k, 'x) connect_state"
  | Second "'k checkout" "('k, 'x) connect_state"
  | AwaitConnect "('k, 'x) connect_state"
  | AwaitCheckout "'k checkout"
  | Over

definition race_start :: "'k \<Rightarrow> ('k, 'c) pool_inner option \<Rightarrow> ('k, 'x) race" where
  "race_start key pool = (if pool = None then Solo CInit else First (pool_checkout key) CInit)"

text \<open>The result names the connecting future that goes on in the background, if any.\<close>

definition race_step ::
  "('c, 'k, 'x conn_info pool_client idle list) lru_lib \<Rightarrow> 'x conn_info pool_client poolable \<Rightarrow> 'x race_env \<Rightarrow>
   'k \<Rightarrow> ver \<Rightarrow> bool \<Rightarrow> ('k, 'x) race \<Rightarrow> ('k, 'c) pool_inner option \<Rightarrow>
   ('k, 'c) pool_inner option \<times> ('k, 'x) race \<times>
   (connect_error, ('k, 'x conn_info pool_client) pooled) result progress \<times>
   ('k, 'x) connect_state option \<times> (nat \<times> 'x conn_info pool_client) list"
where
  "race_step L P env key v is_ver_h2 r pool =
     (case r of
        Solo c \<Rightarrow>
          (case connect_step L P env key v c pool of
             (pool1, c', Going, sent) \<Rightarrow> (pool1, Solo c', Going, None, sent)
           | (pool1, c', Pending, sent) \<Rightarrow> (pool1, Solo c', Pending, None, sent)
           | (pool1, c', Finished (Inr pl), sent) \<Rightarrow> (pool1, Over, Finished (Inr pl), None, sent)
           | (pool1, c', Finished (Inl e), sent) \<Rightarrow> (pool1, Over, Finished (Inl (Normal e)), None, sent))
      | First co c \<Rightarrow>
          (case checkout_poll L P (re_now env) (re_fresh env) (re_rx env) co pool of
             (pool1, co1, Ready (Inr pl)) \<Rightarrow>
               (pool1, Over, Finished (Inr pl), if started c then Some c else None, [])
           | (pool1, co1, Ready (Inl e)) \<Rightarrow>
               if pool_error_canceled e then (pool1, AwaitConnect c, Going, None, [])
               else (drop_connect c pool1, Over,
                     Finished (Inl (Normal (client_error_new Connect (PoolError e)))), None, [])
           | (pool1, co1, NotReady) \<Rightarrow> (pool1, Second co1 c, Going, None, []))
      | Second co c \<Rightarrow>
          (case connect_step L P env key v c pool of
             (pool1, c', Going, sent) \<Rightarrow> (pool1, Second co c', Going, None, sent)
           | (pool1, c', Pending, sent) \<Rightarrow> (pool1, First co c', Pending, None, sent)
           | (pool1, c', Finished (Inr pl), sent) \<Rightarrow>
               (drop_checkout (re_closed env) co pool1, Over, Finished (Inr pl), None, sent)
           | (pool1, c', Finished (Inl e), sent) \<Rightarrow>
               if client_is_canceled e then (pool1, AwaitCheckout co, Going, None, sent)
               else (drop_checkout (re_closed env) co pool1, Over, Finished (Inl (Normal e)), None, sent))
      | AwaitConnect c \<Rightarrow>
          (case connect_step L P env key v c pool of
             (pool1, c', Going, sent) \<Rightarrow> (pool1, AwaitConnect c', Going, None, sent)
           | (pool1, c', Pending, sent) \<Rightarrow> (pool1, AwaitConnect c', Pending, None, sent)
           | (pool1, c', Finished (Inr pl), sent) \<Rightarrow> (pool1, Over, Finished (Inr pl), None, sent)
           | (pool1, c', Finished (Inl e), sent) \<Rightarrow> (pool1, Over, Finished (Inl (Normal e)), None, sent))
      | AwaitCheckout co \<Rightarrow>
          (case checkout_poll L P (re_now env) (re_fresh env) (re_rx env) co pool of
             (pool1, co1, Ready (Inr pl)) \<Rightarrow> (pool1, Over, Finished (Inr pl), None, [])
           | (pool1, co1, Ready (Inl e)) \<Rightarrow>
               (pool1, Over,
                Finished (Inl (if is_ver_h2 \<and> pool_error_canceled e then CheckoutIsClosed e
                               else Normal (client_error_new Connect (PoolError e)))), None, [])
           | (pool1, co1, NotReady) \<Rightarrow> (pool1, AwaitCheckout co1, Pending, None, []))
      | Over \<Rightarrow> (pool, Over, Pending, None, []))"

text \<open>\<^verbatim>\<open>connection_for\<close>: the race starts again when the checkout it waited for got a closed connection.\<close>

definition connection_step ::
  "('c, 'k, 'x conn_info pool_client idle list) lru_lib \<Rightarrow> 'x conn_info pool_client poolable \<Rightarrow> 'x race_env \<Rightarrow>
   client_config \<Rightarrow> 'k \<Rightarrow> version option \<Rightarrow> ('k, 'x) race \<Rightarrow> ('k, 'c) pool_inner option \<Rightarrow>
   ('k, 'c) pool_inner option \<times> ('k, 'x) race \<times>
   (error, ('k, 'x conn_info pool_client) pooled) result progress \<times>
   ('k, 'x) connect_state option \<times> (nat \<times> 'x conn_info pool_client) list"
where
  "connection_step L P env cfg key dv r pool =
     (case race_step L P env key (connect_ver cfg dv) (hc_ver cfg = Http2Only) r pool of
        (pool1, r1, Going, bg, sent) \<Rightarrow> (pool1, r1, Going, bg, sent)
      | (pool1, r1, Pending, bg, sent) \<Rightarrow> (pool1, r1, Pending, bg, sent)
      | (pool1, r1, Finished (Inr pl), bg, sent) \<Rightarrow> (pool1, r1, Finished (Inr pl), bg, sent)
      | (pool1, r1, Finished (Inl (Normal e)), bg, sent) \<Rightarrow> (pool1, r1, Finished (Inl e), bg, sent)
      | (pool1, r1, Finished (Inl (CheckoutIsClosed e)), bg, sent) \<Rightarrow>
          if \<not> hc_retry_canceled cfg
          then (pool1, r1, Finished (Inl (client_error_new Connect (PoolError e))), bg, sent)
          else (pool1, race_start key pool1, Going, bg, sent))"

text \<open>The background task: a connection it finishes is dropped at once, which puts it into the pool.\<close>

definition background_step ::
  "('c, 'k, 'x conn_info pool_client idle list) lru_lib \<Rightarrow> 'x conn_info pool_client poolable \<Rightarrow> 'x race_env \<Rightarrow>
   'k \<Rightarrow> ver \<Rightarrow> ('k, 'x) connect_state \<Rightarrow> ('k, 'c) pool_inner option \<Rightarrow>
   ('k, 'c) pool_inner option \<times> ('k, 'x) connect_state \<times> (nat \<times> 'x conn_info pool_client) list"
where
  "background_step L P env key v c pool =
     (case connect_step L P env key v c pool of
        (pool1, c', Finished (Inr pl), sent) \<Rightarrow>
          (case drop_pooled L P (re_closed env) (re_accepts env) (re_now env) pl pool1 of
             (pool2, sent') \<Rightarrow> (pool2, c', sent @ sent'))
      | (pool1, c', _, sent) \<Rightarrow> (pool1, c', sent))"

section \<open>The client follows the pool's protocol\<close>

text \<open>What a race has in the pool system: its checkout and the guard of its connecting future.\<close>

definition connect_locks :: "('k, 'x) connect_state \<Rightarrow> 'k connecting list" where
  "connect_locks c =
     (case c of CConnecting cn \<Rightarrow> [cn] | CUpgrade cn _ \<Rightarrow> [cn] | CHandshake cn _ \<Rightarrow> [cn] | _ \<Rightarrow> [])"

definition race_locks :: "('k, 'x) race \<Rightarrow> 'k connecting list" where
  "race_locks r =
     (case r of Solo c \<Rightarrow> connect_locks c | First _ c \<Rightarrow> connect_locks c | Second _ c \<Rightarrow> connect_locks c
      | AwaitConnect c \<Rightarrow> connect_locks c | _ \<Rightarrow> [])"

definition race_checkouts :: "('k, 'x) race \<Rightarrow> 'k checkout list" where
  "race_checkouts r =
     (case r of First co _ \<Rightarrow> [co] | Second co _ \<Rightarrow> [co] | AwaitCheckout co \<Rightarrow> [co] | _ \<Rightarrow> [])"

text \<open>An HTTP/2 handshake is made only under the HTTP/2 lock of the host.\<close>

definition connect_ok :: "ver \<Rightarrow> ('k, 'x) connect_state \<Rightarrow> bool" where
  "connect_ok v c =
     (case c of
        CConnecting cn \<Rightarrow> cn_pool cn = (v = Http2Only)
      | CUpgrade cn info \<Rightarrow> \<not> cn_pool cn \<and> ci_h2 info
      | CHandshake cn info \<Rightarrow> v = Http2Only \<or> ci_h2 info \<longrightarrow> cn_pool cn
      | _ \<Rightarrow> True)"

definition race_ok :: "ver \<Rightarrow> ('k, 'x) race \<Rightarrow> bool" where
  "race_ok v r =
     (case r of Solo c \<Rightarrow> connect_ok v c | First _ c \<Rightarrow> connect_ok v c | Second _ c \<Rightarrow> connect_ok v c
      | AwaitConnect c \<Rightarrow> connect_ok v c | _ \<Rightarrow> True)"

text \<open>The rest of the system is \<open>C\<close>, the other checkouts, and \<open>K\<close>, the other guards.\<close>

definition race_in :: "('k, 'x) race \<Rightarrow> 'k checkout multiset \<Rightarrow> 'k connecting multiset \<Rightarrow> ('k, 't, 'c) pool_sys \<Rightarrow> bool" where
  "race_in r C K s \<longleftrightarrow>
     mset (sy_checkouts s) = mset (race_checkouts r) + C \<and> mset (sy_locks s) = mset (race_locks r) + K"

lemma mset_split:
  assumes "mset l = add_mset x M"
  obtains xs ys where "l = xs @ x # ys" "mset (xs @ ys) = M"
proof -
  have "x \<in> set l" using assms by (metis set_mset_mset union_single_eq_member)
  then obtain xs ys where "l = xs @ x # ys" by (meson split_list)
  with assms that show thesis by simp
qed

text \<open>What holds of a step's surroundings: a value is sent only to a live checkout, and a new HTTP/1 connection is
  new.\<close>

definition env_fits ::
  "('c, 'k, 'x conn_info pool_client idle list) lru_lib \<Rightarrow> 'x race_env \<Rightarrow> ('k, 'x conn_info pool_client, 'c) pool_sys \<Rightarrow> bool"
where
  "env_fits L env s \<longleftrightarrow>
     re_fresh env = sy_next s \<and> (\<forall>tx. re_accepts env tx \<longrightarrow> tx \<in> channels s) \<and>
     (\<forall>n info. re_http1 env = Ready (Inr n) \<longrightarrow> uses L s \<lparr>pc_info = info, pc_tx = Http1 n\<rparr> = 0)"

lemma connect_step_sim:
  assumes ok: "connect_ok v c" and locks: "mset (sy_locks s) = mset (connect_locks c) + K" and fits: "env_fits L env s"
    and step: "connect_step L ((client_poolable poisoned ready)\<lparr>po_is_open := opn\<rparr>) env key v c (Some (sy_pool s)) =
      (Some pin, c', out, sent)"
  shows "\<exists>s'. rtranclp (pool_step L (client_poolable poisoned ready)) s s' \<and> sy_pool s' = pin \<and> connect_ok v c' \<and>
     sy_checkouts s' = sy_checkouts s \<and> mset (sy_locks s') = mset (connect_locks c') + K \<and>
     (\<forall>pl. out = Finished (Inr pl) \<longrightarrow> sy_held s' = pl # sy_held s) \<and>
     (\<forall>x. out = Finished x \<longrightarrow> connect_locks c' = [])"
proof (cases c)
  case CInit
  obtain pool1 r where p: "pool_connecting key v (Some (sy_pool s)) = (pool1, r)" by (metis prod.exhaust)
  then have r: "pool1 = Some pin" using step CInit by (auto simp: connect_step_def split: option.split_asm)
  let ?s' = "s\<lparr>sy_pool := pin, sy_locks := (case r of Some cn \<Rightarrow> cn # sy_locks s | None \<Rightarrow> sy_locks s)\<rparr>"
  have "pool_step L (client_poolable poisoned ready) s ?s'" by (rule pool_step.connect) (use p r in simp)
  moreover have "cn_pool cn = (v = Http2Only)" if "r = Some cn" for cn
    using p that by (auto simp: pool_connecting_def split: if_split_asm)
  ultimately show ?thesis
    using step CInit p r locks
    by (intro exI [of _ ?s']) (auto simp: connect_step_def connect_ok_def connect_locks_def split: option.split_asm)
next
  case (CConnecting cn)
  show ?thesis
  proof (cases "\<exists>e. re_connector env = Ready (Inl e)")
    case False
    with step CConnecting ok locks show ?thesis
      by (intro exI [of _ s])
        (auto simp: connect_step_def connect_ok_def connect_locks_def split: poll.split_asm sum.split_asm)
  next
    case True
    then obtain e where e: "re_connector env = Ready (Inl e)" ..
    have l: "mset (sy_locks s) = add_mset cn K" using locks CConnecting by (simp add: connect_locks_def)
    obtain xs ys where xy: "sy_locks s = xs @ cn # ys" "mset (xs @ ys) = K" by (rule mset_split [OF l])
    have d: "drop_connecting cn (Some (sy_pool s)) = Some pin" "c' = CFinished"
      "out = Finished (Inl (client_error_new Connect e))"
      using step CConnecting e by (auto simp: connect_step_def)
    from pool_step.abort [OF xy(1) d(1)] xy(2) d(2,3) show ?thesis
      by (intro exI [of _ "s\<lparr>sy_pool := pin, sy_locks := xs @ ys\<rparr>"])
        (auto simp: connect_ok_def connect_locks_def)
  qed
next
  case (CUpgrade cn info)
  have l: "mset (sy_locks s) = add_mset cn K" using locks CUpgrade by (simp add: connect_locks_def)
  obtain xs ys where xy: "sy_locks s = xs @ cn # ys" "mset (xs @ ys) = K" by (rule mset_split [OF l])
  obtain pool1 r where p: "alpn_h2 cn (Some (sy_pool s)) = (pool1, r)" by (metis prod.exhaust)
  then have r: "pool1 = Some pin" using step CUpgrade by (auto simp: connect_step_def split: option.split_asm)
  let ?s' = "s\<lparr>sy_pool := pin, sy_locks := (case r of Some cn' \<Rightarrow> cn' # xs @ ys | None \<Rightarrow> xs @ ys)\<rparr>"
  have "pool_step L (client_poolable poisoned ready) s ?s'"
    by (rule pool_step.upgrade [OF xy(1)]) (use p r ok CUpgrade in \<open>simp_all add: connect_ok_def\<close>)
  moreover have "cn_pool cn'" if "r = Some cn'" for cn'
    using p that by (auto simp: alpn_h2_def pool_connecting_def split: if_split_asm)
  ultimately show ?thesis
    using step CUpgrade p r xy(2)
    by (intro exI [of _ ?s']) (auto simp: connect_step_def connect_ok_def connect_locks_def split: option.split_asm)
next
  case (CHandshake cn info)
  have l: "mset (sy_locks s) = add_mset cn K" using locks CHandshake by (simp add: connect_locks_def)
  obtain xs ys where xy: "sy_locks s = xs @ cn # ys" "mset (xs @ ys) = K" by (rule mset_split [OF l])
  let ?h2 = "v = Http2Only \<or> ci_h2 info"
  show ?thesis
  proof (cases "handshake_poll env ?h2")
    case NotReady
    with step CHandshake ok locks show ?thesis by (intro exI [of _ s]) (auto simp: connect_step_def)
  next
    case (Ready h)
    show ?thesis
    proof (cases h)
      case (Inl e)
      have d: "drop_connecting cn (Some (sy_pool s)) = Some pin" "c' = CFinished" "out = Finished (Inl e)"
        using step CHandshake Ready Inl by (auto simp: connect_step_def)
      from pool_step.abort [OF xy(1) d(1)] xy(2) d(2,3) show ?thesis
        by (intro exI [of _ "s\<lparr>sy_pool := pin, sy_locks := xs @ ys\<rparr>"])
          (auto simp: connect_ok_def connect_locks_def)
    next
      case (Inr tx)
      let ?t = "\<lparr>pc_info = info, pc_tx = tx\<rparr>"
      obtain pl where d: "pool_pooled L ((client_poolable poisoned ready)\<lparr>po_is_open := opn\<rparr>)
            (re_closed env) (re_accepts env) (re_now env) cn ?t (Some (sy_pool s)) = (Some pin, pl, sent)"
          "c' = CFinished" "out = Finished (Inr pl)"
        using step CHandshake Ready Inr by (auto simp: connect_step_def split: prod.split_asm)
      have tx: "case tx of Http1 n \<Rightarrow> \<not> ?h2 \<and> re_http1 env = Ready (Inr n) | Http2 n \<Rightarrow> ?h2"
        using Ready Inr by (auto simp: handshake_poll_def split: poll.split_asm sum.split_asm if_split_asm)
      have new: "\<not> po_can_share (client_poolable poisoned ready) ?t \<longrightarrow> uses L s ?t = 0"
        using tx fits by (auto simp: client_is_http2_def env_fits_def split: pool_tx.split_asm)
      have lock: "po_can_share (client_poolable poisoned ready) ?t \<longrightarrow> cn_pool cn"
        using tx ok CHandshake by (auto simp: client_is_http2_def connect_ok_def split: pool_tx.split_asm)
      have acc: "\<forall>tx. re_accepts env tx \<longrightarrow> tx \<in> channels s" using fits by (simp add: env_fits_def)
      from pool_step.established [OF xy(1) new lock acc d(1)] xy(2) d(2,3) show ?thesis
        by (intro exI [of _ "s\<lparr>sy_pool := pin, sy_held := pl # sy_held s, sy_inbox := sent @ sy_inbox s,
              sy_locks := xs @ ys\<rparr>"]) (auto simp: connect_ok_def connect_locks_def)
    qed
  qed
next
  case CFinished
  with step ok locks show ?thesis by (intro exI [of _ s]) (auto simp: connect_step_def)
qed

lemma checkout_sim:
  assumes cs: "mset (sy_checkouts s) = add_mset co C" and rx: "receives (sy_inbox s) (co_waiter co) (re_rx env) inbox"
    and fits: "env_fits L env s"
    and poll: "checkout_poll L ((client_poolable poisoned ready)\<lparr>po_is_open := opn\<rparr>) (re_now env) (re_fresh env)
      (re_rx env) co (Some (sy_pool s)) = (Some pin, co', out)"
  shows "\<exists>s'. pool_step L (client_poolable poisoned ready) s s' \<and> sy_pool s' = pin \<and> sy_locks s' = sy_locks s \<and>
     mset (sy_checkouts s') = (case out of NotReady \<Rightarrow> add_mset co' C | _ \<Rightarrow> C) \<and>
     (\<forall>pl. out = Ready (Inr pl) \<longrightarrow> pl \<in> set (sy_held s'))"
proof -
  obtain xs ys where xy: "sy_checkouts s = xs @ co # ys" "mset (xs @ ys) = C" by (rule mset_split [OF cs])
  have "re_fresh env = sy_next s" using fits by (simp add: env_fits_def)
  from pool_step.poll [OF xy(1) rx poll [unfolded this]] xy(2) show ?thesis
    by - (rule exI, rule conjI, assumption, auto split: poll.split sum.split)
qed

lemma drop_checkout_sim:
  assumes "mset (sy_checkouts s) = add_mset co C" "drop_checkout closed co (Some (sy_pool s)) = Some pin"
  shows "\<exists>s'. rtranclp (pool_step L P) s s' \<and> sy_pool s' = pin \<and> sy_locks s' = sy_locks s \<and>
     mset (sy_checkouts s') = C \<and> sy_held s' = sy_held s"
proof -
  obtain xs ys where xy: "sy_checkouts s = xs @ co # ys" "mset (xs @ ys) = C" by (rule mset_split [OF assms(1)])
  let ?s1 = "s\<lparr>sy_checkouts := xs @ ys, sy_inbox := filter (\<lambda>m. co_waiter co \<noteq> Some (fst m)) (sy_inbox s)\<rparr>"
  have 1: "pool_step L P s ?s1" by (rule pool_step.drop_receiver [OF xy(1)])
  show ?thesis
  proof (cases "co_waiter co")
    case None
    with assms(2) 1 xy(2) show ?thesis by (intro exI [of _ ?s1]) (auto simp: drop_checkout_def)
  next
    case (Some w)
    have "pool_step L P ?s1 (?s1\<lparr>sy_pool := clean_waiters closed (co_key co) (sy_pool ?s1)\<rparr>)" by (rule pool_step.clean)
    with 1 have "rtranclp (pool_step L P) s (?s1\<lparr>sy_pool := clean_waiters closed (co_key co) (sy_pool ?s1)\<rparr>)"
      by (meson r_into_rtranclp rtranclp.rtrancl_into_rtrancl)
    with assms(2) Some xy(2) show ?thesis by - (rule exI, rule conjI, assumption, auto simp: drop_checkout_def)
  qed
qed

lemma drop_connect_sim:
  assumes "mset (sy_locks s) = mset (connect_locks c) + K" "drop_connect c (Some (sy_pool s)) = Some pin"
  shows "\<exists>s'. rtranclp (pool_step L P) s s' \<and> sy_pool s' = pin \<and> mset (sy_locks s') = K \<and>
     sy_checkouts s' = sy_checkouts s \<and> sy_held s' = sy_held s"
proof (cases "connect_locks c")
  case Nil
  with assms show ?thesis
    by (intro exI [of _ s]) (auto simp: drop_connect_def connect_locks_def split: connect_state.split_asm)
next
  case (Cons cn l)
  then have l: "l = []" "drop_connecting cn (Some (sy_pool s)) = Some pin"
    using assms(2) by (auto simp: drop_connect_def connect_locks_def split: connect_state.split_asm)
  have m: "mset (sy_locks s) = add_mset cn K" using assms(1) Cons l(1) by simp
  obtain xs ys where xy: "sy_locks s = xs @ cn # ys" "mset (xs @ ys) = K" by (rule mset_split [OF m])
  from pool_step.abort [OF xy(1) l(2)] xy(2) show ?thesis
    by (intro exI [of _ "s\<lparr>sy_pool := pin, sy_locks := xs @ ys\<rparr>"]) auto
qed

lemma connect_step_Some:
  assumes "connect_step L P env key v c (Some q) = (pool1, c', out, sent)"
  shows "pool1 \<noteq> None"
  using assms
  by (auto simp: connect_step_def pool_connecting_def alpn_h2_def drop_connecting_def pool_pooled_def
      split: connect_state.split_asm poll.split_asm sum.split_asm if_split_asm prod.split_asm reservation.split_asm)

lemma checkout_poll_Some:
  assumes "checkout_poll L P now fresh rx co (Some q) = (pool1, co', out)"
  shows "pool1 \<noteq> None"
  using assms
  by (auto simp: checkout_poll_def poll_waiter_def checkout_idle_def Let_def
      split: poll.split_asm option.split_asm sum.split_asm prod.split_asm if_split_asm)

definition bg_locks :: "('k, 'x) connect_state option \<Rightarrow> 'k connecting list" where
  "bg_locks bg = (case bg of Some c \<Rightarrow> connect_locks c | None \<Rightarrow> [])"

lemmas race_defs = race_in_def race_ok_def race_locks_def race_checkouts_def bg_locks_def

text \<open>The two kinds of steps of a race, as runs of the pool system.\<close>

lemma race_connect_sim:
  assumes ok: "race_ok v r" and r: "(r, w) \<in> {(Solo c, Solo), (AwaitConnect c, AwaitConnect), (Second co c, Second co)}"
    and rin: "race_in r C K s" and fits: "env_fits L env s"
    and step: "connect_step L ((client_poolable poisoned ready)\<lparr>po_is_open := opn\<rparr>) env key v c (Some (sy_pool s)) =
      (Some p1, c', o1, sent)"
  shows "\<exists>s'. rtranclp (pool_step L (client_poolable poisoned ready)) s s' \<and> sy_pool s' = p1 \<and> race_ok v (w c') \<and>
     race_in (w c') C K s' \<and> (\<forall>pl. o1 = Finished (Inr pl) \<longrightarrow> pl \<in> set (sy_held s')) \<and>
     (\<forall>x. o1 = Finished x \<longrightarrow> connect_locks c' = [])"
proof -
  have c: "connect_ok v c" "mset (sy_locks s) = mset (connect_locks c) + K"
    using ok rin r by (auto simp: race_defs)
  from connect_step_sim [OF c fits step] obtain s' where
    s': "rtranclp (pool_step L (client_poolable poisoned ready)) s s'" "sy_pool s' = p1" "connect_ok v c'"
      "sy_checkouts s' = sy_checkouts s" "mset (sy_locks s') = mset (connect_locks c') + K"
      "\<forall>pl. o1 = Finished (Inr pl) \<longrightarrow> sy_held s' = pl # sy_held s"
      "\<forall>x. o1 = Finished x \<longrightarrow> connect_locks c' = []" by blast
  from s' r rin show ?thesis by (intro exI [of _ s']) (auto simp: race_defs)
qed

lemma race_step_sim:
  assumes ok: "race_ok v r" and rin: "race_in r C K s" and fits: "env_fits L env s"
    and rx: "\<forall>co \<in> set (race_checkouts r). receives (sy_inbox s) (co_waiter co) (re_rx env) inbox"
    and step: "race_step L ((client_poolable poisoned ready)\<lparr>po_is_open := opn\<rparr>) env key v h2 r (Some (sy_pool s)) =
      (pool', r', out, bg, sent)"
  shows "\<exists>s'. rtranclp (pool_step L (client_poolable poisoned ready)) s s' \<and> pool' = Some (sy_pool s') \<and> race_ok v r' \<and>
     race_in r' C (K + mset (bg_locks bg)) s' \<and> (\<forall>pl. out = Finished (Inr pl) \<longrightarrow> pl \<in> set (sy_held s')) \<and>
     (\<forall>x. out = Finished x \<longrightarrow> r' = Over)"
proof -
  let ?P = "client_poolable poisoned ready"
  have connect: ?thesis if r: "(r, w) \<in> {(Solo c, Solo), (AwaitConnect c, AwaitConnect)}" "w c = r" for w c
  proof -
    obtain p1 c' o1 sent1 where cs: "connect_step L (?P\<lparr>po_is_open := opn\<rparr>) env key v c (Some (sy_pool s)) =
        (Some p1, c', o1, sent1)"
      using connect_step_Some by (metis option.exhaust prod_cases4)
    from r(1) have r2: "(r, w) \<in> {(Solo c, Solo), (AwaitConnect c, AwaitConnect), (Second undefined c, Second undefined)}"
      by blast
    from race_connect_sim [OF ok r2 rin fits cs] obtain s' where
      s': "rtranclp (pool_step L ?P) s s'" "sy_pool s' = p1" "race_ok v (w c')" "race_in (w c') C K s'"
        "\<forall>pl. o1 = Finished (Inr pl) \<longrightarrow> pl \<in> set (sy_held s')" "\<forall>x. o1 = Finished x \<longrightarrow> connect_locks c' = []"
      by blast
    have out: "pool' = Some p1 \<and> bg = None \<and> r' = (case o1 of Finished _ \<Rightarrow> Over | _ \<Rightarrow> w c')"
      "out = Finished (Inr pl) \<Longrightarrow> o1 = Finished (Inr pl)" "out = Finished x \<Longrightarrow> \<exists>y. o1 = Finished y" for pl x
      using step r(1) cs by (auto simp: race_step_def split: progress.split_asm sum.split_asm)
    show ?thesis
    proof (cases "\<exists>y. o1 = Finished y")
      case True
      then have "race_in Over C K s'" using s'(4,6) r(1) by (auto simp: race_defs)
      with True s' out show ?thesis by (intro exI [of _ s']) (auto simp: race_ok_def bg_locks_def)
    next
      case False
      then have "r' = w c'" using out(1) by (cases o1) auto
      with False s' out show ?thesis by (intro exI [of _ s']) (auto simp: bg_locks_def)
    qed
  qed
  show ?thesis
  proof (cases r)
    case (Solo c)
    show ?thesis by (rule connect [of Solo c]) (use Solo in blast)+
  next
    case (AwaitConnect c)
    show ?thesis by (rule connect [of AwaitConnect c]) (use AwaitConnect in blast)+
  next
    case Over
    with step rin show ?thesis by (intro exI [of _ s]) (auto simp: race_step_def race_defs)
  next
    case (First co c)
    obtain p1 co1 o1 where cp: "checkout_poll L (?P\<lparr>po_is_open := opn\<rparr>) (re_now env) (re_fresh env) (re_rx env) co
        (Some (sy_pool s)) = (Some p1, co1, o1)"
      using checkout_poll_Some by (metis option.exhaust prod_cases3)
    have m: "mset (sy_checkouts s) = add_mset co C" "receives (sy_inbox s) (co_waiter co) (re_rx env) inbox"
      using rin rx First by (simp_all add: race_defs)
    from checkout_sim [OF m fits cp] obtain s1 where
      s1: "pool_step L ?P s s1" "sy_pool s1 = p1" "sy_locks s1 = sy_locks s"
        "mset (sy_checkouts s1) = (case o1 of NotReady \<Rightarrow> add_mset co1 C | _ \<Rightarrow> C)"
        "\<forall>pl. o1 = Ready (Inr pl) \<longrightarrow> pl \<in> set (sy_held s1)" by blast
    have k: "mset (sy_locks s1) = mset (connect_locks c) + K" using rin First s1(3) by (simp add: race_defs)
    show ?thesis
    proof (cases "\<exists>e. o1 = Ready (Inl e) \<and> \<not> pool_error_canceled e")
      case False
      have un: "\<not> started c \<Longrightarrow> connect_locks c = []"
        by (cases c) (simp_all add: started_def connect_locks_def)
      from False step First cp s1 ok k un show ?thesis
        by (intro exI [of _ s1])
          (auto simp: race_step_def race_defs union_commute split: poll.split_asm sum.split_asm if_split_asm)
    next
      case True
      then obtain e where e: "o1 = Ready (Inl e)" "\<not> pool_error_canceled e" by blast
      have "drop_connect c (Some (sy_pool s1)) \<noteq> None"
        by (cases c) (simp_all add: drop_connect_def drop_connecting_def)
      then obtain pin where d: "drop_connect c (Some (sy_pool s1)) = Some pin" by blast
      from drop_connect_sim [OF k d] obtain s2 where
        s2: "rtranclp (pool_step L ?P) s1 s2" "sy_pool s2 = pin" "mset (sy_locks s2) = K"
          "sy_checkouts s2 = sy_checkouts s1" "sy_held s2 = sy_held s1" by blast
      have "rtranclp (pool_step L ?P) s s2" using s1(1) s2(1) by (rule converse_rtranclp_into_rtranclp)
      with step First cp e d s1 s2 show ?thesis
        by (intro exI [of _ s2]) (auto simp: race_step_def race_defs)
    qed
  next
    case (AwaitCheckout co)
    obtain p1 co1 o1 where cp: "checkout_poll L (?P\<lparr>po_is_open := opn\<rparr>) (re_now env) (re_fresh env) (re_rx env) co
        (Some (sy_pool s)) = (Some p1, co1, o1)"
      using checkout_poll_Some by (metis option.exhaust prod_cases3)
    have m: "mset (sy_checkouts s) = add_mset co C" "receives (sy_inbox s) (co_waiter co) (re_rx env) inbox"
      using rin rx AwaitCheckout by (simp_all add: race_defs)
    from checkout_sim [OF m fits cp] obtain s1 where
      s1: "pool_step L ?P s s1" "sy_pool s1 = p1" "sy_locks s1 = sy_locks s"
        "mset (sy_checkouts s1) = (case o1 of NotReady \<Rightarrow> add_mset co1 C | _ \<Rightarrow> C)"
        "\<forall>pl. o1 = Ready (Inr pl) \<longrightarrow> pl \<in> set (sy_held s1)" by blast
    from step AwaitCheckout cp s1 rin show ?thesis
      by (intro exI [of _ s1]) (auto simp: race_step_def race_defs split: poll.split_asm sum.split_asm)
  next
    case (Second co c)
    obtain p1 c' o1 sent1 where cs: "connect_step L (?P\<lparr>po_is_open := opn\<rparr>) env key v c (Some (sy_pool s)) =
        (Some p1, c', o1, sent1)"
      using connect_step_Some by (metis option.exhaust prod_cases4)
    from Second have r2: "(r, Second co) \<in> {(Solo c, Solo), (AwaitConnect c, AwaitConnect), (Second co c, Second co)}"
      by blast
    from race_connect_sim [OF ok r2 rin fits cs] obtain s1 where
      s1: "rtranclp (pool_step L ?P) s s1" "sy_pool s1 = p1" "race_ok v (Second co c')" "race_in (Second co c') C K s1"
        "\<forall>pl. o1 = Finished (Inr pl) \<longrightarrow> pl \<in> set (sy_held s1)" "\<forall>x. o1 = Finished x \<longrightarrow> connect_locks c' = []"
      by blast
    show ?thesis
    proof (cases "o1 = Going \<or> o1 = Pending \<or> (\<exists>e. o1 = Finished (Inl e) \<and> client_is_canceled e)")
      case True
      with step Second cs s1 show ?thesis
        by (intro exI [of _ s1]) (auto simp: race_step_def race_defs)
    next
      case False
      have "drop_checkout (re_closed env) co (Some (sy_pool s1)) \<noteq> None" by (simp add: drop_checkout_def)
      then obtain pin where d: "drop_checkout (re_closed env) co (Some (sy_pool s1)) = Some pin" by blast
      have m: "mset (sy_checkouts s1) = add_mset co C" using s1(4) by (simp add: race_defs)
      from drop_checkout_sim [OF m d] obtain s2 where
        s2: "rtranclp (pool_step L ?P) s1 s2" "sy_pool s2 = pin" "sy_locks s2 = sy_locks s1"
          "mset (sy_checkouts s2) = C" "sy_held s2 = sy_held s1" by blast
      have run: "rtranclp (pool_step L ?P) s s2" using s1(1) s2(1) by (rule rtranclp_trans)
      obtain x where x: "o1 = Finished x" using False by (cases o1) auto
      have res: "pool' = Some pin" "r' = Over" "bg = None"
        using step Second cs False d s1(2) x by (auto simp: race_step_def split: sum.split_asm if_split_asm)
      have fin: "out = Finished (Inr pl) \<Longrightarrow> o1 = Finished (Inr pl)" for pl
        using step Second cs x by (auto simp: race_step_def split: sum.split_asm if_split_asm)
      show ?thesis
        using run res fin s1 s2 x by (intro exI [of _ s2]) (auto simp: race_defs)
    qed
  qed
qed

lemma pool_reachable_run:
  assumes "rtranclp (pool_step L P) s s'" "pool_reachable L P s"
  shows "pool_reachable L P s'"
  using assms by (induction) (auto intro: pool_reachable.step)

text \<open>C5: the client keeps to the pool's protocol.  Take any reachable state of the pool system in which a race for a
  connection owns its checkout and its guard, beside any others.  A step of \<^verbatim>\<open>connection_for\<close> is then a run of the
  pool system, to a reachable state in which the race again owns exactly what it should: HTTP/2 connections are
  established only under the HTTP/2 lock, a finished race leaves neither a checkout nor a guard behind, except
  the guard of a connecting future that goes on in the background, and the connection it returns is one the
  system knows as checked out.  So everything shown of reachable pool states holds of the client.\<close>

theorem connection_follows_pool:
  assumes "pool_reachable L (client_poolable poisoned ready) s"
    and "race_ok (connect_ver cfg dv) r" and "race_in r C K s" and "env_fits L env s"
    and "\<forall>co \<in> set (race_checkouts r). receives (sy_inbox s) (co_waiter co) (re_rx env) inbox"
    and "connection_step L ((client_poolable poisoned ready)\<lparr>po_is_open := opn\<rparr>) env cfg key dv r (Some (sy_pool s)) =
      (pool', r', out, bg, sent)"
  shows "\<exists>s'. rtranclp (pool_step L (client_poolable poisoned ready)) s s' \<and>
     pool_reachable L (client_poolable poisoned ready) s' \<and> pool' = Some (sy_pool s') \<and>
     race_ok (connect_ver cfg dv) r' \<and> race_in r' C (K + mset (bg_locks bg)) s' \<and>
     (\<forall>x. out = Finished x \<longrightarrow> r' = Over) \<and> (\<forall>pl. out = Finished (Inr pl) \<longrightarrow> pl \<in> set (sy_held s'))"
proof -
  let ?P = "client_poolable poisoned ready"
  obtain pool1 r1 o1 bg1 sent1 where
    rs: "race_step L (?P\<lparr>po_is_open := opn\<rparr>) env key (connect_ver cfg dv) (hc_ver cfg = Http2Only) r (Some (sy_pool s)) =
      (pool1, r1, o1, bg1, sent1)"
    by (metis prod_cases5)
  from race_step_sim [OF assms(2-5) rs] obtain s1 where
    s1: "rtranclp (pool_step L ?P) s s1" "pool1 = Some (sy_pool s1)" "race_ok (connect_ver cfg dv) r1"
      "race_in r1 C (K + mset (bg_locks bg1)) s1" "\<forall>pl. o1 = Finished (Inr pl) \<longrightarrow> pl \<in> set (sy_held s1)"
      "\<forall>x. o1 = Finished x \<longrightarrow> r1 = Over" by blast
  note cs = assms(6) [unfolded connection_step_def rs]
  show ?thesis
  proof (cases "(\<exists>e. o1 = Finished (Inl (CheckoutIsClosed e))) \<and> hc_retry_canceled cfg")
    case False
    with cs s1 pool_reachable_run [OF s1(1) assms(1)] show ?thesis
      by (intro exI [of _ s1])
        (auto split: progress.split_asm sum.split_asm connect_error.split_asm if_split_asm)
  next
    case True
    let ?s2 = "s1\<lparr>sy_checkouts := pool_checkout key # sy_checkouts s1\<rparr>"
    have "pool_step L ?P s1 ?s2" by (rule pool_step.checkout)
    with s1(1) have run: "rtranclp (pool_step L ?P) s ?s2" by (rule rtranclp.rtrancl_into_rtrancl)
    from True cs s1 run pool_reachable_run [OF run assms(1)] show ?thesis
      by (intro exI [of _ ?s2]) (auto simp: race_start_def race_defs connect_ok_def connect_locks_def)
  qed
qed

section \<open>A connection is established\<close>

definition sample_race_env :: "unit race_env" where
  "sample_race_env =
     \<lparr>re_now = 5, re_fresh = 0, re_rx = NotReady, re_closed = (\<lambda>_. False), re_accepts = (\<lambda>_. False),
      re_connector = NotReady, re_http1 = Ready (Inr 3), re_http2 = NotReady\<rparr>"

definition sample_race :: "(nat, unit) race" where
  "sample_race = Second (pool_checkout 7) (CHandshake \<lparr>cn_key = 7, cn_pool = False\<rparr> (conn_info_new 0))"

definition sample_race_pool :: "(nat, nat option \<times> (nat \<times> unit conn_info pool_client idle list) list) pool_inner" where
  "sample_race_pool =
     \<lparr>pi_connecting = [], pi_idle = (None, []), pi_max_idle = 2, pi_waiters = [], pi_interval = None,
      pi_timer = True, pi_timeout = Some 100\<rparr>"

theorem connection_follows_pool_witness:
  "\<exists>s' pl. pool_reachable sample_lru (client_poolable (\<lambda>_. False) (\<lambda>_. True)) s' \<and> pl \<in> set (sy_held s') \<and>
     pl_value pl = (sample_client (Http1 3) :: unit conn_info pool_client) \<and> sy_locks s' = [] \<and>
     sy_checkouts s' = ([] :: nat checkout list)"
proof -
  let ?P = "client_poolable (\<lambda>_. False) (\<lambda>_. True) :: unit conn_info pool_client poolable"
  let ?s0 = "pool_start sample_race_pool :: (nat, unit conn_info pool_client, _) pool_sys"
  let ?s1 = "?s0\<lparr>sy_checkouts := pool_checkout 7 # sy_checkouts ?s0\<rparr>"
  let ?s2 = "?s1\<lparr>sy_pool := sample_race_pool, sy_locks := (case Some \<lparr>cn_key = 7, cn_pool = False\<rparr> of
      Some cn \<Rightarrow> cn # sy_locks ?s1 | None \<Rightarrow> sy_locks ?s1)\<rparr>"
  have "pool_reachable sample_lru ?P ?s0"
    by (rule pool_reachable.start [of _ "\<lparr>pg_idle_timeout = Some 100, pg_max_idle_per_host = 2,
        pg_max_pool_size = None\<rparr>" True])
      (simp add: pool_new_def pool_is_enabled_def sample_lru_def sample_race_pool_def)
  moreover have "pool_step sample_lru ?P ?s0 ?s1" by (rule pool_step.checkout)
  ultimately have "pool_reachable sample_lru ?P ?s1" by (rule pool_reachable.step)
  moreover have "pool_step sample_lru ?P ?s1 ?s2"
    by (rule pool_step.connect [of 7 Auto]) (simp add: pool_connecting_def pool_start_def)
  ultimately have reach: "pool_reachable sample_lru ?P ?s2" by (rule pool_reachable.step)
  have ok: "race_ok (connect_ver sample_client_config None) sample_race"
    by (simp add: sample_race_def race_ok_def connect_ok_def connect_ver_def sample_client_config_def conn_info_new_def)
  have rin: "race_in sample_race {#} {#} ?s2"
    by (simp add: sample_race_def race_in_def race_checkouts_def race_locks_def connect_locks_def pool_start_def)
  have fits: "env_fits sample_lru sample_race_env ?s2"
    by (simp add: env_fits_def sample_race_env_def uses_def idle_count_def pool_start_def sample_race_pool_def
        sample_lru_def)
  have rx: "\<forall>co \<in> set (race_checkouts sample_race).
      receives (sy_inbox ?s2) (co_waiter co) (re_rx sample_race_env) (sy_inbox ?s2)"
    by (simp add: sample_race_env_def receives.simps)
  let ?pl = "\<lparr>pl_value = sample_client (Http1 3), pl_is_reused = False, pl_key = 7 :: nat, pl_pool = True\<rparr>"
  have step: "connection_step sample_lru (?P\<lparr>po_is_open := \<lambda>_. True\<rparr>) sample_race_env sample_client_config 7 None
      sample_race (Some (sy_pool ?s2)) = (Some sample_race_pool, Over, Finished (Inr ?pl), None, [])"
    by (simp add: connection_step_def race_step_def connect_step_def sample_race_def handshake_poll_def
        sample_race_env_def connect_ver_def sample_client_config_def pool_pooled_def client_reserve_def
        drop_connecting_def drop_checkout_def pool_checkout_def conn_info_new_def sample_client_def)
  from connection_follows_pool [OF reach ok rin fits rx step] obtain s' where
    "pool_reachable sample_lru ?P s'" "race_in (Over :: (nat, unit) race) {#} {#} s'" "?pl \<in> set (sy_held s')"
    by (auto simp: bg_locks_def)
  then show ?thesis
    by (intro exI [of _ s'] exI [of _ ?pl]) (simp add: race_in_def race_checkouts_def race_locks_def)
qed

text \<open>Whether a closed connection makes the client try again depends on the version of the client, not on that
  of the request: a request for HTTP/2 on a client without a fixed version fails.\<close>

theorem request_version_not_retried:
  assumes "hc_retry_canceled cfg" "co_waiter co = Some tx" "re_rx env = Ready (Some v)" "\<not> po_is_open P v"
  shows "hc_ver cfg = Auto \<Longrightarrow> connection_step L P env cfg key (Some HTTP_2) (AwaitCheckout co) (Some pin) =
      (Some pin, Over, Finished (Inl (client_error_new Connect (PoolError CheckedOutClosedValue))), None, [])"
    and "hc_ver cfg = Http2Only \<Longrightarrow> connection_step L P env cfg key (Some HTTP_2) (AwaitCheckout co) (Some pin) =
      (Some pin, First (pool_checkout key) CInit, Going, None, [])"
  using assms
  by (simp_all add: connection_step_def race_step_def checkout_poll_def poll_waiter_def pool_error_canceled_def
      race_start_def)

end
