(* ===== verification/Multipart.thy ===== *)
theory Multipart
  imports Request_Model
begin

text \<open>
  Multipart forms (\<^verbatim>\<open>client/multipart.rs\<close>): parts and their metadata, the encoding of the header block, the length that
  is announced and the stream that is sent.  Percent encoding belongs to the crate \<^verbatim>\<open>percent_encoding\<close> and is a parameter; a
  boxed body is named by a number, and \<open>frames\<close> says which items its stream yields.

  Shown: the announced length is the number of bytes sent, and a receiver that splits the body at the boundary gets exactly
  the header lines and the contents of the parts.
\<close>

section \<open>Parts\<close>

record part_metadata =
  pm_mime :: "string option"
  pm_file_name :: "string option"
  pm_headers :: header_map

record part =
  pt_meta :: part_metadata
  pt_value :: body
  pt_length :: "64 word option"

definition part_metadata_new :: part_metadata where
  "part_metadata_new = \<lparr>pm_mime = None, pm_file_name = None, pm_headers = []\<rparr>"

definition part_new :: "body \<Rightarrow> 64 word option \<Rightarrow> part" where
  "part_new value len = \<lparr>pt_meta = part_metadata_new, pt_value = value, pt_length = len\<rparr>"

definition part_text :: "string \<Rightarrow> part" where
  "part_text value = part_new (Full value) None"

definition part_bytes :: "string \<Rightarrow> part" where
  "part_bytes value = part_new (Full value) None"

definition part_stream_value :: "body \<Rightarrow> part" where
  "part_stream_value value = part_new value None"

definition part_stream_with_length :: "body \<Rightarrow> 64 word \<Rightarrow> part" where
  "part_stream_with_length value len = part_new value (Some len)"

definition with_inner :: "(part_metadata \<Rightarrow> part_metadata) \<Rightarrow> part \<Rightarrow> part" where
  "with_inner f p = p\<lparr>pt_meta := f (pt_meta p)\<rparr>"

definition part_mime :: "string \<Rightarrow> part \<Rightarrow> part" where
  "part_mime m = with_inner (\<lambda>inner. inner\<lparr>pm_mime := Some m\<rparr>)"

text \<open>\<open>parsed\<close> is what the parser of media types returns.\<close>

definition part_mime_str :: "(error, string) result \<Rightarrow> part \<Rightarrow> (error, part) result" where
  "part_mime_str parsed p =
     (case parsed of Inl e \<Rightarrow> Inl (err_builder e) | Inr m \<Rightarrow> Inr (part_mime m p))"

definition part_file_name :: "string \<Rightarrow> part \<Rightarrow> part" where
  "part_file_name n = with_inner (\<lambda>inner. inner\<lparr>pm_file_name := Some n\<rparr>)"

definition part_headers :: "header_map \<Rightarrow> part \<Rightarrow> part" where
  "part_headers h = with_inner (\<lambda>inner. inner\<lparr>pm_headers := h\<rparr>)"

text \<open>\<^verbatim>\<open>Part::file\<close>: \<open>name\<close> and \<open>mime\<close> are read off the path, \<open>opened\<close> is the outcome of opening the file and \<open>len\<close> that of
  reading its metadata.\<close>

definition part_file ::
  "string option \<Rightarrow> string \<Rightarrow> (error, body) result \<Rightarrow> 64 word option \<Rightarrow> (error, part) result"
where
  "part_file name mime opened len =
     (case opened of
        Inl e \<Rightarrow> Inl e
      | Inr file \<Rightarrow>
          (let field = part_mime mime
                 (case len of Some n \<Rightarrow> part_stream_with_length file n | None \<Rightarrow> part_stream_value file)
           in Inr (case name of Some n \<Rightarrow> part_file_name n field | None \<Rightarrow> field)))"

definition value_len :: "part \<Rightarrow> 64 word option" where
  "value_len p =
     (case pt_length p of Some n \<Rightarrow> Some n | None \<Rightarrow> map_option of_nat (body_exact (pt_value p)))"

section \<open>Header blocks\<close>

datatype percent_encoding = PathSegment | AttrChar | NoOp

definition path_segment_set :: "char \<Rightarrow> bool" where
  "path_segment_set c \<longleftrightarrow> path_set c \<or> c = CHR ''/'' \<or> c = CHR ''%''"

definition attr_char_set :: "char \<Rightarrow> bool" where
  "attr_char_set c \<longleftrightarrow>
     (let n = (of_char c :: nat)
      in n < 128 \<and> \<not> (48 \<le> n \<and> n \<le> 57 \<or> 65 \<le> n \<and> n \<le> 90 \<or> 97 \<le> n \<and> n \<le> 122)) \<and>
     c \<notin> set (''!#$&+-.^_'' @ [CHR 0x60, CHR ''|'', CHR ''~''])"

text \<open>\<open>enc P s\<close> is the text of \<^verbatim>\<open>utf8_percent_encode\<close>, with whether the conversion to a \<^verbatim>\<open>Cow\<close> gives an owned string.\<close>

type_synonym percent_encoder = "(char \<Rightarrow> bool) \<Rightarrow> string \<Rightarrow> bool \<times> string"

fun percent_encode :: "percent_encoder \<Rightarrow> percent_encoding \<Rightarrow> string \<Rightarrow> bool \<times> string" where
  "percent_encode enc PathSegment v = enc path_segment_set v"
| "percent_encode enc AttrChar v = enc attr_char_set v"
| "percent_encode enc NoOp v = (False, v)"

definition replace_char :: "char \<Rightarrow> string \<Rightarrow> string \<Rightarrow> string" where
  "replace_char c by s = concat (map (\<lambda>x. if x = c then by else [x]) s)"

definition legal_filename :: "string \<Rightarrow> string" where
  "legal_filename f =
     replace_char CHR 0x0A [CHR 0x5C, CHR 0x0A]
      (replace_char CHR 0x0D [CHR 0x5C, CHR 0x0D]
        (replace_char CHR 0x22 [CHR 0x5C, CHR 0x22]
          (replace_char CHR 0x5C [CHR 0x5C, CHR 0x5C] f)))"

definition encode_headers :: "percent_encoder \<Rightarrow> percent_encoding \<Rightarrow> string \<Rightarrow> part_metadata \<Rightarrow> string" where
  "encode_headers enc pe name field =
     ''Content-Disposition: form-data; '' @
     (case percent_encode enc pe name of
        (False, v) \<Rightarrow> ''name='' @ [CHR 0x22] @ v @ [CHR 0x22]
      | (True, v) \<Rightarrow> ''name*=utf-8'' @ [CHR 0x27, CHR 0x27] @ v) @
     (case pm_file_name field of
        Some f \<Rightarrow> ''; filename='' @ [CHR 0x22] @ legal_filename f @ [CHR 0x22]
      | None \<Rightarrow> []) @
     (case pm_mime field of Some m \<Rightarrow> crlf @ ''Content-Type: '' @ m | None \<Rightarrow> []) @
     concat (map (\<lambda>(k, v). crlf @ k @ '': '' @ hv_bytes v) (hdr_iter (pm_headers field)))"

section \<open>Forms\<close>

record form =
  fm_boundary :: string
  fm_computed_headers :: "string list"
  fm_fields :: "(string \<times> part) list"
  fm_encoding :: percent_encoding

definition with_boundary :: "string \<Rightarrow> form" where
  "with_boundary b = \<lparr>fm_boundary = b, fm_computed_headers = [], fm_fields = [], fm_encoding = PathSegment\<rparr>"

definition form_part :: "string \<Rightarrow> part \<Rightarrow> form \<Rightarrow> form" where
  "form_part name p f = f\<lparr>fm_fields := fm_fields f @ [(name, p)]\<rparr>"

definition form_text :: "string \<Rightarrow> string \<Rightarrow> form \<Rightarrow> form" where
  "form_text name value = form_part name (part_text value)"

definition form_file ::
  "string \<Rightarrow> string option \<Rightarrow> string \<Rightarrow> (error, body) result \<Rightarrow> 64 word option \<Rightarrow> form \<Rightarrow> (error, form) result"
where
  "form_file name fname mime opened len f =
     map_sum id (\<lambda>p. form_part name p f) (part_file fname mime opened len)"

definition percent_encode_path_segment :: "form \<Rightarrow> form" where
  "percent_encode_path_segment f = f\<lparr>fm_encoding := PathSegment\<rparr>"

definition percent_encode_attr_chars :: "form \<Rightarrow> form" where
  "percent_encode_attr_chars f = f\<lparr>fm_encoding := AttrChar\<rparr>"

definition percent_encode_noop :: "form \<Rightarrow> form" where
  "percent_encode_noop f = f\<lparr>fm_encoding := NoOp\<rparr>"

type_synonym stream_item = "(error, string) result"

text \<open>\<^verbatim>\<open>into_data_stream\<close> of a body: a full body yields its bytes at once if there are any.\<close>

fun data_stream :: "(nat \<Rightarrow> stream_item list) \<Rightarrow> body \<Rightarrow> stream_item list" where
  "data_stream frames (Full b) = (if b = [] then [] else [Inr b])"
| "data_stream frames (Boxed i _) = frames i"

definition part_stream ::
  "percent_encoder \<Rightarrow> (nat \<Rightarrow> stream_item list) \<Rightarrow> form \<Rightarrow> string \<Rightarrow> part \<Rightarrow> stream_item list"
where
  "part_stream enc frames f name p =
     [Inr (''--'' @ fm_boundary f @ crlf)] @
     [Inr (encode_headers enc (fm_encoding f) name (pt_meta p) @ crlf @ crlf)] @
     data_stream frames (pt_value p) @ [Inr crlf]"

definition form_into_stream :: "percent_encoder \<Rightarrow> (nat \<Rightarrow> stream_item list) \<Rightarrow> form \<Rightarrow> stream_item list" where
  "form_into_stream enc frames f =
     (case fm_fields f of
        [] \<Rightarrow> []
      | (name, p) # rest \<Rightarrow>
          fold (\<lambda>(name, p) memo. memo @ part_stream enc frames f name p) rest (part_stream enc frames f name p) @
          [Inr (''--'' @ fm_boundary f @ ''--'' @ crlf)])"

text \<open>\<^verbatim>\<open>Form::stream\<close>: \<open>fresh\<close> names the boxed stream, whose items are \<^const>\<open>form_into_stream\<close>.\<close>

definition form_stream :: "nat \<Rightarrow> form \<Rightarrow> body" where
  "form_stream fresh f = (if fm_fields f = [] then body_empty else Boxed fresh None)"

text \<open>Lengths are 64-bit and wrap around, as they do without overflow checks; the headers computed so far stay with the
  form when a part has no known length.\<close>

fun length_loop ::
  "percent_encoder \<Rightarrow> form \<Rightarrow> (string \<times> part) list \<Rightarrow> 64 word \<Rightarrow> string list \<Rightarrow> 64 word option \<times> string list"
where
  "length_loop enc f [] len hs = (Some len, hs)"
| "length_loop enc f ((name, p) # rest) len hs =
     (case value_len p of
        Some vl \<Rightarrow>
          (let header = encode_headers enc (fm_encoding f) name (pt_meta p)
           in length_loop enc f rest
                (len + (2 + of_nat (length (fm_boundary f)) + 2 + of_nat (length header) + 4 + vl + 2)) (hs @ [header]))
      | None \<Rightarrow> (None, hs))"

definition compute_length :: "percent_encoder \<Rightarrow> form \<Rightarrow> 64 word option \<times> form" where
  "compute_length enc f =
     (let (len, hs) = length_loop enc f (fm_fields f) 0 (fm_computed_headers f);
          f' = f\<lparr>fm_computed_headers := hs\<rparr>
      in (case len of
            None \<Rightarrow> None
          | Some n \<Rightarrow> Some (if fm_fields f \<noteq> [] then n + (2 + of_nat (length (fm_boundary f)) + 4) else n), f'))"

section \<open>Boundaries\<close>

definition boundary_prefix :: string where
  "boundary_prefix = ''----WebKitFormBoundary''"

definition alpha_numeric_encoding_map :: string where
  "alpha_numeric_encoding_map = ''ABCDEFGHIJKLMNOPQRSTUVWXYZabcdefghijklmnopqrstuvwxyz0123456789AB''"

fun random_chars :: "nat \<Rightarrow> 64 word \<Rightarrow> string" where
  "random_chars 0 r = []"
| "random_chars (Suc n) r =
     alpha_numeric_encoding_map ! unat (and r 0x3F) # random_chars n (drop_bit 6 r)"

text \<open>\<open>r1\<close> and \<open>r2\<close> are the two random numbers.\<close>

definition gen_boundary :: "64 word \<Rightarrow> 64 word \<Rightarrow> string" where
  "gen_boundary r1 r2 = boundary_prefix @ random_chars 8 r1 @ random_chars 8 r2"

definition form_new :: "64 word \<Rightarrow> 64 word \<Rightarrow> form" where
  "form_new r1 r2 = with_boundary (gen_boundary r1 r2)"

section \<open>The bytes that are sent\<close>

fun item_bytes :: "stream_item \<Rightarrow> string" where
  "item_bytes (Inr b) = b"
| "item_bytes (Inl e) = []"

definition stream_bytes :: "stream_item list \<Rightarrow> string" where
  "stream_bytes items = concat (map item_bytes items)"

definition content :: "(nat \<Rightarrow> stream_item list) \<Rightarrow> part \<Rightarrow> string" where
  "content frames p = stream_bytes (data_stream frames (pt_value p))"

lemma stream_bytes_simps [simp]:
  "stream_bytes [] = []" "stream_bytes (x # xs) = item_bytes x @ stream_bytes xs"
  "stream_bytes (xs @ ys) = stream_bytes xs @ stream_bytes ys"
  by (simp_all add: stream_bytes_def)

lemma content_Full: "pt_value p = Full b \<Longrightarrow> content frames p = b"
  by (simp add: content_def)

definition part_text_bytes :: "percent_encoder \<Rightarrow> (nat \<Rightarrow> stream_item list) \<Rightarrow> form \<Rightarrow> string \<times> part \<Rightarrow> string" where
  "part_text_bytes enc frames f np =
     ''--'' @ fm_boundary f @ crlf @ encode_headers enc (fm_encoding f) (fst np) (pt_meta (snd np)) @ crlf @ crlf @
     content frames (snd np) @ crlf"

lemma form_stream_bytes:
  "stream_bytes (form_into_stream enc frames f) =
     (if fm_fields f = [] then []
      else concat (map (part_text_bytes enc frames f) (fm_fields f)) @ ''--'' @ fm_boundary f @ ''--'' @ crlf)"
proof -
  have one: "stream_bytes (part_stream enc frames f name p) = part_text_bytes enc frames f (name, p)" for name p
    by (simp add: part_stream_def part_text_bytes_def content_def)
  have "stream_bytes (fold (\<lambda>(name, p) memo. memo @ part_stream enc frames f name p) ps memo) =
      stream_bytes memo @ concat (map (part_text_bytes enc frames f) ps)" for ps memo
    by (induction ps arbitrary: memo) (auto simp: one)
  then show ?thesis
    by (auto simp: form_into_stream_def one split: list.split)
qed

section \<open>The announced length\<close>

text \<open>What a caller who declares lengths promises: the stream of a part yields as many bytes as it was declared with.\<close>

definition declared_ok :: "(nat \<Rightarrow> stream_item list) \<Rightarrow> part \<Rightarrow> bool" where
  "declared_ok frames p \<longleftrightarrow>
     (case value_len p of Some n \<Rightarrow> n = of_nat (length (content frames p)) | None \<Rightarrow> True)"

lemma declared_ok_Full: "pt_value p = Full b \<Longrightarrow> pt_length p = None \<Longrightarrow> declared_ok frames p"
  by (simp add: declared_ok_def value_len_def content_Full)

lemma length_loop_spec:
  assumes "list_all (\<lambda>(name, p). declared_ok frames p) ps"
  shows "fst (length_loop enc f ps len hs) =
    (if list_all (\<lambda>(name, p). value_len p \<noteq> None) ps
     then Some (len + of_nat (length (concat (map (part_text_bytes enc frames f) ps)))) else None)"
  using assms
proof (induction enc f ps len hs rule: length_loop.induct)
  case (2 enc f name p rest len hs)
  show ?case
  proof (cases "value_len p")
    case (Some n)
    let ?h = "encode_headers enc (fm_encoding f) name (pt_meta p)"
    have "n = of_nat (length (content frames p))"
      using 2(2) Some by (simp add: declared_ok_def)
    then have "len + (2 + of_nat (length (fm_boundary f)) + 2 + of_nat (length ?h) + 4 + n + 2) =
        len + of_nat (length (part_text_bytes enc frames f (name, p)))"
      by (simp add: part_text_bytes_def crlf_def algebra_simps)
    with 2(1) [OF Some refl] 2(2) Some show ?thesis
      by (simp add: algebra_simps)
  qed simp
qed simp

text \<open>C31: the announced length of a form is the number of bytes its stream yields (modulo \<open>2\<^sup>6\<^sup>4\<close>), provided every
  length that a caller declared is true; it is announced exactly when the length of every part is known, and computing it
  changes nothing that is sent.\<close>

theorem multipart_length:
  assumes "list_all (\<lambda>(name, p). declared_ok frames p) (fm_fields f)"
  shows "fst (compute_length enc f) =
      (if list_all (\<lambda>(name, p). value_len p \<noteq> None) (fm_fields f)
       then Some (of_nat (length (stream_bytes (form_into_stream enc frames f)))) else None) \<and>
    form_into_stream enc frames (snd (compute_length enc f)) = form_into_stream enc frames f"
proof
  have "length (stream_bytes (form_into_stream enc frames f)) =
      length (concat (map (part_text_bytes enc frames f) (fm_fields f))) +
        (if fm_fields f = [] then 0 else 2 + length (fm_boundary f) + 4)"
    by (simp add: form_stream_bytes crlf_def)
  then show "fst (compute_length enc f) =
      (if list_all (\<lambda>(name, p). value_len p \<noteq> None) (fm_fields f)
       then Some (of_nat (length (stream_bytes (form_into_stream enc frames f)))) else None)"
    using length_loop_spec [OF assms, of enc f 0 "fm_computed_headers f"]
    by (simp add: compute_length_def Let_def split_beta algebra_simps)
  show "form_into_stream enc frames (snd (compute_length enc f)) = form_into_stream enc frames f"
    by (simp add: compute_length_def Let_def split_beta form_into_stream_def part_stream_def cong: list.case_cong)
qed

section \<open>Generated boundaries\<close>

lemma random_chars_ok:
  "length (random_chars n r) = n" "set (random_chars n r) \<subseteq> set alpha_numeric_encoding_map"
proof -
  have "unat (and r 0x3F) < length alpha_numeric_encoding_map" for r :: "64 word"
  proof -
    have "and r 0x3F \<le> 0x3F" by (rule word_and_le1)
    then have "unat (and r 0x3F) \<le> unat (0x3F :: 64 word)" by (simp add: word_le_nat_alt)
    then show ?thesis by (simp add: alpha_numeric_encoding_map_def)
  qed
  then show "length (random_chars n r) = n" "set (random_chars n r) \<subseteq> set alpha_numeric_encoding_map"
    by (induction n arbitrary: r) (auto intro: nth_mem)
qed

lemma gen_boundary_ok:
  "length (gen_boundary r1 r2) = 38"
  "set (gen_boundary r1 r2) \<subseteq> set (''-'' @ alpha_numeric_encoding_map)"
proof -
  show "length (gen_boundary r1 r2) = 38"
    by (simp add: gen_boundary_def random_chars_ok boundary_prefix_def)
  have "set boundary_prefix \<subseteq> set (''-'' @ alpha_numeric_encoding_map)"
    by (simp add: boundary_prefix_def alpha_numeric_encoding_map_def)
  then show "set (gen_boundary r1 r2) \<subseteq> set (''-'' @ alpha_numeric_encoding_map)"
    using random_chars_ok(2) [of 8 r1] random_chars_ok(2) [of 8 r2] by (auto simp: gen_boundary_def)
qed

section \<open>Reading a form back\<close>

text \<open>A receiver of \<^verbatim>\<open>multipart/form-data\<close> after RFC 2046: it looks for the first occurrence of the delimiter, reads header
  lines up to the empty line and takes the rest of the part as its content.\<close>

fun split_str :: "string \<Rightarrow> string \<Rightarrow> (string \<times> string) option" where
  "split_str d s =
     (if prefix d s then Some ([], drop (length d) s)
      else case s of [] \<Rightarrow> None | c # cs \<Rightarrow> map_option (\<lambda>(a, b). (c # a, b)) (split_str d cs))"

declare split_str.simps [simp del]

lemma split_str_parts: "split_str d s = Some (a, b) \<Longrightarrow> s = a @ d @ b"
proof (induction d s arbitrary: a rule: split_str.induct)
  case (1 d s)
  show ?case
  proof (cases "prefix d s")
    case True
    then show ?thesis using 1(2) by (auto simp: split_str.simps [of d s] elim: prefixE)
  next
    case False
    note eq = 1(2) [unfolded split_str.simps [of d s]]
    show ?thesis
    proof (cases s)
      case Nil
      with False eq show ?thesis by simp
    next
      case (Cons c cs)
      with False eq obtain a' where "split_str d cs = Some (a', b)" "a = c # a'" by auto
      with 1(1) [OF False Cons] Cons show ?thesis by simp
    qed
  qed
qed

text \<open>The first occurrence, for a delimiter whose first character does not occur in it again.\<close>

lemma split_str_first:
  assumes "c \<notin> set d" "\<not> sublist (c # d) x"
  shows "split_str (c # d) (x @ (c # d) @ y) = Some (x, y)"
  using assms(2)
proof (induction x)
  case Nil
  show ?case by (simp add: split_str.simps [of "c # d"])
next
  case (Cons z x)
  have "\<not> prefix (c # d) (z # x @ (c # d) @ y)"
  proof
    assume p: "prefix (c # d) (z # x @ (c # d) @ y)"
    show False
    proof (cases "length (c # d) \<le> length (z # x)")
      case True
      with p have "prefix (c # d) (z # x)"
        by (metis append_Cons prefix_append prefix_length_prefix prefix_order.refl prefixI)
      with Cons(2) show False by (metis prefix_imp_sublist)
    next
      case False
      then have len: "length x < length d" by simp
      obtain w where w: "z # x @ (c # d) @ y = (c # d) @ w" using p by (auto elim: prefixE)
      have "d ! length x = (x @ (c # d) @ y) ! length x"
        using w len by (metis append_Cons list.inject nth_append)
      then have "d ! length x = c" by simp
      with assms(1) len show False by (metis nth_mem)
    qed
  qed
  moreover have "\<not> sublist (c # d) x" using Cons(2) by (metis sublist_Cons_right)
  ultimately show ?case using Cons(1) by (simp add: split_str.simps [of "c # d" "z # x @ c # d @ y"])
qed

lemma split_crlf: "CHR 0x0D \<notin> set x \<Longrightarrow> split_str crlf (x @ crlf @ y) = Some (x, y)"
  unfolding crlf_def
  by (rule split_str_first) (auto dest: set_mono_sublist)

function parse_head :: "string \<Rightarrow> (string list \<times> string) option" where
  "parse_head s =
     (case split_str crlf s of
        None \<Rightarrow> None
      | Some (line, rest) \<Rightarrow>
          if line = [] then Some ([], rest)
          else map_option (\<lambda>(ls, data). (line # ls, data)) (parse_head rest))"
  by pat_completeness auto
termination
  by (relation "measure length") (auto dest!: split_str_parts simp: crlf_def)

declare parse_head.simps [simp del]

function parse_parts :: "string \<Rightarrow> string \<Rightarrow> (string list \<times> string) list option" where
  "parse_parts b s =
     (case split_str (crlf @ ''--'' @ b) s of
        None \<Rightarrow> None
      | Some (c, rest) \<Rightarrow>
          (case parse_head c of
             None \<Rightarrow> None
           | Some part \<Rightarrow>
               if rest = ''--'' @ crlf then Some [part]
               else if prefix crlf rest then map_option (Cons part) (parse_parts b (drop (length crlf) rest))
               else None))"
  by pat_completeness auto
termination
  by (relation "measure (\<lambda>(b, s). length s)") (auto dest!: split_str_parts simp: crlf_def)

declare parse_parts.simps [simp del]

definition parse_form :: "string \<Rightarrow> string \<Rightarrow> (string list \<times> string) list option" where
  "parse_form b s =
     (if prefix (''--'' @ b @ crlf) s then parse_parts b (drop (length (''--'' @ b @ crlf)) s) else None)"

text \<open>The lines of a header block.\<close>

definition header_lines :: "percent_encoder \<Rightarrow> percent_encoding \<Rightarrow> string \<Rightarrow> part_metadata \<Rightarrow> string list" where
  "header_lines enc pe name field =
     encode_headers enc pe name (field\<lparr>pm_mime := None, pm_headers := []\<rparr>) #
     (case pm_mime field of Some m \<Rightarrow> [''Content-Type: '' @ m] | None \<Rightarrow> []) @
     map (\<lambda>(k, v). k @ '': '' @ hv_bytes v) (hdr_iter (pm_headers field))"

definition joined :: "string list \<Rightarrow> string" where
  "joined ls = concat (map (\<lambda>l. l @ crlf) ls)"

lemma encode_headers_lines: "encode_headers enc pe name field @ crlf = joined (header_lines enc pe name field)"
proof -
  have "concat (map (\<lambda>(k, v). crlf @ k @ '': '' @ hv_bytes v) kvs) @ crlf =
      crlf @ concat (map (\<lambda>l. l @ crlf) (map (\<lambda>(k, v). k @ '': '' @ hv_bytes v) kvs))" for kvs
    by (induction kvs) auto
  note this [of "hdr_iter (pm_headers field)"]
  moreover have "hdr_iter ([] :: header_map) = []" by (simp add: hdr_iter_def)
  ultimately show ?thesis
    by (simp add: encode_headers_def header_lines_def joined_def split: option.split)
qed

lemma parse_head_joined:
  "list_all (\<lambda>l. l \<noteq> [] \<and> CHR 0x0D \<notin> set l) ls \<Longrightarrow> parse_head (joined ls @ crlf @ data) = Some (ls, data)"
proof (induction ls)
  case Nil
  show ?case using split_crlf [of "[]" data] by (simp add: parse_head.simps [of "crlf @ data"] joined_def)
next
  case (Cons l ls)
  then have "split_str crlf (joined (l # ls) @ crlf @ data) = Some (l, joined ls @ crlf @ data)"
    using split_crlf [of l "joined ls @ crlf @ data"] by (simp add: joined_def)
  with Cons show ?case by (simp add: parse_head.simps [of "joined (l # ls) @ crlf @ data"])
qed

text \<open>What a form must satisfy to be read back: the boundary has no line break, the delimiter does not occur in a part, and
  names, file names, media types and headers have no carriage return (a name may have one if it is percent-encoded).\<close>

definition no_cr :: "string \<Rightarrow> bool" where
  "no_cr s \<longleftrightarrow> CHR 0x0D \<notin> set s"

definition clean_part :: "percent_encoding \<Rightarrow> string \<Rightarrow> part_metadata \<Rightarrow> bool" where
  "clean_part pe name m \<longleftrightarrow>
     (pe = NoOp \<longrightarrow> no_cr name) \<and> (case pm_file_name m of Some f \<Rightarrow> no_cr f | None \<Rightarrow> True) \<and>
     (case pm_mime m of Some t \<Rightarrow> no_cr t | None \<Rightarrow> True) \<and>
     list_all (\<lambda>(k, v). no_cr k \<and> no_cr (hv_bytes v)) (hdr_iter (pm_headers m))"

definition delimited ::
  "percent_encoder \<Rightarrow> (nat \<Rightarrow> stream_item list) \<Rightarrow> form \<Rightarrow> string \<times> part \<Rightarrow> bool"
where
  "delimited enc frames f np \<longleftrightarrow>
     \<not> sublist (crlf @ ''--'' @ fm_boundary f)
       (encode_headers enc (fm_encoding f) (fst np) (pt_meta (snd np)) @ crlf @ crlf @ content frames (snd np))"

text \<open>What \<^verbatim>\<open>percent_encoding\<close> promises of the two sets, which hold all control characters: no carriage return is left.\<close>

definition encoder_ok :: "percent_encoder \<Rightarrow> bool" where
  "encoder_ok enc \<longleftrightarrow>
     (\<forall>s. no_cr (snd (enc path_segment_set s))) \<and> (\<forall>s. no_cr (snd (enc attr_char_set s)))"

lemma no_cr_simps [simp]: "no_cr []" "no_cr (c # s) \<longleftrightarrow> c \<noteq> CHR 0x0D \<and> no_cr s" "no_cr (s @ t) \<longleftrightarrow> no_cr s \<and> no_cr t"
  by (auto simp: no_cr_def)

lemma no_cr_replace: "no_cr s \<Longrightarrow> no_cr by \<Longrightarrow> no_cr (replace_char c by s)"
  by (auto simp: replace_char_def no_cr_def)

lemma replace_char_absent: "c \<notin> set s \<Longrightarrow> replace_char c by s = s"
  by (induction s) (auto simp: replace_char_def)

lemma no_cr_filename:
  assumes "no_cr f"
  shows "no_cr (legal_filename f)"
proof -
  let ?g = "replace_char CHR 0x22 [CHR 0x5C, CHR 0x22] (replace_char CHR 0x5C [CHR 0x5C, CHR 0x5C] f)"
  have g: "no_cr ?g" using assms by (simp add: no_cr_replace)
  then have "replace_char CHR 0x0D [CHR 0x5C, CHR 0x0D] ?g = ?g" by (simp add: no_cr_def replace_char_absent)
  with g show ?thesis by (simp add: legal_filename_def no_cr_replace)
qed

lemma header_lines_clean:
  assumes "encoder_ok enc" "clean_part pe name m"
  shows "list_all (\<lambda>l. l \<noteq> [] \<and> CHR 0x0D \<notin> set l) (header_lines enc pe name m)"
proof -
  have "no_cr (snd (percent_encode enc pe name))"
    using assms by (cases pe) (simp_all add: encoder_ok_def clean_part_def)
  then have "no_cr (encode_headers enc pe name (m\<lparr>pm_mime := None, pm_headers := []\<rparr>))"
    using assms(2) by (auto simp: encode_headers_def clean_part_def hdr_iter_def no_cr_filename
        split: prod.split bool.split option.split option.split_asm)
  moreover have "encode_headers enc pe name (m\<lparr>pm_mime := None, pm_headers := []\<rparr>) \<noteq> []"
    by (simp add: encode_headers_def)
  ultimately show ?thesis
    using assms(2)
    by (auto simp: header_lines_def clean_part_def no_cr_def list_all_iff split: option.split option.split_asm)
qed

lemma parse_parts_form:
  assumes "no_cr (fm_boundary f)" "encoder_ok enc" "ps \<noteq> []"
    "list_all (\<lambda>(name, p). clean_part (fm_encoding f) name (pt_meta p)) ps" "list_all (delimited enc frames f) ps"
  shows "concat (map (part_text_bytes enc frames f) ps) @ ''--'' @ fm_boundary f @ ''--'' @ crlf = ''--'' @ fm_boundary f @ crlf @ s \<Longrightarrow>
    parse_parts (fm_boundary f) s =
      Some (map (\<lambda>(name, p). (header_lines enc (fm_encoding f) name (pt_meta p), content frames p)) ps)"
  using assms(3-5)
proof (induction ps arbitrary: s)
  case Nil
  then show ?case by simp
next
  case (Cons np ps)
  obtain name p where np: "np = (name, p)" by (cases np)
  let ?b = "fm_boundary f"
  let ?hs = "header_lines enc (fm_encoding f) name (pt_meta p)"
  define c where "c = joined ?hs @ crlf @ content frames p"
  define tl where "tl = concat (map (part_text_bytes enc frames f) ps) @ ''--'' @ ?b @ ''--'' @ crlf"
  obtain r where r: "tl = ''--'' @ ?b @ r" "r = (if ps = [] then ''--'' @ crlf else crlf @ drop (length (''--'' @ ?b @ crlf)) tl)"
    by (cases ps) (simp_all add: tl_def part_text_bytes_def)
  have s: "s = c @ (crlf @ ''--'' @ ?b) @ r"
  proof -
    have "s = (encode_headers enc (fm_encoding f) name (pt_meta p) @ crlf) @ crlf @ content frames p @ crlf @ tl"
      using Cons(2) by (simp add: np part_text_bytes_def [of enc frames f "(name, p)"] tl_def)
    then show ?thesis by (simp add: encode_headers_lines c_def r(1))
  qed
  have "c = encode_headers enc (fm_encoding f) name (pt_meta p) @ crlf @ crlf @ content frames p"
    by (simp add: c_def encode_headers_lines [symmetric])
  then have "\<not> sublist (CHR 0x0D # CHR 0x0A # CHR ''-'' # CHR ''-'' # ?b) c"
    using Cons(5) by (simp add: delimited_def np crlf_def)
  then have "split_str (crlf @ ''--'' @ ?b) s = Some (c, r)"
    using split_str_first [of "CHR 0x0D" "CHR 0x0A # CHR ''-'' # CHR ''-'' # ?b" c r] assms(1)
    by (simp add: s crlf_def no_cr_def)
  moreover have "parse_head c = Some (?hs, content frames p)"
    unfolding c_def using parse_head_joined header_lines_clean [OF assms(2)] Cons(4) by (simp add: np)
  moreover have "parse_parts ?b (drop (length crlf) r) =
      Some (map (\<lambda>(name, p). (header_lines enc (fm_encoding f) name (pt_meta p), content frames p)) ps)"
    if "ps \<noteq> []"
  proof (rule Cons(1) [OF _ that])
    show "concat (map (part_text_bytes enc frames f) ps) @ ''--'' @ ?b @ ''--'' @ crlf = ''--'' @ ?b @ crlf @ drop (length crlf) r"
      using r that by (simp add: tl_def)
  qed (use Cons(4,5) in simp_all)
  ultimately show ?case
    using r(2) by (cases "ps = []") (auto simp: parse_parts.simps [of ?b s] np crlf_def)
qed

text \<open>C30: a receiver that splits the body at the boundary of the form gets back, in order, the header lines and the content
  of every part, if the boundary does not occur in a part.\<close>

theorem multipart_roundtrip:
  assumes "encoder_ok enc" "no_cr (fm_boundary f)" "fm_fields f \<noteq> []"
    "list_all (\<lambda>(name, p). clean_part (fm_encoding f) name (pt_meta p)) (fm_fields f)"
    "list_all (delimited enc frames f) (fm_fields f)"
  shows "parse_form (fm_boundary f) (stream_bytes (form_into_stream enc frames f)) =
    Some (map (\<lambda>(name, p). (header_lines enc (fm_encoding f) name (pt_meta p), content frames p)) (fm_fields f))"
proof -
  let ?s = "stream_bytes (form_into_stream enc frames f)" and ?h = "''--'' @ fm_boundary f @ crlf"
  obtain np ps where ps: "fm_fields f = np # ps" using assms(3) by (cases "fm_fields f") auto
  then have h: "?s = ?h @ drop (length ?h) ?s"
    by (simp add: form_stream_bytes part_text_bytes_def)
  then have "parse_parts (fm_boundary f) (drop (length ?h) ?s) =
      Some (map (\<lambda>(name, p). (header_lines enc (fm_encoding f) name (pt_meta p), content frames p)) (fm_fields f))"
    using parse_parts_form [OF assms(2,1,3-5), of "drop (length ?h) ?s"] assms(3) by (simp add: form_stream_bytes)
  moreover have "prefix ?h ?s" using h by (metis prefixI)
  ultimately show ?thesis by (simp add: parse_form_def)
qed

section \<open>A concrete form\<close>

definition sample_encoder :: percent_encoder where
  "sample_encoder P s = (list_ex P s, hex_encode P s)"

definition sample_frames :: "nat \<Rightarrow> stream_item list" where
  "sample_frames i = [Inr ''ab'', Inr ''cde'']"

definition sample_form :: form where
  "sample_form =
     form_part ''up load'' (part_file_name ''a.txt'' (part_mime ''text/plain'' (part_stream_with_length (Boxed 1 None) 5)))
       (form_text ''k'' ''v'' (with_boundary ''xyz''))"

lemma sample_encoder_ok: "encoder_ok sample_encoder"
proof -
  have "no_cr (hex_encode P s)" if "P CHR 0x0D" for P s
  proof -
    have "CHR 0x0D \<notin> set (hex_byte c)" for c using set_hex_byte [of c] by (auto simp: hex_chars_def)
    with that show ?thesis by (simp add: no_cr_def hex_encode_def)
  qed
  moreover have "path_segment_set CHR 0x0D" "attr_char_set CHR 0x0D" by code_simp+
  ultimately show ?thesis by (simp add: encoder_ok_def sample_encoder_def)
qed

lemmas sample_form_simps =
  sample_form_def form_part_def form_text_def with_boundary_def part_file_name_def part_mime_def with_inner_def part_text_def
  part_stream_with_length_def part_new_def part_metadata_new_def

theorem multipart_length_witness:
  "fst (compute_length sample_encoder sample_form) =
    Some (of_nat (length (stream_bytes (form_into_stream sample_encoder sample_frames sample_form))))"
proof -
  have "list_all (\<lambda>(name, p). declared_ok sample_frames p) (fm_fields sample_form)" by code_simp
  moreover have "list_all (\<lambda>(name, p). value_len p \<noteq> None) (fm_fields sample_form)" by code_simp
  ultimately show ?thesis using multipart_length [of sample_frames sample_form sample_encoder] by simp
qed

theorem multipart_roundtrip_witness:
  "parse_form ''xyz'' (stream_bytes (form_into_stream sample_encoder sample_frames sample_form)) =
    Some (map (\<lambda>(name, p). (header_lines sample_encoder PathSegment name (pt_meta p), content sample_frames p)) (fm_fields sample_form))"
proof -
  have f: "fm_boundary sample_form = ''xyz''" "fm_encoding sample_form = PathSegment" "fm_fields sample_form \<noteq> []"
    by (simp_all add: sample_form_simps)
  have "no_cr (fm_boundary sample_form)" by (simp add: f)
  moreover have "list_all (\<lambda>(name, p). clean_part (fm_encoding sample_form) name (pt_meta p)) (fm_fields sample_form)"
    by code_simp
  moreover have "list_all (delimited sample_encoder sample_frames sample_form) (fm_fields sample_form)"
    by code_simp
  ultimately show ?thesis
    using multipart_roundtrip [OF sample_encoder_ok, of sample_form sample_frames] f by simp
qed

text \<open>A line break in a file name is written after a backslash, so it ends the line for a receiver that splits at line feeds.\<close>

theorem file_name_breaks_line:
  "encode_headers enc pe name \<lparr>pm_mime = None, pm_file_name = Some (a @ [CHR 0x0A] @ b), pm_headers = []\<rparr> =
     encode_headers enc pe name \<lparr>pm_mime = None, pm_file_name = None, pm_headers = []\<rparr> @
     ''; filename='' @ [CHR 0x22] @ legal_filename a @ [CHR 0x5C, CHR 0x0A] @ legal_filename b @ [CHR 0x22]"
proof -
  have "replace_char c w (s @ t) = replace_char c w s @ replace_char c w t" for c w s t
    by (simp add: replace_char_def)
  moreover have "replace_char c w [d] = (if d = c then w else [d])" for c w d
    by (simp add: replace_char_def)
  ultimately show ?thesis by (simp add: encode_headers_def legal_filename_def hdr_iter_def del: append_Cons)
qed

end
