(* ===== verification/Request_Builder.thy ===== *)
theory Request_Builder
  imports Conn_Model Into_Uri Multipart
begin

text \<open>
  Building requests (\<^verbatim>\<open>client/request.rs\<close>, \<^verbatim>\<open>client/emulate.rs\<close>, the request methods of \<^verbatim>\<open>client.rs\<close>): a request, the builder
  that a caller drives, and the emulation profiles it takes.  A builder holds a request or the first error; the client it
  carries along is not represented.

  Conversions of other crates (header names and values, percent decoding, serialisation, \<^verbatim>\<open>url::Url\<close>) are parameters or
  arguments.  Shown: every sequence of builder calls ends without a panic in an error, which no later call changes, or in
  a well-formed request; and what happens to credentials in the URI.
\<close>

section \<open>Requests\<close>

type_synonym ('p, 'o) api_request = "('p, 'o) request \<times> body option"

type_synonym ('p, 'o) request_builder = "(error, ('p, 'o) api_request) result"

definition extensions_new :: "('p, 'o) extensions" where
  "extensions_new =
     \<lparr>ext_redirect = None, ext_options = None, ext_timeout = None, ext_default_headers = None, ext_orig_headers = None,
      ext_preserve = None, ext_cookie_store = None, ext_accept_encoding = None\<rparr>"

definition request_new :: "string \<Rightarrow> uri \<Rightarrow> ('p, 'o) api_request" where
  "request_new meth u =
     (\<lparr>rq_method = meth, rq_uri = u, rq_version = HTTP_11, rq_headers = [], rq_ext = extensions_new\<rparr>, None)"

text \<open>\<^verbatim>\<open>Option::get_or_insert_default\<close> followed by an update of the value.\<close>

definition insert_default :: "'a \<Rightarrow> ('a \<Rightarrow> 'a) \<Rightarrow> 'a option \<Rightarrow> 'a option" where
  "insert_default d f x = Some (f (case x of Some v \<Rightarrow> v | None \<Rightarrow> d))"

definition on_options ::
  "(('u, 'm, 'n, 't, 'h1, 'h2) request_options \<Rightarrow> ('u, 'm, 'n, 't, 'h1, 'h2) request_options) \<Rightarrow>
   ('p, ('u, 'm, 'n, 't, 'h1, 'h2) request_options) request \<Rightarrow> ('p, ('u, 'm, 'n, 't, 'h1, 'h2) request_options) request"
where
  "on_options f req =
     req\<lparr>rq_ext := (rq_ext req)\<lparr>ext_options := rc_get_mut (insert_default request_options_default f) (ext_options (rq_ext req))\<rparr>\<rparr>"

definition request_version :: "('p, ('u, 'm, 'n, 't, 'h1, 'h2) request_options) api_request \<Rightarrow> version option" where
  "request_version req = Option.bind (rc_get (ext_options (rq_ext (fst req)))) ro_version"

definition request_set_version ::
  "version option \<Rightarrow> ('p, ('u, 'm, 'n, 't, 'h1, 'h2) request_options) request \<Rightarrow> ('p, ('u, 'm, 'n, 't, 'h1, 'h2) request_options) request"
where
  "request_set_version v = on_options (\<lambda>ro. ro\<lparr>ro_version := v\<rparr>)"

definition request_try_clone ::
  "('p, ('u, 'm, 'n, 't, 'h1, 'h2) request_options) api_request \<Rightarrow> ('p, ('u, 'm, 'n, 't, 'h1, 'h2) request_options) api_request option"
where
  "request_try_clone req =
     (case (case snd req of Some b \<Rightarrow> map_option Some (body_try_clone b) | None \<Rightarrow> Some None) of
        None \<Rightarrow> None
      | Some body \<Rightarrow>
          (let r1 = fst (request_new (rq_method (fst req)) (rq_uri (fst req)) :: ('p, ('u, 'm, 'n, 't, 'h1, 'h2) request_options) api_request);
               r2 = r1\<lparr>rq_headers := rq_headers (fst req)\<rparr>;
               r3 = request_set_version (request_version req) r2;
               r4 = r3\<lparr>rq_ext := rq_ext (fst req)\<rparr>
           in Some (r4, body)))"

text \<open>The conversions from and to \<^verbatim>\<open>http::Request\<close>.\<close>

definition request_from_http :: "('p, 'o) request \<Rightarrow> body \<Rightarrow> ('p, 'o) request \<times> body option" where
  "request_from_http req b = (req, Some b)"

definition request_into_http :: "('p, 'o) request \<times> body option \<Rightarrow> ('p, 'o) request \<times> body" where
  "request_into_http req = (fst req, case snd req of Some b \<Rightarrow> b | None \<Rightarrow> body_empty)"

section \<open>Emulation profiles\<close>

record ('u, 'm, 't, 'h1, 'h2) emulation =
  em_group :: "('u, 'm) group"
  em_headers :: header_map
  em_orig_headers :: orig_header_map
  em_tls :: "'t option"
  em_http1 :: "'h1 option"
  em_http2 :: "'h2 option"

definition emulation_builder :: "('u, 'm, 't, 'h1, 'h2) emulation" where
  "emulation_builder =
     \<lparr>em_group = group_default, em_headers = [], em_orig_headers = [], em_tls = None, em_http1 = None, em_http2 = None\<rparr>"

definition emulation_http1_options :: "'h1 \<Rightarrow> ('u, 'm, 't, 'h1, 'h2) emulation \<Rightarrow> ('u, 'm, 't, 'h1, 'h2) emulation" where
  "emulation_http1_options o1 e = e\<lparr>em_http1 := Some o1\<rparr>"

definition emulation_http2_options :: "'h2 \<Rightarrow> ('u, 'm, 't, 'h1, 'h2) emulation \<Rightarrow> ('u, 'm, 't, 'h1, 'h2) emulation" where
  "emulation_http2_options o2 e = e\<lparr>em_http2 := Some o2\<rparr>"

definition emulation_tls_options :: "'t \<Rightarrow> ('u, 'm, 't, 'h1, 'h2) emulation \<Rightarrow> ('u, 'm, 't, 'h1, 'h2) emulation" where
  "emulation_tls_options o1 e = e\<lparr>em_tls := Some o1\<rparr>"

definition emulation_headers ::
  "header_map \<Rightarrow> ('u, 'm, 't, 'h1, 'h2) emulation \<Rightarrow> ('u, 'm, 't, 'h1, 'h2) emulation option"
where
  "emulation_headers src e = map_option (\<lambda>h. e\<lparr>em_headers := h\<rparr>) (replace_headers (em_headers e) src)"

definition emulation_orig_headers ::
  "orig_header_map \<Rightarrow> ('u, 'm, 't, 'h1, 'h2) emulation \<Rightarrow> ('u, 'm, 't, 'h1, 'h2) emulation option"
where
  "emulation_orig_headers src e = map_option (\<lambda>h. e\<lparr>em_orig_headers := h\<rparr>) (orig_extend (em_orig_headers e) src)"

definition emulation_build :: "('u, 'm) group \<Rightarrow> ('u, 'm, 't, 'h1, 'h2) emulation \<Rightarrow> ('u, 'm, 't, 'h1, 'h2) emulation" where
  "emulation_build g e = e\<lparr>em_group := group_emulate g (em_group e)\<rparr>"

section \<open>The builder\<close>

record builder_lib =
  bd_uri :: uri_lib
  bd_base64 :: "string \<Rightarrow> string"
  bd_header_value :: "string \<Rightarrow> (error, header_value) result"
  bd_percent_decode :: "string \<Rightarrow> string"

definition with_request ::
  "(('p, 'o) request \<Rightarrow> ('p, 'o) request) \<Rightarrow>
   ('p, 'o) request_builder \<Rightarrow> ('p, 'o) request_builder"
where
  "with_request f = map_sum id (\<lambda>(req, body). (f req, body))"

definition with_ext ::
  "(('p, 'o) extensions \<Rightarrow> ('p, 'o) extensions) \<Rightarrow>
   ('p, 'o) request_builder \<Rightarrow> ('p, 'o) request_builder"
where
  "with_ext f = with_request (\<lambda>req. req\<lparr>rq_ext := f (rq_ext req)\<rparr>)"

text \<open>\<open>key\<close> and \<open>value\<close> are the outcomes of the conversions to \<^verbatim>\<open>HeaderName\<close> and \<^verbatim>\<open>HeaderValue\<close>.\<close>

definition header_sensitive ::
  "(error, string) result \<Rightarrow> (error, header_value) result \<Rightarrow> bool \<Rightarrow>
   ('p, 'o) request_builder \<Rightarrow> ('p, 'o) request_builder"
where
  "header_sensitive key value sensitive b =
     (case b of
        Inl e \<Rightarrow> Inl e
      | Inr (req, body) \<Rightarrow>
          (case key of
             Inl e \<Rightarrow> Inl (err_builder e)
           | Inr k \<Rightarrow>
               (case value of
                  Inl e \<Rightarrow> Inl (err_builder e)
                | Inr v \<Rightarrow>
                    (let v' = (if sensitive then v\<lparr>hv_sensitive := True\<rparr> else v)
                     in Inr (req\<lparr>rq_headers := hdr_append k v' (rq_headers req)\<rparr>, body)))))"

definition rb_header ::
  "(error, string) result \<Rightarrow> (error, header_value) result \<Rightarrow>
   ('p, 'o) request_builder \<Rightarrow> ('p, 'o) request_builder"
where
  "rb_header key value = header_sensitive key value False"

text \<open>\<open>None\<close> is the \<^verbatim>\<open>unreachable!\<close> of \<^verbatim>\<open>replace_headers\<close>.\<close>

definition rb_headers ::
  "header_map \<Rightarrow> ('p, 'o) request_builder \<Rightarrow> ('p, 'o) request_builder option"
where
  "rb_headers headers b =
     (case b of
        Inl e \<Rightarrow> Some (Inl e)
      | Inr (req, body) \<Rightarrow>
          map_option (\<lambda>h. Inr (req\<lparr>rq_headers := h\<rparr>, body)) (replace_headers (rq_headers req) headers))"

definition rb_orig_headers ::
  "orig_header_map \<Rightarrow> ('p, 'o) request_builder \<Rightarrow> ('p, 'o) request_builder"
where
  "rb_orig_headers h = with_ext (\<lambda>x. x\<lparr>ext_orig_headers := rc_get_mut (\<lambda>_. Some h) (ext_orig_headers x)\<rparr>)"

definition rb_default_headers ::
  "bool \<Rightarrow> ('p, 'o) request_builder \<Rightarrow> ('p, 'o) request_builder"
where
  "rb_default_headers enable = with_ext (\<lambda>x. x\<lparr>ext_default_headers := rc_get_mut (\<lambda>_. Some enable) (ext_default_headers x)\<rparr>)"

definition rb_auth ::
  "(error, header_value) result \<Rightarrow> ('p, 'o) request_builder \<Rightarrow> ('p, 'o) request_builder"
where
  "rb_auth token = header_sensitive (Inr ''authorization'') token True"

definition rb_basic_auth ::
  "builder_lib \<Rightarrow> string \<Rightarrow> string option \<Rightarrow> ('p, 'o) request_builder \<Rightarrow> ('p, 'o) request_builder"
where
  "rb_basic_auth L username password =
     header_sensitive (Inr ''authorization'') (Inr (basic_auth (bd_base64 L) username password)) True"

definition rb_bearer_auth ::
  "builder_lib \<Rightarrow> string \<Rightarrow> ('p, 'o) request_builder \<Rightarrow> ('p, 'o) request_builder"
where
  "rb_bearer_auth L token = header_sensitive (Inr ''authorization'') (bd_header_value L (''Bearer '' @ token)) True"

definition timeout_options_default :: timeout_options where
  "timeout_options_default = \<lparr>to_read = None, to_total = None\<rparr>"

definition rb_timeout ::
  "nat \<Rightarrow> ('p, 'o) request_builder \<Rightarrow> ('p, 'o) request_builder"
where
  "rb_timeout d =
     with_ext (\<lambda>x. x\<lparr>ext_timeout :=
       rc_get_mut (insert_default timeout_options_default (\<lambda>t. t\<lparr>to_total := Some d\<rparr>)) (ext_timeout x)\<rparr>)"

definition rb_read_timeout ::
  "nat \<Rightarrow> ('p, 'o) request_builder \<Rightarrow> ('p, 'o) request_builder"
where
  "rb_read_timeout d =
     with_ext (\<lambda>x. x\<lparr>ext_timeout :=
       rc_get_mut (insert_default timeout_options_default (\<lambda>t. t\<lparr>to_read := Some d\<rparr>)) (ext_timeout x)\<rparr>)"

text \<open>The outcome of parsing the URI as a \<^verbatim>\<open>url::Url\<close>, the query of such a value, the outcome of appending the parameters
  to it, and the outcome of converting it back.\<close>

record 'w query_lib =
  ql_parse :: "uri \<Rightarrow> (error, 'w) result"
  ql_query :: "'w \<Rightarrow> string option"
  ql_into_uri :: "'w \<Rightarrow> (error, uri) result"

definition rb_query ::
  "'w query_lib \<Rightarrow> ('w \<Rightarrow> (error, 'w) result) \<Rightarrow>
   ('p, 'o) request_builder \<Rightarrow> ('p, 'o) request_builder"
where
  "rb_query Q serialize b =
     (case b of
        Inl e \<Rightarrow> Inl e
      | Inr (req, body) \<Rightarrow>
          (case ql_parse Q (rq_uri req) of
             Inl e \<Rightarrow> Inl (err_builder e)
           | Inr url \<Rightarrow>
               (let query_len = (case ql_query Q url of Some q \<Rightarrow> length q | None \<Rightarrow> 0)
                in case serialize url of
                     Inl e \<Rightarrow> Inl (err_builder e)
                   | Inr url' \<Rightarrow>
                       if (case ql_query Q url' of Some q \<Rightarrow> length q \<noteq> query_len | None \<Rightarrow> False) then
                         (case ql_into_uri Q url' of
                            Inr u \<Rightarrow> Inr (req\<lparr>rq_uri := u\<rparr>, body)
                          | Inl e \<Rightarrow> Inl (err_builder e))
                       else Inr (req, body))))"

text \<open>A body of a known type: \<open>serialized\<close> is the outcome of the serialiser.\<close>

definition typed_body ::
  "string \<Rightarrow> (error, string) result \<Rightarrow> ('p, 'o) request_builder \<Rightarrow> ('p, 'o) request_builder"
where
  "typed_body mime serialized b =
     (case b of
        Inl e \<Rightarrow> Inl e
      | Inr (req, body) \<Rightarrow>
          (case serialized of
             Inr bytes \<Rightarrow>
               Inr (req\<lparr>rq_headers := or_insert ''content-type'' \<lparr>hv_bytes = mime, hv_sensitive = False\<rparr> (rq_headers req)\<rparr>,
                    Some (Full bytes))
           | Inl e \<Rightarrow> Inl (err_builder e)))"

definition rb_form ::
  "(error, string) result \<Rightarrow> ('p, 'o) request_builder \<Rightarrow> ('p, 'o) request_builder"
where
  "rb_form = typed_body ''application/x-www-form-urlencoded''"

definition rb_json ::
  "(error, string) result \<Rightarrow> ('p, 'o) request_builder \<Rightarrow> ('p, 'o) request_builder"
where
  "rb_json = typed_body ''application/json''"

definition rb_body ::
  "body \<Rightarrow> ('p, 'o) request_builder \<Rightarrow> ('p, 'o) request_builder"
where
  "rb_body body = map_sum id (\<lambda>(req, _). (req, Some body))"

text \<open>\<open>fresh\<close> names the stream of the form.  The decimal rendering of the length is \<^const>\<open>nat_decimal\<close>.\<close>

definition rb_multipart ::
  "builder_lib \<Rightarrow> percent_encoder \<Rightarrow> nat \<Rightarrow> form \<Rightarrow>
   ('p, 'o) request_builder \<Rightarrow> ('p, 'o) request_builder"
where
  "rb_multipart L enc fresh f b =
     (case b of
        Inl e \<Rightarrow> Inl e
      | Inr (req, body) \<Rightarrow>
          (case bd_header_value L (''multipart/form-data; boundary='' @ fm_boundary f) of
             Inl e \<Rightarrow> Inl (err_builder e)
           | Inr content_type \<Rightarrow>
               (let h1 = or_insert ''content-type'' content_type (rq_headers req);
                    (len, f') = compute_length enc f;
                    h2 = (case len of
                            Some n \<Rightarrow> or_insert ''content-length'' \<lparr>hv_bytes = nat_decimal (unat n), hv_sensitive = False\<rparr> h1
                          | None \<Rightarrow> h1)
                in Inr (req\<lparr>rq_headers := h2\<rparr>, Some (form_stream fresh f')))))"

definition with_options ::
  "(('u, 'm, 'n, 't, 'h1, 'h2) request_options \<Rightarrow> ('u, 'm, 'n, 't, 'h1, 'h2) request_options) \<Rightarrow>
   ('p, ('u, 'm, 'n, 't, 'h1, 'h2) request_options) request_builder \<Rightarrow> ('p, ('u, 'm, 'n, 't, 'h1, 'h2) request_options) request_builder"
where
  "with_options f = with_request (on_options f)"

definition rb_version ::
  "version \<Rightarrow> ('p, ('u, 'm, 'n, 't, 'h1, 'h2) request_options) request_builder \<Rightarrow> ('p, ('u, 'm, 'n, 't, 'h1, 'h2) request_options) request_builder"
where
  "rb_version v b = with_options (\<lambda>ro. ro\<lparr>ro_version := Some v\<rparr>) (with_request (request_set_version (Some v)) b)"

definition rb_redirect :: "'p \<Rightarrow> ('p, 'o) request_builder \<Rightarrow> ('p, 'o) request_builder" where
  "rb_redirect policy = with_ext (\<lambda>x. x\<lparr>ext_redirect := rc_get_mut (\<lambda>_. Some policy) (ext_redirect x)\<rparr>)"

definition rb_cookie_provider :: "nat \<Rightarrow> ('p, 'o) request_builder \<Rightarrow> ('p, 'o) request_builder" where
  "rb_cookie_provider store = with_ext (\<lambda>x. x\<lparr>ext_cookie_store := rc_get_mut (\<lambda>_. Some store) (ext_cookie_store x)\<rparr>)"

definition accept_encoding_default :: accept_encoding where
  "accept_encoding_default = \<lparr>ae_gzip = True, ae_brotli = True, ae_zstd = True, ae_deflate = True\<rparr>"

definition with_encoding ::
  "(accept_encoding \<Rightarrow> accept_encoding) \<Rightarrow> ('p, 'o) request_builder \<Rightarrow> ('p, 'o) request_builder"
where
  "with_encoding f =
     with_ext (\<lambda>x. x\<lparr>ext_accept_encoding := rc_get_mut (insert_default accept_encoding_default f) (ext_accept_encoding x)\<rparr>)"

definition rb_gzip :: "bool \<Rightarrow> ('p, 'o) request_builder \<Rightarrow> ('p, 'o) request_builder" where
  "rb_gzip v = with_encoding (\<lambda>a. a\<lparr>ae_gzip := v\<rparr>)"

definition rb_brotli :: "bool \<Rightarrow> ('p, 'o) request_builder \<Rightarrow> ('p, 'o) request_builder" where
  "rb_brotli v = with_encoding (\<lambda>a. a\<lparr>ae_brotli := v\<rparr>)"

definition rb_deflate :: "bool \<Rightarrow> ('p, 'o) request_builder \<Rightarrow> ('p, 'o) request_builder" where
  "rb_deflate v = with_encoding (\<lambda>a. a\<lparr>ae_deflate := v\<rparr>)"

definition rb_zstd :: "bool \<Rightarrow> ('p, 'o) request_builder \<Rightarrow> ('p, 'o) request_builder" where
  "rb_zstd v = with_encoding (\<lambda>a. a\<lparr>ae_zstd := v\<rparr>)"

definition rb_proxy ::
  "'n proxy_lib \<Rightarrow> proxy \<Rightarrow> ('p, ('u, 'm, 'n, 't, 'h1, 'h2) request_options) request_builder \<Rightarrow>
   ('p, ('u, 'm, 'n, 't, 'h1, 'h2) request_options) request_builder"
where
  "rb_proxy P proxy = with_options (\<lambda>ro. ro\<lparr>ro_proxy := Some (into_matcher P proxy)\<rparr>)"

definition with_bind ::
  "(socket_bind \<Rightarrow> socket_bind) \<Rightarrow> ('p, ('u, 'm, 'n, 't, 'h1, 'h2) request_options) request_builder \<Rightarrow>
   ('p, ('u, 'm, 'n, 't, 'h1, 'h2) request_options) request_builder"
where
  "with_bind f = with_options (\<lambda>ro. ro\<lparr>ro_bind := insert_default socket_bind_default f (ro_bind ro)\<rparr>)"

definition rb_local_address ::
  "ip_addr option \<Rightarrow> ('p, ('u, 'm, 'n, 't, 'h1, 'h2) request_options) request_builder \<Rightarrow>
   ('p, ('u, 'm, 'n, 't, 'h1, 'h2) request_options) request_builder"
where
  "rb_local_address a = with_bind (set_local_address a)"

definition rb_local_addresses ::
  "32 word option \<Rightarrow> 128 word option \<Rightarrow> ('p, ('u, 'm, 'n, 't, 'h1, 'h2) request_options) request_builder \<Rightarrow>
   ('p, ('u, 'm, 'n, 't, 'h1, 'h2) request_options) request_builder"
where
  "rb_local_addresses a4 a6 = with_bind (set_local_addresses a4 a6)"

definition rb_interface ::
  "string \<Rightarrow> ('p, ('u, 'm, 'n, 't, 'h1, 'h2) request_options) request_builder \<Rightarrow>
   ('p, ('u, 'm, 'n, 't, 'h1, 'h2) request_options) request_builder"
where
  "rb_interface i = with_bind (set_interface i)"

definition rb_emulation ::
  "('u, 'm, 't, 'h1, 'h2) emulation \<Rightarrow> ('p, ('u, 'm, 'n, 't, 'h1, 'h2) request_options) request_builder \<Rightarrow>
   ('p, ('u, 'm, 'n, 't, 'h1, 'h2) request_options) request_builder option"
where
  "rb_emulation em b =
     (case b of
        Inl e \<Rightarrow> Some (Inl e)
      | Inr _ \<Rightarrow>
          map_option (rb_orig_headers (em_orig_headers em))
            (rb_headers (em_headers em)
              (with_options (\<lambda>ro. ro\<lparr>ro_group := group_emulate (em_group em) (ro_group ro), ro_tls := em_tls em,
                  ro_http1 := em_http1 em, ro_http2 := em_http2 em\<rparr>) b)))"

definition rb_group ::
  "('u, 'm) group \<Rightarrow> ('p, ('u, 'm, 'n, 't, 'h1, 'h2) request_options) request_builder \<Rightarrow>
   ('p, ('u, 'm, 'n, 't, 'h1, 'h2) request_options) request_builder"
where
  "rb_group g = with_options (\<lambda>ro. ro\<lparr>ro_group := group_request g (ro_group ro)\<rparr>)"

definition rb_try_clone ::
  "('p, ('u, 'm, 'n, 't, 'h1, 'h2) request_options) request_builder \<Rightarrow>
   ('p, ('u, 'm, 'n, 't, 'h1, 'h2) request_options) request_builder option"
where
  "rb_try_clone b =
     (case b of Inl _ \<Rightarrow> None | Inr req \<Rightarrow> map_option Inr (request_try_clone req))"

section \<open>Starting a request\<close>

text \<open>The credentials of a URI, and the URI afterwards.\<close>

definition extract_authority :: "builder_lib \<Rightarrow> uri \<Rightarrow> (string \<times> string option) option \<times> uri" where
  "extract_authority L u =
     (case userinfo u of
        (None, _) \<Rightarrow> (None, u)
      | (Some n, p) \<Rightarrow>
          (let username = bd_percent_decode L n;
               password = Option.bind p (\<lambda>q. let d = bd_percent_decode L q in if utf8_valid d then Some d else None)
           in if \<not> utf8_valid username then (None, u)
              else if username \<noteq> [] \<or> password \<noteq> None
              then (Some (username, password), set_userinfo (bd_uri L) u [] None)
              else (None, u)))"

definition rb_new :: "builder_lib \<Rightarrow> ('p, 'o) request_builder \<Rightarrow> ('p, 'o) request_builder" where
  "rb_new L b =
     (case b of
        Inl e \<Rightarrow> Inl e
      | Inr (req, body) \<Rightarrow>
          (case extract_authority L (rq_uri req) of
             (Some (username, password), u) \<Rightarrow> rb_basic_auth L username password (Inr (req\<lparr>rq_uri := u\<rparr>, body))
           | (None, u) \<Rightarrow> Inr (req\<lparr>rq_uri := u\<rparr>, body)))"

text \<open>\<^verbatim>\<open>Client::request\<close>: \<open>u\<close> is the outcome of the conversion to a URI.\<close>

definition client_request :: "builder_lib \<Rightarrow> string \<Rightarrow> (error, uri) result \<Rightarrow> ('p, 'o) request_builder" where
  "client_request L meth u = rb_new L (map_sum id (request_new meth) u)"

definition client_get :: "builder_lib \<Rightarrow> (error, uri) result \<Rightarrow> ('p, 'o) request_builder" where
  "client_get L = client_request L ''GET''"

definition client_post :: "builder_lib \<Rightarrow> (error, uri) result \<Rightarrow> ('p, 'o) request_builder" where
  "client_post L = client_request L ''POST''"

definition client_put :: "builder_lib \<Rightarrow> (error, uri) result \<Rightarrow> ('p, 'o) request_builder" where
  "client_put L = client_request L ''PUT''"

definition client_patch :: "builder_lib \<Rightarrow> (error, uri) result \<Rightarrow> ('p, 'o) request_builder" where
  "client_patch L = client_request L ''PATCH''"

definition client_delete :: "builder_lib \<Rightarrow> (error, uri) result \<Rightarrow> ('p, 'o) request_builder" where
  "client_delete L = client_request L ''DELETE''"

definition client_head :: "builder_lib \<Rightarrow> (error, uri) result \<Rightarrow> ('p, 'o) request_builder" where
  "client_head L = client_request L ''HEAD''"

definition client_options :: "builder_lib \<Rightarrow> (error, uri) result \<Rightarrow> ('p, 'o) request_builder" where
  "client_options L = client_request L ''OPTIONS''"

section \<open>Sequences of builder calls\<close>

datatype ('p, 'u, 'm, 'n, 't, 'h1, 'h2, 'w) builder_op =
    OpHeader "(error, string) result" "(error, header_value) result"
  | OpHeaders header_map
  | OpOrigHeaders orig_header_map
  | OpDefaultHeaders bool
  | OpAuth "(error, header_value) result"
  | OpBasicAuth string "string option"
  | OpBearerAuth string
  | OpTimeout nat
  | OpReadTimeout nat
  | OpQuery "'w query_lib" "'w \<Rightarrow> (error, 'w) result"
  | OpForm "(error, string) result"
  | OpJson "(error, string) result"
  | OpBody body
  | OpMultipart nat form
  | OpVersion version
  | OpRedirect 'p
  | OpCookieProvider nat
  | OpGzip bool
  | OpBrotli bool
  | OpDeflate bool
  | OpZstd bool
  | OpProxy proxy
  | OpLocalAddress "ip_addr option"
  | OpLocalAddresses "32 word option" "128 word option"
  | OpInterface string
  | OpEmulation "('u, 'm, 't, 'h1, 'h2) emulation"
  | OpGroup "('u, 'm) group"

fun apply_op ::
  "builder_lib \<Rightarrow> percent_encoder \<Rightarrow> 'n proxy_lib \<Rightarrow> ('p, 'u, 'm, 'n, 't, 'h1, 'h2, 'w) builder_op \<Rightarrow>
   ('p, ('u, 'm, 'n, 't, 'h1, 'h2) request_options) request_builder \<Rightarrow>
   ('p, ('u, 'm, 'n, 't, 'h1, 'h2) request_options) request_builder option"
where
  "apply_op L enc P (OpHeader k v) b = Some (rb_header k v b)"
| "apply_op L enc P (OpHeaders h) b = rb_headers h b"
| "apply_op L enc P (OpOrigHeaders h) b = Some (rb_orig_headers h b)"
| "apply_op L enc P (OpDefaultHeaders v) b = Some (rb_default_headers v b)"
| "apply_op L enc P (OpAuth v) b = Some (rb_auth v b)"
| "apply_op L enc P (OpBasicAuth n p) b = Some (rb_basic_auth L n p b)"
| "apply_op L enc P (OpBearerAuth t) b = Some (rb_bearer_auth L t b)"
| "apply_op L enc P (OpTimeout d) b = Some (rb_timeout d b)"
| "apply_op L enc P (OpReadTimeout d) b = Some (rb_read_timeout d b)"
| "apply_op L enc P (OpQuery Q s) b = Some (rb_query Q s b)"
| "apply_op L enc P (OpForm s) b = Some (rb_form s b)"
| "apply_op L enc P (OpJson s) b = Some (rb_json s b)"
| "apply_op L enc P (OpBody x) b = Some (rb_body x b)"
| "apply_op L enc P (OpMultipart i f) b = Some (rb_multipart L enc i f b)"
| "apply_op L enc P (OpVersion v) b = Some (rb_version v b)"
| "apply_op L enc P (OpRedirect p) b = Some (rb_redirect p b)"
| "apply_op L enc P (OpCookieProvider c) b = Some (rb_cookie_provider c b)"
| "apply_op L enc P (OpGzip v) b = Some (rb_gzip v b)"
| "apply_op L enc P (OpBrotli v) b = Some (rb_brotli v b)"
| "apply_op L enc P (OpDeflate v) b = Some (rb_deflate v b)"
| "apply_op L enc P (OpZstd v) b = Some (rb_zstd v b)"
| "apply_op L enc P (OpProxy p) b = Some (rb_proxy P p b)"
| "apply_op L enc P (OpLocalAddress a) b = Some (rb_local_address a b)"
| "apply_op L enc P (OpLocalAddresses a4 a6) b = Some (rb_local_addresses a4 a6 b)"
| "apply_op L enc P (OpInterface i) b = Some (rb_interface i b)"
| "apply_op L enc P (OpEmulation e) b = rb_emulation e b"
| "apply_op L enc P (OpGroup g) b = Some (rb_group g b)"

fun builder_run ::
  "builder_lib \<Rightarrow> percent_encoder \<Rightarrow> 'n proxy_lib \<Rightarrow> ('p, 'u, 'm, 'n, 't, 'h1, 'h2, 'w) builder_op list \<Rightarrow>
   ('p, ('u, 'm, 'n, 't, 'h1, 'h2) request_options) request_builder \<Rightarrow>
   ('p, ('u, 'm, 'n, 't, 'h1, 'h2) request_options) request_builder option"
where
  "builder_run L enc P [] b = Some b"
| "builder_run L enc P (op # ops) b = Option.bind (apply_op L enc P op b) (builder_run L enc P ops)"

section \<open>Well-formed requests\<close>

definition absolute_uri :: "uri \<Rightarrow> bool" where
  "absolute_uri u \<longleftrightarrow> uri_scheme u \<noteq> None \<and> uri_authority u \<noteq> None"

definition options_ok :: "('u, 'm, 'n, 't, 'h1, 'h2) request_options slot \<Rightarrow> bool" where
  "options_ok slot \<longleftrightarrow> (case rc_get slot of Some ro \<Rightarrow> caller_group (ro_group ro) | None \<Rightarrow> True)"

definition orig_ok :: "orig_header_map slot \<Rightarrow> bool" where
  "orig_ok slot \<longleftrightarrow> (case rc_get slot of Some h \<Rightarrow> hdr_wf h | None \<Rightarrow> True)"

definition request_ok :: "string \<Rightarrow> ('p, ('u, 'm, 'n, 't, 'h1, 'h2) request_options) request \<Rightarrow> bool" where
  "request_ok meth req \<longleftrightarrow>
     rq_method req = meth \<and> rq_version req = HTTP_11 \<and> absolute_uri (rq_uri req) \<and> hdr_wf (rq_headers req) \<and>
     options_ok (ext_options (rq_ext req)) \<and> orig_ok (ext_orig_headers (rq_ext req)) \<and> ext_preserve (rq_ext req) = None"

definition builder_ok :: "string \<Rightarrow> ('p, ('u, 'm, 'n, 't, 'h1, 'h2) request_options) request_builder \<Rightarrow> bool" where
  "builder_ok meth b \<longleftrightarrow> (case b of Inl e \<Rightarrow> is_builder e \<or> is_decode e | Inr (req, _) \<Rightarrow> request_ok meth req)"

text \<open>What the arguments of a call satisfy because of their types: a \<^verbatim>\<open>HeaderMap\<close> has no name twice and none without a
  value, a \<^verbatim>\<open>Group\<close> was made by the public functions.  Appending a query to an absolute URL leaves it absolute.\<close>

fun op_ok :: "('p, 'u, 'm, 'n, 't, 'h1, 'h2, 'w) builder_op \<Rightarrow> bool" where
  "op_ok (OpHeaders h) \<longleftrightarrow> hdr_wf h"
| "op_ok (OpOrigHeaders h) \<longleftrightarrow> hdr_wf h"
| "op_ok (OpQuery Q s) \<longleftrightarrow>
     (\<forall>u w w' v. absolute_uri u \<and> ql_parse Q u = Inr w \<and> s w = Inr w' \<and> ql_into_uri Q w' = Inr v \<longrightarrow> absolute_uri v)"
| "op_ok (OpEmulation e) \<longleftrightarrow> hdr_wf (em_headers e) \<and> hdr_wf (em_orig_headers e) \<and> caller_group (em_group e)"
| "op_ok (OpGroup g) \<longleftrightarrow> caller_group g"
| "op_ok _ \<longleftrightarrow> True"

lemma rc_get_mut_get [simp]: "rc_get (rc_get_mut f slot) = f (rc_get slot)"
  by (cases slot) (auto simp: rc_get_def rc_get_mut_def)

lemma builder_ok_simps [simp]:
  "builder_ok meth (Inl (err_builder e))"
  "builder_ok meth (Inr (req, body)) \<longleftrightarrow> request_ok meth req"
  by (simp_all add: builder_ok_def is_builder_def err_builder_def err_new_def)

lemma with_request_ok:
  assumes "builder_ok meth b" "\<And>req. request_ok meth req \<Longrightarrow> request_ok meth (f req)"
  shows "builder_ok meth (with_request f b)"
  using assms by (cases b) (auto simp: with_request_def builder_ok_def)

lemma with_ext_ok:
  assumes "builder_ok meth b" "\<And>x. ext_options (f x) = ext_options x"
    "\<And>x. ext_preserve (f x) = ext_preserve x" "\<And>x. orig_ok (ext_orig_headers x) \<Longrightarrow> orig_ok (ext_orig_headers (f x))"
  shows "builder_ok meth (with_ext f b)"
  unfolding with_ext_def using assms by (auto intro!: with_request_ok simp: request_ok_def)

lemma caller_default_options [simp]: "caller_group (ro_group request_options_default)"
  by (simp add: request_options_default_def caller_default)

lemma with_options_ok:
  assumes "builder_ok meth b" "\<And>ro. caller_group (ro_group ro) \<Longrightarrow> caller_group (ro_group (f ro))"
  shows "builder_ok meth (with_options f b)"
  unfolding with_options_def using assms
  by (auto intro!: with_request_ok simp: request_ok_def on_options_def options_ok_def insert_default_def split: option.splits)

lemma builder_ok_cases:
  assumes "builder_ok meth b"
  obtains (Err) e where "b = Inl e" | (Req) req body where "b = Inr (req, body)" "request_ok meth req"
  using assms by (cases b) (auto simp: builder_ok_def)

lemma header_sensitive_ok:
  assumes "builder_ok meth b"
  shows "builder_ok meth (header_sensitive k v s b)"
  using assms
  by (cases rule: builder_ok_cases) (use assms in \<open>simp_all add: header_sensitive_def Let_def request_ok_def split: sum.split\<close>)

lemma rb_headers_ok:
  assumes "builder_ok meth b" "hdr_wf h"
  obtains b' where "rb_headers h b = Some b'" "builder_ok meth b'"
proof (cases b)
  case (Inr rb)
  obtain req body where rb: "rb = (req, body)" by (cases rb)
  with Inr assms have "hdr_wf (rq_headers req)" "request_ok meth req" by (simp_all add: request_ok_def)
  with assms(2) show thesis
    using that by (auto elim!: replace_headers_wf [of "rq_headers req" h] simp: rb_headers_def Inr rb request_ok_def)
qed (use that assms in \<open>simp add: rb_headers_def\<close>)

lemma rb_orig_headers_ok: "builder_ok meth b \<Longrightarrow> hdr_wf h \<Longrightarrow> builder_ok meth (rb_orig_headers h b)"
  unfolding rb_orig_headers_def by (rule with_ext_ok) (simp_all add: orig_ok_def)

lemma rb_query_ok:
  assumes "builder_ok meth b" "op_ok (OpQuery Q s)"
  shows "builder_ok meth (rb_query Q s b)"
  using assms(1)
proof (cases rule: builder_ok_cases)
  case (Req req body)
  then have "absolute_uri v" if "ql_parse Q (rq_uri req) = Inr w" "s w = Inr w'" "ql_into_uri Q w' = Inr v" for w w' v
    using assms(2) that by (auto simp: request_ok_def)
  with Req show ?thesis by (simp add: rb_query_def Let_def request_ok_def split: sum.split)
qed (use assms in \<open>simp add: rb_query_def\<close>)

lemma typed_body_ok:
  assumes "builder_ok meth b"
  shows "builder_ok meth (typed_body mime s b)"
  using assms
  by (cases rule: builder_ok_cases) (use assms in \<open>simp_all add: typed_body_def request_ok_def split: sum.split\<close>)

lemma rb_multipart_ok:
  assumes "builder_ok meth b"
  shows "builder_ok meth (rb_multipart L enc i f b)"
  using assms
  by (cases rule: builder_ok_cases)
    (use assms in \<open>simp_all add: rb_multipart_def Let_def request_ok_def split_beta split: sum.split option.split\<close>)

lemma rb_emulation_ok:
  assumes "builder_ok meth b" "op_ok (OpEmulation e)"
  shows "\<exists>b'. rb_emulation e b = Some b' \<and> builder_ok meth b'"
proof (cases b)
  case (Inr rb)
  let ?b = "with_options (\<lambda>ro. ro\<lparr>ro_group := group_emulate (em_group e) (ro_group ro), ro_tls := em_tls e,
      ro_http1 := em_http1 e, ro_http2 := em_http2 e\<rparr>) b"
  have "builder_ok meth ?b"
    using assms by (intro with_options_ok) (auto intro: caller_emulate)
  moreover have "hdr_wf (em_headers e)" using assms(2) by simp
  ultimately obtain b' where "rb_headers (em_headers e) ?b = Some b'" "builder_ok meth b'"
    by (rule rb_headers_ok)
  then show ?thesis
    using assms(2) Inr by (auto simp: rb_emulation_def intro: rb_orig_headers_ok)
qed (use assms in \<open>simp add: rb_emulation_def\<close>)

lemmas rb_simple_defs =
  rb_header_def rb_auth_def rb_basic_auth_def rb_bearer_auth_def rb_form_def rb_json_def rb_default_headers_def
  rb_timeout_def rb_read_timeout_def rb_redirect_def rb_cookie_provider_def rb_gzip_def rb_brotli_def rb_deflate_def
  rb_zstd_def with_encoding_def rb_proxy_def with_bind_def rb_local_address_def rb_local_addresses_def rb_interface_def
  rb_group_def rb_version_def request_set_version_def

lemma apply_op_ok:
  assumes "builder_ok meth b" "op_ok op"
  shows "\<exists>b'. apply_op L enc P op b = Some b' \<and> builder_ok meth b'"
proof (cases op)
  case (OpHeaders h)
  with assms show ?thesis using rb_headers_ok [of meth b h] by (metis apply_op.simps(2) op_ok.simps(1))
next
  case (OpBody x)
  with assms show ?thesis by (cases b) (auto simp: rb_body_def builder_ok_def)
next
  case (OpVersion v)
  have "builder_ok meth (with_request (request_set_version (Some v)) b)"
    using with_options_ok [OF assms(1), of "\<lambda>ro. ro\<lparr>ro_version := Some v\<rparr>"]
    by (simp add: with_options_def request_set_version_def)
  then show ?thesis using OpVersion by (auto simp: rb_version_def intro: with_options_ok)
next
  case (OpGroup g)
  with assms show ?thesis by (auto simp: rb_group_def intro!: with_options_ok intro: caller_request)
next
  case (OpQuery Q s)
  with assms show ?thesis using rb_query_ok [of meth b Q s] by (simp del: op_ok.simps)
next
  case (OpEmulation e)
  with assms show ?thesis using rb_emulation_ok [of meth b e] by simp
qed (use assms in \<open>simp_all add: rb_simple_defs header_sensitive_ok typed_body_ok rb_multipart_ok rb_orig_headers_ok
    with_ext_ok with_options_ok\<close>)

lemma builder_run_ok:
  "builder_ok meth b \<Longrightarrow> list_all op_ok ops \<Longrightarrow> \<exists>b'. builder_run L enc P ops b = Some b' \<and> builder_ok meth b'"
proof (induction ops arbitrary: b)
  case (Cons op ops)
  then obtain b1 where "apply_op L enc P op b = Some b1" "builder_ok meth b1"
    using apply_op_ok [of meth b op L enc P] by auto
  with Cons show ?case by simp
qed simp

lemma builder_run_error: "builder_run L enc P ops (Inl e) = Some (Inl e)"
proof (induction ops)
  case (Cons op ops)
  have "apply_op L enc P op (Inl e) = Some (Inl e)"
    by (cases op) (simp_all add: rb_simple_defs header_sensitive_def rb_headers_def rb_orig_headers_def rb_query_def
        typed_body_def rb_body_def rb_multipart_def rb_emulation_def with_ext_def with_options_def with_request_def)
  with Cons show ?case by simp
qed simp

lemma set_userinfo_cases:
  assumes "uri_lib_ok U"
  obtains "set_userinfo U u n p = u"
  | a a' where "uri_authority u = Some a" "auth_str a' = userinfo_text U a n p"
      "set_userinfo U u n p = u\<lparr>uri_authority := Some a'\<rparr>"
proof -
  have str: "auth_str a = s" if "lib_parse_authority U s = Some a" for s a
    using assms that unfolding uri_lib_ok_def by blast
  have parts: "v = u" if "lib_from_parts U u = Some v" for u v
    using assms that unfolding uri_lib_ok_def by blast
  have "set_userinfo U u n p = u \<or> (\<exists>a a'. uri_authority u = Some a \<and> auth_str a' = userinfo_text U a n p \<and>
      set_userinfo U u n p = u\<lparr>uri_authority := Some a'\<rparr>)"
    by (auto simp: set_userinfo_def dest: parts str split: option.split)
  with that show thesis by blast
qed

lemma set_userinfo_absolute:
  assumes "uri_lib_ok U" "absolute_uri u"
  shows "absolute_uri (set_userinfo U u n p)"
  using assms(1) by (rule set_userinfo_cases [of U u n p]) (use assms(2) in \<open>simp_all add: absolute_uri_def\<close>)

lemma into_uri_errors: "into_uri_kind pl k = Inl e \<Longrightarrow> is_builder e \<or> is_decode e"
  by (auto simp: into_uri_kind_def internal_parse_def into_uri_uri_def uri_bad_scheme_def is_builder_def is_decode_def
      err_builder_def err_decode_def err_new_def split: option.splits sum.splits uri_kind.splits if_splits)

lemma into_uri_absolute_uri: "into_uri_kind pl k = Inr u \<Longrightarrow> absolute_uri u"
  by (auto simp: into_uri_kind_def into_uri_uri_Inr absolute_uri_def split: sum.splits)

lemma rb_new_ok:
  assumes "uri_lib_ok (bd_uri L)" "builder_ok meth b"
  shows "builder_ok meth (rb_new L b)"
  using assms(2)
proof (cases rule: builder_ok_cases)
  case (Req req body)
  obtain cred v where ex: "extract_authority L (rq_uri req) = (cred, v)" by fastforce
  have "absolute_uri (rq_uri req)" using Req by (simp add: request_ok_def)
  then have "absolute_uri v"
    using ex set_userinfo_absolute [OF assms(1)]
    by (auto simp: extract_authority_def Let_def split: prod.splits option.splits if_splits)
  then have "builder_ok meth (Inr (req\<lparr>rq_uri := v\<rparr>, body))"
    using Req by (simp add: request_ok_def)
  then show ?thesis
    using Req ex by (auto simp: rb_new_def rb_basic_auth_def header_sensitive_ok split: option.split)
qed (use assms in \<open>simp add: rb_new_def\<close>)

lemma client_request_ok:
  assumes "uri_lib_ok (bd_uri L)"
  shows "builder_ok meth (client_request L meth (into_uri_kind pl k))"
proof -
  have "builder_ok meth (map_sum id (request_new meth) (into_uri_kind pl k))"
    using into_uri_errors [of pl k] into_uri_absolute_uri [of pl k]
    by (cases "into_uri_kind pl k")
      (auto simp: builder_ok_def request_new_def request_ok_def extensions_new_def options_ok_def orig_ok_def rc_get_def)
  then show ?thesis unfolding client_request_def by (rule rb_new_ok [OF assms])
qed

text \<open>C32: whatever calls a caller makes, building a request never panics.  The first error stays until the end and is a
  builder error, or the decode error of the URI; otherwise the request has the method it was started with, an absolute
  URI, well-formed header maps and, if a group was set, a group that the key of its connection is defined for.\<close>

theorem built_requests_ok:
  assumes "uri_lib_ok (bd_uri L)" "list_all op_ok ops"
  shows "(\<exists>b. builder_run L enc P ops (client_request L meth (into_uri_kind pl k)) = Some b \<and> builder_ok meth b) \<and>
    builder_run L enc P ops' (Inl e) = Some (Inl e)"
  using builder_run_ok [OF client_request_ok [OF assms(1), of meth pl k] assms(2)] builder_run_error by blast

section \<open>Credentials in the URI\<close>

lemma strip_userinfo:
  assumes U: "uri_lib_ok U" and a: "uri_authority u = Some a" "lib_parse_authority U (host_and_port a) = Some a2"
    "lib_from_parts U (u\<lparr>uri_authority := Some a2\<rparr>) \<noteq> None"
  shows "set_userinfo U u [] None = u\<lparr>uri_authority := Some a2\<rparr>"
    "userinfo (u\<lparr>uri_authority := Some a2\<rparr>) = (None, None)" "host_and_port a2 = host_and_port a"
proof -
  have hp: "userinfo_text U a [] None = host_and_port a" by (simp add: userinfo_text_def)
  have str: "auth_str a2 = userinfo_text U a [] None"
    using U a(2) unfolding uri_lib_ok_def hp by blast
  have parts: "w = v" if "lib_from_parts U v = Some w" for v w
    using U that unfolding uri_lib_ok_def by blast
  show "set_userinfo U u [] None = u\<lparr>uri_authority := Some a2\<rparr>"
    using a by (auto simp: set_userinfo_def hp dest: parts)
  show "userinfo (u\<lparr>uri_authority := Some a2\<rparr>) = (None, None)"
    using userinfo_of_userinfo_text [OF U _ str, of "u\<lparr>uri_authority := Some a2\<rparr>"] by simp
  show "host_and_port a2 = host_and_port a" by (rule host_and_port_userinfo_text [OF str])
qed

lemma uri_credentials:
  assumes "uri_lib_ok (bd_uri L)" "uri_authority u = Some a" "userinfo u = (Some n, p)"
    and "utf8_valid (bd_percent_decode L n)"
    and "case p of Some q \<Rightarrow> utf8_valid (bd_percent_decode L q) | None \<Rightarrow> bd_percent_decode L n \<noteq> []"
    and "lib_parse_authority (bd_uri L) (host_and_port a) = Some a2"
    and "lib_from_parts (bd_uri L) (u\<lparr>uri_authority := Some a2\<rparr>) \<noteq> None"
  shows "\<exists>req. client_request L meth (Inr u) = Inr (req, None) \<and>
    rq_headers req =
      [(''authorization'', [basic_auth (bd_base64 L) (bd_percent_decode L n) (map_option (bd_percent_decode L) p)])] \<and>
    hv_sensitive (basic_auth (bd_base64 L) (bd_percent_decode L n) (map_option (bd_percent_decode L) p)) \<and>
    userinfo (rq_uri req) = (None, None) \<and>
    uri_scheme (rq_uri req) = uri_scheme u \<and> uri_pq (rq_uri req) = uri_pq u \<and>
    map_option host_and_port (uri_authority (rq_uri req)) = Some (host_and_port a)"
proof -
  note strip = strip_userinfo [OF assms(1,2,6,7)]
  have "extract_authority L u =
      (Some (bd_percent_decode L n, map_option (bd_percent_decode L) p), u\<lparr>uri_authority := Some a2\<rparr>)"
    using assms(3-5) strip(1) by (cases p) (simp_all add: extract_authority_def)
  then show ?thesis
    by (simp add: strip(2,3) client_request_def rb_new_def request_new_def rb_basic_auth_def header_sensitive_def
        hdr_append_def hdr_get_all_def basic_auth_def)
qed

text \<open>C33: credentials in the URI of a request.  Take a URI with a user name that, percent-decoded, is UTF-8, with or without
  a password; a password decodes to UTF-8 too, and without one the decoded user name is not empty.  The request then has
  exactly one header, an \<^verbatim>\<open>Authorization\<close> header marked sensitive with the Basic credentials of the decoded user name and
  password, and its URI holds no credentials any more but the same scheme, host, port, path and query.  The library accepts
  the authority without the user information.  Nothing is claimed of a URI with a password and no user name, nor of user
  names and passwords that do not decode to UTF-8.\<close>

theorem uri_credentials_used:
  assumes "uri_lib_ok (bd_uri L)" "uri_authority u = Some a" "userinfo u = (Some n, p)"
    and "utf8_valid (bd_percent_decode L n)"
    and "case p of Some q \<Rightarrow> utf8_valid (bd_percent_decode L q) | None \<Rightarrow> bd_percent_decode L n \<noteq> []"
    and "lib_parse_authority (bd_uri L) (host_and_port a) = Some a2"
    and "lib_from_parts (bd_uri L) (u\<lparr>uri_authority := Some a2\<rparr>) \<noteq> None"
  shows "\<exists>req. client_request L meth (Inr u) = Inr (req, None) \<and>
    rq_headers req =
      [(''authorization'', [basic_auth (bd_base64 L) (bd_percent_decode L n) (map_option (bd_percent_decode L) p)])] \<and>
    hv_sensitive (basic_auth (bd_base64 L) (bd_percent_decode L n) (map_option (bd_percent_decode L) p)) \<and>
    userinfo (rq_uri req) = (None, None) \<and>
    uri_scheme (rq_uri req) = uri_scheme u \<and> uri_pq (rq_uri req) = uri_pq u \<and>
    map_option host_and_port (uri_authority (rq_uri req)) = Some (host_and_port a)"
  using assms by (rule uri_credentials)

text \<open>A password without a user name stays in the URI, and no header is set.\<close>

theorem password_without_user_stays:
  assumes "userinfo u = (None, Some p)"
  shows "client_request L meth (Inr u) = Inr (request_new meth u)"
  using assms by (simp add: client_request_def rb_new_def extract_authority_def request_new_def)

text \<open>A password that is not UTF-8 after decoding is dropped.\<close>

theorem invalid_password_dropped:
  assumes "userinfo u = (Some n, Some p)" "bd_percent_decode L n \<noteq> []" "utf8_valid (bd_percent_decode L n)"
    "\<not> utf8_valid (bd_percent_decode L p)"
  shows "fst (extract_authority L u) = Some (bd_percent_decode L n, None)"
  using assms by (simp add: extract_authority_def)

text \<open>\<^verbatim>\<open>header\<close> adds a value and replaces none.\<close>

theorem header_appends:
  "rb_header (Inr k) (Inr v) (Inr (req, body)) = Inr (req\<lparr>rq_headers := hdr_append k v (rq_headers req)\<rparr>, body)"
  by (simp add: rb_header_def header_sensitive_def)

text \<open>A copy has the version of a new request, whatever the version of the \<^verbatim>\<open>http::Request\<close> it was converted from.\<close>

theorem try_clone_version:
  "request_try_clone (request_from_http req (Full b)) = Some (req\<lparr>rq_version := HTTP_11\<rparr>, Some (Full b))"
  by (simp add: request_try_clone_def request_from_http_def request_new_def request_set_version_def on_options_def)

section \<open>Concrete requests\<close>

definition sample_builder_lib :: builder_lib where
  "sample_builder_lib =
     \<lparr>bd_uri = sample_lib, bd_base64 = (\<lambda>s. s), bd_header_value = (\<lambda>s. Inr \<lparr>hv_bytes = s, hv_sensitive = False\<rparr>),
      bd_percent_decode = hex_decode\<rparr>"

definition sample_query :: "(uri \<times> string) query_lib" where
  "sample_query =
     \<lparr>ql_parse = (\<lambda>u. Inr (u, [])), ql_query = (\<lambda>(u, q). Some q),
      ql_into_uri = (\<lambda>(u, q). Inr (u\<lparr>uri_pq := Some (''/'', Some q)\<rparr>))\<rparr>"

definition sample_ops :: "(unit, unit, unit, unit, unit, unit, unit, uri \<times> string) builder_op list" where
  "sample_ops =
     [OpHeaders [(''te'', [\<lparr>hv_bytes = ''x'', hv_sensitive = False\<rparr>])], OpQuery sample_query (\<lambda>(u, q). Inr (u, q @ ''a=b'')),
      OpGroup (group_new (Number 1)), OpVersion HTTP_2]"

definition sample_parse :: parse_lib where
  "sample_parse =
     \<lparr>pl_uri = (\<lambda>s. Some \<lparr>uri_scheme = Some ''http'', uri_authority = Some \<lparr>auth_str = s, auth_host = s, auth_port = None\<rparr>,
        uri_pq = None\<rparr>), pl_url = Some\<rparr>"

theorem built_requests_ok_witness:
  "\<exists>b. builder_run sample_builder_lib sample_encoder sample_proxy_lib sample_ops
      (client_request sample_builder_lib ''GET'' (into_uri_kind sample_parse (Str ''h''))) = Some b \<and> builder_ok ''GET'' b"
proof -
  have "list_all op_ok sample_ops"
    by (auto simp: sample_ops_def sample_query_def absolute_uri_def hdr_wf_def hm_wf_def caller_new)
  moreover have "uri_lib_ok (bd_uri sample_builder_lib)" by (simp add: sample_builder_lib_def sample_lib_ok)
  ultimately show ?thesis
    using built_requests_ok [of sample_builder_lib sample_ops sample_encoder sample_proxy_lib "''GET''" sample_parse "Str ''h''"
        sample_ops BadScheme] by blast
qed

theorem uri_credentials_used_witness:
  "\<exists>req. (client_request sample_builder_lib ''GET''
        (Inr \<lparr>uri_scheme = Some ''http'', uri_authority = Some \<lparr>auth_str = ''me:p%3Aw@h'', auth_host = ''h'', auth_port = None\<rparr>,
           uri_pq = None\<rparr>) :: (unit, unit) request_builder) = Inr (req, None) \<and>
    rq_headers req = [(''authorization'', [\<lparr>hv_bytes = ''Basic me:p:w'', hv_sensitive = True\<rparr>])] \<and>
    userinfo (rq_uri req) = (None, None)"
proof -
  let ?a = "\<lparr>auth_str = ''me:p%3Aw@h'', auth_host = ''h'', auth_port = None\<rparr>"
  let ?u = "\<lparr>uri_scheme = Some ''http'', uri_authority = Some ?a, uri_pq = None\<rparr>"
  have L: "bd_uri sample_builder_lib = sample_lib" "bd_base64 sample_builder_lib = (\<lambda>s. s)"
    "bd_percent_decode sample_builder_lib = hex_decode"
    by (simp_all add: sample_builder_lib_def)
  have u: "userinfo ?u = (Some ''me'', Some ''p%3Aw'')" "hex_decode ''me'' = ''me''" "hex_decode ''p%3Aw'' = ''p:w''"
    "utf8_valid ''me''" "utf8_valid ''p:w''"
    by code_simp+
  show ?thesis
    using uri_credentials_used [of sample_builder_lib ?u ?a "''me''" "Some ''p%3Aw''" _ "''GET''", where 'a = unit and 'b = unit]
      sample_lib_ok u
    by (simp add: L sample_lib_simps basic_auth_def) blast
qed

end
