(* ===== verification/Tcp_Connect.thy ===== *)
theory Tcp_Connect
  imports Conn_Model Timeouts "HOL-Library.Multiset"
begin

text \<open>
  Opening a TCP connection to a host: address lists (\<^verbatim>\<open>dns.rs\<close>, \<^verbatim>\<open>dns/resolve.rs\<close>), the connector for a URI
  (\<^verbatim>\<open>conn/http.rs\<close>) and the race of connection attempts (\<^verbatim>\<open>conn/net/tcp.rs\<close>), on Linux.

  A socket is the list of the calls made on it; what the system answers to a call is a parameter.  A sleep is
  its deadline.  The race is a machine: one step is one poll of the active attempts and of the delay, and it
  is given the time and what the attempts return.  Shown: how the race walks through the addresses, how many
  attempts it keeps, that it ends, and what it returns.
\<close>

section \<open>Addresses and name resolution\<close>

datatype socket_addr = SockV4 "32 word" "16 word" | SockV6 "128 word" "16 word" "32 word" "32 word"

fun is_ipv4 :: "socket_addr \<Rightarrow> bool" where
  "is_ipv4 (SockV4 _ _) = True"
| "is_ipv4 (SockV6 _ _ _ _) = False"

definition is_ipv6 :: "socket_addr \<Rightarrow> bool" where
  "is_ipv6 a \<longleftrightarrow> \<not> is_ipv4 a"

fun sock_port :: "socket_addr \<Rightarrow> 16 word" where
  "sock_port (SockV4 _ p) = p"
| "sock_port (SockV6 _ p _ _) = p"

fun sock_set_port :: "socket_addr \<Rightarrow> 16 word \<Rightarrow> socket_addr" where
  "sock_set_port (SockV4 a _) p = SockV4 a p"
| "sock_set_port (SockV6 a _ f s) p = SockV6 a p f s"

definition try_parse :: "string \<Rightarrow> 16 word \<Rightarrow> socket_addr list option" where
  "try_parse host port =
     (case read_ipv4 host of
        Some (a, []) \<Rightarrow> Some [SockV4 (v4_of a) port]
      | _ \<Rightarrow>
          (case read_ipv6 host of
             Some (g, []) \<Rightarrow> Some [SockV6 (v6_of g) port 0 0]
           | _ \<Rightarrow> None))"

definition split_by_preference ::
  "socket_addr list \<Rightarrow> 32 word option \<Rightarrow> 128 word option \<Rightarrow> socket_addr list \<times> socket_addr list"
where
  "split_by_preference addrs local4 local6 =
     (case (local4, local6) of
        (Some _, None) \<Rightarrow> (filter is_ipv4 addrs, [])
      | (None, Some _) \<Rightarrow> (filter is_ipv6 addrs, [])
      | _ \<Rightarrow>
          (let preferring_v6 = (case addrs of [] \<Rightarrow> False | a # _ \<Rightarrow> is_ipv6 a)
           in partition (\<lambda>a. is_ipv6 a = preferring_v6) addrs))"

text \<open>A resolver is a function from names to an answer; overrides come first, and a failure is wrapped by
  \<^verbatim>\<open>DynResolver\<close>.\<close>

type_synonym resolver = "string \<Rightarrow> (error, socket_addr list) result"

definition resolve_with_overrides :: "(string, socket_addr list) hash_map \<Rightarrow> resolver \<Rightarrow> resolver" where
  "resolve_with_overrides overrides inner name =
     (case hm_get overrides name of Some dest \<Rightarrow> Inr dest | None \<Rightarrow> inner name)"

definition dyn_resolve :: "resolver \<Rightarrow> resolver" where
  "dyn_resolve r name = (case r name of Inl e \<Rightarrow> Inl (DnsError e) | Inr a \<Rightarrow> Inr a)"

section \<open>Connection errors\<close>

record tcp_error =
  te_msg :: string
  te_addr :: "socket_addr option"
  te_cause :: "error option"

definition tcp_error_new :: "string \<Rightarrow> error \<Rightarrow> tcp_error" where
  "tcp_error_new msg cause = \<lparr>te_msg = msg, te_addr = None, te_cause = Some cause\<rparr>"

definition tcp_error_tcp :: "error \<Rightarrow> tcp_error" where
  "tcp_error_tcp cause = tcp_error_new ''tcp connect error'' cause"

definition network_unreachable :: tcp_error where
  "network_unreachable = tcp_error_tcp (IoError IoNotConnected (Some (Other ''Network unreachable'' None)))"

definition tcp_error_dns :: "error \<Rightarrow> tcp_error" where
  "tcp_error_dns cause = tcp_error_new ''dns error'' cause"

definition with_addr :: "tcp_error \<Rightarrow> socket_addr \<Rightarrow> tcp_error" where
  "with_addr e a = e\<lparr>te_addr := Some a\<rparr>"

text \<open>A \<^verbatim>\<open>ConnectError\<close> seen as a boxed error.\<close>

definition tcp_error_box :: "tcp_error \<Rightarrow> error" where
  "tcp_error_box e = ConnectError (te_msg e) (te_cause e)"

section \<open>Options and sockets\<close>

record keepalive =
  ka_time :: "nat option"
  ka_interval :: "nat option"
  ka_retries :: "nat option"

definition into_tcpkeepalive :: "keepalive \<Rightarrow> keepalive option" where
  "into_tcpkeepalive k =
     (if ka_time k \<noteq> None \<or> ka_interval k \<noteq> None \<or> ka_retries k \<noteq> None then Some k else None)"

record tcp_options =
  tcp_enforce_http :: bool
  tcp_connect_timeout :: "nat option"
  tcp_happy_eyeballs :: "nat option"
  tcp_nodelay :: bool
  tcp_reuse_address :: bool
  tcp_linger :: "nat option"
  tcp_send_buffer :: "nat option"
  tcp_recv_buffer :: "nat option"
  tcp_user_timeout :: "nat option"
  tcp_keepalive :: keepalive
  tcp_bind :: socket_bind

datatype sock_op =
    OpenStream bool | Nonblocking | Keepalive keepalive | BindDevice string | UserTimeout nat
  | BindAddr ip_addr | ReuseAddress | Linger nat | SendBuffer nat | RecvBuffer nat | Nodelay bool

definition bind_local_address :: "socket_addr \<Rightarrow> 32 word option \<Rightarrow> 128 word option \<Rightarrow> sock_op list" where
  "bind_local_address dst local4 local6 =
     (case (dst, local4, local6) of
        (SockV4 _ _, Some a, _) \<Rightarrow> [BindAddr (V4 a)]
      | (SockV6 _ _ _ _, _, Some a) \<Rightarrow> [BindAddr (V6 a)]
      | _ \<Rightarrow> [])"

text \<open>The calls \<^verbatim>\<open>connect\<close> makes on a new socket, in their order, each with the message of its error if its
  failure ends the attempt; the failure of the others is only logged.\<close>

definition opt_ops :: "'a option \<Rightarrow> ('a \<Rightarrow> sock_op) \<Rightarrow> string option \<Rightarrow> (sock_op \<times> string option) list" where
  "opt_ops v f msg = (case v of Some x \<Rightarrow> [(f x, msg)] | None \<Rightarrow> [])"

definition connect_ops :: "socket_addr \<Rightarrow> tcp_options \<Rightarrow> (sock_op \<times> string option) list" where
  "connect_ops addr config =
     [(OpenStream (is_ipv6 addr), Some ''tcp open error''),
      (Nonblocking, Some ''tcp set_nonblocking error'')] @
     opt_ops (into_tcpkeepalive (tcp_keepalive config)) Keepalive None @
     opt_ops (sb_interface (tcp_bind config)) BindDevice (Some ''tcp bind interface error'') @
     opt_ops (tcp_user_timeout config) UserTimeout None @
     map (\<lambda>op. (op, Some ''tcp bind local error''))
       (bind_local_address addr (sb_ipv4 (tcp_bind config)) (sb_ipv6 (tcp_bind config))) @
     (if tcp_reuse_address config then [(ReuseAddress, None)] else []) @
     opt_ops (tcp_linger config) Linger None @
     opt_ops (tcp_send_buffer config) SendBuffer None @
     opt_ops (tcp_recv_buffer config) RecvBuffer None @
     [(Nodelay (tcp_nodelay config), None)]"

text \<open>Performing them: the answer of the system to a call is \<open>None\<close> when it succeeds.\<close>

fun perform_ops :: "(sock_op \<Rightarrow> error option) \<Rightarrow> (sock_op \<times> string option) list \<Rightarrow> tcp_error option" where
  "perform_ops sys [] = None"
| "perform_ops sys ((op, msg) # ops) =
     (case (sys op, msg) of
        (Some e, Some m) \<Rightarrow> Some (tcp_error_new m e)
      | _ \<Rightarrow> perform_ops sys ops)"

text \<open>\<^verbatim>\<open>connect\<close> returns the future of the connection, or the error of the socket.\<close>

definition tcp_connect :: "socket_addr \<Rightarrow> tcp_options \<Rightarrow> (sock_op \<Rightarrow> error option) \<Rightarrow> tcp_error option" where
  "tcp_connect addr config sys = perform_ops sys (connect_ops addr config)"

section \<open>Driving a connection future\<close>

text \<open>A connection future is a machine.  A step is one poll of what it waits for, given the time, the system's answer
  to a call on the socket of the attempt with a given number, and what polling that attempt returns.  After a
  step the machine has finished, goes on within the same poll, or is parked until it is polled again.\<close>

type_synonym sys_calls = "nat \<Rightarrow> sock_op \<Rightarrow> error option"

record 'c tcp_env =
  env_now :: nat
  env_sys :: sys_calls
  env_poll :: "nat \<Rightarrow> (error, 'c) result poll"

datatype ('s, 'c) progress = Complete "(tcp_error, 'c) result" | Again 's | Parked 's

text \<open>\<^verbatim>\<open>connect_with_timeout\<close>: the deadline counts only when the connection is not ready.\<close>

definition connect_with_timeout :: "nat option \<Rightarrow> nat \<Rightarrow> ('s, 'c) progress \<Rightarrow> ('s, 'c) progress" where
  "connect_with_timeout deadline now p =
     (case p of
        Parked s \<Rightarrow>
          if sleep_ready deadline now
          then Complete (Inl (tcp_error_tcp (IoError IoTimedOut (Some (Other ''connect timeout'' None)))))
          else Parked s
      | _ \<Rightarrow> p)"

fun drive ::
  "('c tcp_env \<Rightarrow> 's \<Rightarrow> ('s, 'c) progress) \<Rightarrow> nat option \<Rightarrow> ('s, 'c) progress \<Rightarrow> 'c tcp_env list \<Rightarrow>
   ('s, 'c) progress"
where
  "drive step deadline (Complete r) es = Complete r"
| "drive step deadline p [] = p"
| "drive step deadline (Again s) (e # es) =
     drive step deadline (connect_with_timeout deadline (env_now e) (step e s)) es"
| "drive step deadline (Parked s) (e # es) =
     drive step deadline (connect_with_timeout deadline (env_now e) (step e s)) es"

section \<open>Sequential connection\<close>

text \<open>\<^verbatim>\<open>ConnectingTcpRemote::connect_inner\<close>: the attempt it waits for, the first error and the other addresses.\<close>

record seq_state =
  sq_addr :: socket_addr
  sq_order :: nat
  sq_first_error :: "tcp_error option"
  sq_rest :: "socket_addr list"

definition or_error :: "tcp_error option \<Rightarrow> tcp_error \<Rightarrow> tcp_error option" where
  "or_error first e = (if first = None then Some e else first)"

fun seq_launch ::
  "tcp_options \<Rightarrow> sys_calls \<Rightarrow> nat \<Rightarrow> tcp_error option \<Rightarrow> socket_addr list \<Rightarrow> (seq_state, 'c) progress"
where
  "seq_launch config sys n first_error [] =
     Complete (Inl (case first_error of Some e \<Rightarrow> e | None \<Rightarrow> network_unreachable))"
| "seq_launch config sys n first_error (addr # addrs) =
     (case tcp_connect addr config (sys n) of
        None \<Rightarrow> Again \<lparr>sq_addr = addr, sq_order = n, sq_first_error = first_error, sq_rest = addrs\<rparr>
      | Some e \<Rightarrow> seq_launch config sys (Suc n) (or_error first_error (with_addr e addr)) addrs)"

definition seq_step :: "tcp_options \<Rightarrow> 'c tcp_env \<Rightarrow> seq_state \<Rightarrow> (seq_state, 'c) progress" where
  "seq_step config env s =
     (case env_poll env (sq_order s) of
        NotReady \<Rightarrow> Parked s
      | Ready (Inr c) \<Rightarrow> Complete (Inr c)
      | Ready (Inl e) \<Rightarrow>
          seq_launch config (env_sys env) (Suc (sq_order s))
            (or_error (sq_first_error s) (with_addr (tcp_error_tcp e) (sq_addr s))) (sq_rest s))"

section \<open>The race\<close>

definition max_parallel_connect_attempts :: nat where
  "max_parallel_connect_attempts = 6"

record connecting_tcp =
  cg_preferred :: "socket_addr list"
  cg_fallback :: "(nat \<times> socket_addr list) option"

text \<open>\<^verbatim>\<open>ConnectingTcp::new\<close> at the time \<open>now\<close>, at which the delay of the fallback starts.\<close>

definition connecting_new :: "socket_addr list \<Rightarrow> tcp_options \<Rightarrow> nat \<Rightarrow> connecting_tcp" where
  "connecting_new addrs config now =
     (case tcp_happy_eyeballs config of
        Some d \<Rightarrow>
          (let (preferred, fallback) =
                 split_by_preference addrs (sb_ipv4 (tcp_bind config)) (sb_ipv6 (tcp_bind config))
           in \<lparr>cg_preferred = preferred,
               cg_fallback = (if fallback = [] then None else Some (now + d, fallback))\<rparr>)
      | None \<Rightarrow> \<lparr>cg_preferred = addrs, cg_fallback = None\<rparr>)"

record tcp_attempt =
  ta_addr :: socket_addr
  ta_order :: nat

record tcp_state =
  ts_preferred :: "socket_addr list"
  ts_fallback :: "socket_addr list option"
  ts_initial_delay :: "nat option"
  ts_next_fallback :: bool
  ts_delay :: "nat option"
  ts_attempts :: "tcp_attempt list"
  ts_next_order :: nat
  ts_first_error :: "(nat \<times> tcp_error) option"

definition tcp_state_new :: "connecting_tcp \<Rightarrow> nat option \<Rightarrow> tcp_state" where
  "tcp_state_new c delay =
     \<lparr>ts_preferred = cg_preferred c, ts_fallback = map_option snd (cg_fallback c),
      ts_initial_delay = map_option fst (cg_fallback c), ts_next_fallback = False, ts_delay = delay,
      ts_attempts = [], ts_next_order = 0, ts_first_error = None\<rparr>"

definition has_fallback :: "tcp_state \<Rightarrow> bool" where
  "has_fallback st \<longleftrightarrow> (case ts_fallback st of Some (_ # _) \<Rightarrow> True | _ \<Rightarrow> False)"

definition has_remaining_addrs :: "tcp_state \<Rightarrow> bool" where
  "has_remaining_addrs st \<longleftrightarrow> ts_preferred st \<noteq> [] \<or> has_fallback st"

text \<open>\<^verbatim>\<open>next_remote\<close> and the \<^verbatim>\<open>next\<close> of \<^verbatim>\<open>connect_next\<close>: the address, and the state without it.\<close>

definition next_remote :: "tcp_state \<Rightarrow> (bool \<times> tcp_state) option" where
  "next_remote st =
     (let use = (case (ts_next_fallback st, ts_preferred st \<noteq> [], has_fallback st) of
                   (_, False, False) \<Rightarrow> None
                 | (True, _, True) \<Rightarrow> Some True
                 | (_, False, True) \<Rightarrow> Some True
                 | _ \<Rightarrow> Some False)
      in map_option (\<lambda>fb. (fb, st\<lparr>ts_next_fallback := \<not> fb\<rparr>)) use)"

definition take_addr :: "bool \<Rightarrow> tcp_state \<Rightarrow> (socket_addr \<times> tcp_state) option" where
  "take_addr fb st =
     (if fb then
        (case ts_fallback st of
           Some (a # as) \<Rightarrow> Some (a, st\<lparr>ts_fallback := Some as\<rparr>)
         | _ \<Rightarrow> None)
      else
        (case ts_preferred st of
           a # as \<Rightarrow> Some (a, st\<lparr>ts_preferred := as\<rparr>)
         | [] \<Rightarrow> None))"

definition record_error :: "nat \<Rightarrow> tcp_error \<Rightarrow> tcp_state \<Rightarrow> tcp_state" where
  "record_error order e st =
     (case ts_first_error st of
        Some (first, _) \<Rightarrow> if first \<le> order then st else st\<lparr>ts_first_error := Some (order, e)\<rparr>
      | None \<Rightarrow> st\<lparr>ts_first_error := Some (order, e)\<rparr>)"

definition remaining :: "tcp_state \<Rightarrow> nat" where
  "remaining st = length (ts_preferred st) + (case ts_fallback st of Some as \<Rightarrow> length as | None \<Rightarrow> 0)"

function launch_next :: "tcp_options \<Rightarrow> sys_calls \<Rightarrow> tcp_state \<Rightarrow> bool \<times> tcp_state" where
  "launch_next config sys st =
     (case next_remote st of
        None \<Rightarrow> (False, st)
      | Some (fb, st1) \<Rightarrow>
          (case take_addr fb st1 of
             None \<Rightarrow> (False, st1)
           | Some (addr, st2) \<Rightarrow>
               (let order = ts_next_order st2;
                    st3 = st2\<lparr>ts_next_order := u64_saturating_add order 1\<rparr>
                in (case tcp_connect addr config (sys order) of
                      None \<Rightarrow>
                        (True, st3\<lparr>ts_initial_delay := (if order \<noteq> 0 then None else ts_initial_delay st3),
                                   ts_attempts := ts_attempts st3 @ [\<lparr>ta_addr = addr, ta_order = order\<rparr>]\<rparr>)
                    | Some e \<Rightarrow> launch_next config sys (record_error order (with_addr e addr) st3)))))"
  by pat_completeness auto
termination
  by (relation "measure (\<lambda>(config, sys, st). remaining st)")
    (auto simp: next_remote_def take_addr_def remaining_def record_error_def Let_def
      split: if_splits list.splits option.splits)

declare launch_next.simps [simp del]

datatype 'c tcp_event = EvConnected 'c | EvAllAttemptsFailed | EvDelayElapsed

text \<open>\<^verbatim>\<open>poll_attempts\<close> from the index after \<open>kept\<close> on.\<close>

fun poll_attempts ::
  "(nat \<Rightarrow> (error, 'c) result poll) \<Rightarrow> tcp_attempt list \<Rightarrow> bool \<Rightarrow> tcp_attempt list \<Rightarrow> tcp_state \<Rightarrow>
   tcp_state \<times> 'c tcp_event option"
where
  "poll_attempts answer kept failed [] st =
     (st\<lparr>ts_attempts := kept\<rparr>, if failed \<and> kept = [] then Some EvAllAttemptsFailed else None)"
| "poll_attempts answer kept failed (a # as) st =
     (case answer (ta_order a) of
        NotReady \<Rightarrow> poll_attempts answer (kept @ [a]) failed as st
      | Ready (Inr c) \<Rightarrow> (st\<lparr>ts_attempts := kept @ as\<rparr>, Some (EvConnected c))
      | Ready (Inl e) \<Rightarrow>
          poll_attempts answer kept True as
            (record_error (ta_order a) (with_addr (tcp_error_tcp e) (ta_addr a)) st))"

definition make_room_for_next_attempt :: "tcp_state \<Rightarrow> tcp_state" where
  "make_room_for_next_attempt st =
     (if length (ts_attempts st) < max_parallel_connect_attempts then st
      else st\<lparr>ts_attempts := tl (ts_attempts st)\<rparr>)"

definition take_error :: "tcp_state \<Rightarrow> tcp_error" where
  "take_error st = (case ts_first_error st of Some (_, e) \<Rightarrow> e | None \<Rightarrow> network_unreachable)"

text \<open>The loop of \<^verbatim>\<open>connect_inner\<close>: its head, up to the point where it waits (with the sleep it waits for), and
  one poll there.\<close>

definition tcp_race_head ::
  "tcp_options \<Rightarrow> sys_calls \<Rightarrow> nat \<Rightarrow> tcp_state \<Rightarrow> (nat option \<times> tcp_state, 'c) progress"
where
  "tcp_race_head config sys now st =
     (case (if ts_attempts st = [] then launch_next config sys st else (True, st)) of
        (False, st1) \<Rightarrow> Complete (Inl (take_error st1))
      | (True, st1) \<Rightarrow>
          (case (ts_delay st1, has_remaining_addrs st1) of
             (Some d, True) \<Rightarrow>
               Again (Some (case ts_initial_delay st1 of Some s \<Rightarrow> s | None \<Rightarrow> now + d),
                      st1\<lparr>ts_initial_delay := None\<rparr>)
           | _ \<Rightarrow> Again (None, st1)))"

definition tcp_race_event ::
  "tcp_options \<Rightarrow> sys_calls \<Rightarrow> nat \<Rightarrow> 'c tcp_event \<Rightarrow> tcp_state \<Rightarrow> (nat option \<times> tcp_state, 'c) progress"
where
  "tcp_race_event config sys now ev st =
     (case ev of
        EvConnected c \<Rightarrow> Complete (Inr c)
      | EvAllAttemptsFailed \<Rightarrow> tcp_race_head config sys now (snd (launch_next config sys st))
      | EvDelayElapsed \<Rightarrow>
          tcp_race_head config sys now (snd (launch_next config sys (make_room_for_next_attempt st))))"

definition tcp_race_step ::
  "tcp_options \<Rightarrow> 'c tcp_env \<Rightarrow> nat option \<times> tcp_state \<Rightarrow> (nat option \<times> tcp_state, 'c) progress"
where
  "tcp_race_step config env = (\<lambda>(sleep, st).
     (case poll_attempts (env_poll env) [] False (ts_attempts st) st of
        (st1, Some ev) \<Rightarrow> tcp_race_event config (env_sys env) (env_now env) ev st1
      | (st1, None) \<Rightarrow>
          if sleep_ready sleep (env_now env)
          then tcp_race_event config (env_sys env) (env_now env) EvDelayElapsed st1
          else Parked (sleep, st1)))"

section \<open>The connector\<close>

text \<open>\<^verbatim>\<open>ConnectingTcp::connect\<close>, started at \<open>now\<close> and driven through the environments \<open>es\<close>; \<open>None\<close> while it is not
  finished.\<close>

fun finished :: "('s, 'c) progress \<Rightarrow> (tcp_error, 'c) result option" where
  "finished (Complete r) = Some r"
| "finished _ = None"

definition connecting_connect ::
  "tcp_options \<Rightarrow> connecting_tcp \<Rightarrow> sys_calls \<Rightarrow> nat \<Rightarrow> 'c tcp_env list \<Rightarrow> (tcp_error, 'c) result option"
where
  "connecting_connect config c sys now es =
     (let deadline = map_option (\<lambda>t. now + t) (tcp_connect_timeout config)
      in if cg_fallback c = None \<and> (tcp_happy_eyeballs config = None \<or> length (cg_preferred c) \<le> 1)
         then finished (drive (seq_step config) deadline (seq_launch config sys 0 None (cg_preferred c)) es)
         else finished (drive (tcp_race_step config) deadline
                (tcp_race_head config sys now (tcp_state_new c (tcp_happy_eyeballs config))) es))"

definition get_host_port :: "tcp_options \<Rightarrow> uri \<Rightarrow> (tcp_error, string \<times> 16 word) result" where
  "get_host_port options dst =
     (if tcp_enforce_http options \<and> uri_scheme dst \<noteq> Some ''http'' then
        Inl \<lparr>te_msg = ''invalid URI, scheme is not http'', te_addr = None, te_cause = None\<rparr>
      else if \<not> tcp_enforce_http options \<and> uri_scheme dst = None then
        Inl \<lparr>te_msg = ''invalid URI, scheme is missing'', te_addr = None, te_cause = None\<rparr>
      else
        (case uri_host dst of
           None \<Rightarrow> Inl \<lparr>te_msg = ''invalid URI, host is missing'', te_addr = None, te_cause = None\<rparr>
         | Some host \<Rightarrow>
             Inr (host,
               case uri_port dst of
                 Some p \<Rightarrow> p
               | None \<Rightarrow> if uri_scheme dst = Some ''https'' then 443 else 80)))"

definition set_port :: "16 word \<Rightarrow> bool \<Rightarrow> socket_addr \<Rightarrow> socket_addr" where
  "set_port host_port explicit addr =
     (if explicit \<or> sock_port addr = 0 then sock_set_port addr host_port else addr)"

text \<open>The addresses the call connects to.\<close>

definition connector_addrs :: "tcp_options \<Rightarrow> resolver \<Rightarrow> uri \<Rightarrow> (tcp_error, socket_addr list) result" where
  "connector_addrs options resolver dst =
     (case get_host_port options dst of
        Inl e \<Rightarrow> Inl e
      | Inr (host0, port) \<Rightarrow>
          (let host = strip_ipv6_brackets host0
           in case try_parse host port of
                Some addrs \<Rightarrow> Inr addrs
              | None \<Rightarrow>
                  (case resolver host of
                     Inl e \<Rightarrow> Inl (tcp_error_dns e)
                   | Inr addrs \<Rightarrow> Inr (map (set_port port (uri_port dst \<noteq> None)) addrs))))"

definition http_connector_call ::
  "tcp_options \<Rightarrow> resolver \<Rightarrow> uri \<Rightarrow> sys_calls \<Rightarrow> nat \<Rightarrow> 'c tcp_env list \<Rightarrow> (tcp_error, 'c) result option"
where
  "http_connector_call options resolver dst sys now es =
     (case connector_addrs options resolver dst of
        Inl e \<Rightarrow> Some (Inl e)
      | Inr addrs \<Rightarrow> connecting_connect options (connecting_new addrs options now) sys now es)"

text \<open>\<^verbatim>\<open>HttpConnector::new\<close>; durations are milliseconds.\<close>

definition tcp_options_default :: tcp_options where
  "tcp_options_default =
     \<lparr>tcp_enforce_http = True, tcp_connect_timeout = None, tcp_happy_eyeballs = Some 300,
      tcp_nodelay = False, tcp_reuse_address = False, tcp_linger = None, tcp_send_buffer = None,
      tcp_recv_buffer = None, tcp_user_timeout = None,
      tcp_keepalive = \<lparr>ka_time = None, ka_interval = None, ka_retries = None\<rparr>,
      tcp_bind = socket_bind_default\<rparr>"

text \<open>The setters of \<^verbatim>\<open>HttpConnect\<close>.\<close>

definition enforce_http :: "bool \<Rightarrow> tcp_options \<Rightarrow> tcp_options" where
  "enforce_http b o1 = o1\<lparr>tcp_enforce_http := b\<rparr>"

definition set_nodelay :: "bool \<Rightarrow> tcp_options \<Rightarrow> tcp_options" where
  "set_nodelay b o1 = o1\<lparr>tcp_nodelay := b\<rparr>"

definition set_send_buffer_size :: "nat option \<Rightarrow> tcp_options \<Rightarrow> tcp_options" where
  "set_send_buffer_size n o1 = o1\<lparr>tcp_send_buffer := n\<rparr>"

definition set_recv_buffer_size :: "nat option \<Rightarrow> tcp_options \<Rightarrow> tcp_options" where
  "set_recv_buffer_size n o1 = o1\<lparr>tcp_recv_buffer := n\<rparr>"

definition set_reuse_address :: "bool \<Rightarrow> tcp_options \<Rightarrow> tcp_options" where
  "set_reuse_address b o1 = o1\<lparr>tcp_reuse_address := b\<rparr>"

definition set_linger :: "nat option \<Rightarrow> tcp_options \<Rightarrow> tcp_options" where
  "set_linger d o1 = o1\<lparr>tcp_linger := d\<rparr>"

definition set_tcp_user_timeout :: "nat option \<Rightarrow> tcp_options \<Rightarrow> tcp_options" where
  "set_tcp_user_timeout d o1 = o1\<lparr>tcp_user_timeout := d\<rparr>"

definition set_connect_timeout :: "nat option \<Rightarrow> tcp_options \<Rightarrow> tcp_options" where
  "set_connect_timeout d o1 = o1\<lparr>tcp_connect_timeout := d\<rparr>"

definition set_happy_eyeballs_timeout :: "nat option \<Rightarrow> tcp_options \<Rightarrow> tcp_options" where
  "set_happy_eyeballs_timeout d o1 = o1\<lparr>tcp_happy_eyeballs := d\<rparr>"

definition set_keepalive :: "nat option \<Rightarrow> tcp_options \<Rightarrow> tcp_options" where
  "set_keepalive t o1 = o1\<lparr>tcp_keepalive := (tcp_keepalive o1)\<lparr>ka_time := t\<rparr>\<rparr>"

definition set_keepalive_interval :: "nat option \<Rightarrow> tcp_options \<Rightarrow> tcp_options" where
  "set_keepalive_interval t o1 = o1\<lparr>tcp_keepalive := (tcp_keepalive o1)\<lparr>ka_interval := t\<rparr>\<rparr>"

definition set_keepalive_retries :: "nat option \<Rightarrow> tcp_options \<Rightarrow> tcp_options" where
  "set_keepalive_retries t o1 = o1\<lparr>tcp_keepalive := (tcp_keepalive o1)\<lparr>ka_retries := t\<rparr>\<rparr>"

definition connector_set_interface :: "string \<Rightarrow> tcp_options \<Rightarrow> tcp_options" where
  "connector_set_interface i o1 = o1\<lparr>tcp_bind := set_interface i (tcp_bind o1)\<rparr>"

definition connector_set_local_addresses :: "32 word option \<Rightarrow> 128 word option \<Rightarrow> tcp_options \<Rightarrow> tcp_options" where
  "connector_set_local_addresses a4 a6 o1 = o1\<lparr>tcp_bind := set_local_addresses a4 a6 (tcp_bind o1)\<rparr>"

section \<open>The order of the addresses\<close>

text \<open>The families alternate while both have addresses left.\<close>

fun interleave :: "bool \<Rightarrow> 'a list \<Rightarrow> 'a list \<Rightarrow> 'a list" where
  "interleave fb [] fs = fs"
| "interleave fb (p # ps) [] = p # ps"
| "interleave False (p # ps) (f # fs) = p # interleave True ps (f # fs)"
| "interleave True (p # ps) (f # fs) = f # interleave False (p # ps) fs"

lemma interleave_mset: "mset (interleave fb ps fs) = mset ps + mset fs"
  by (induction fb ps fs rule: interleave.induct) auto

lemma interleave_single [simp]: "interleave fb ps [] = ps"
  by (cases ps) auto

definition addr_plan :: "socket_addr list \<Rightarrow> tcp_options \<Rightarrow> socket_addr list" where
  "addr_plan addrs config =
     (case split_by_preference addrs (sb_ipv4 (tcp_bind config)) (sb_ipv6 (tcp_bind config)) of
        (ps, fs) \<Rightarrow> interleave False ps fs)"

definition todo :: "tcp_state \<Rightarrow> socket_addr list" where
  "todo st = interleave (ts_next_fallback st) (ts_preferred st) (case ts_fallback st of Some as \<Rightarrow> as | None \<Rightarrow> [])"

lemma has_remaining_todo: "has_remaining_addrs st \<longleftrightarrow> todo st \<noteq> []"
proof -
  have "interleave fb ps fs = [] \<longleftrightarrow> ps = [] \<and> fs = []" for fb and ps fs :: "socket_addr list"
    by (cases "(fb, ps, fs)" rule: interleave.cases) auto
  then show ?thesis
    by (auto simp: todo_def has_remaining_addrs_def has_fallback_def split: option.splits list.splits)
qed

lemma next_remote_none: "next_remote st = None \<longleftrightarrow> todo st = []"
  unfolding has_remaining_todo [symmetric, THEN arg_cong [where f = Not], unfolded not_not]
  by (cases "ts_next_fallback st"; cases "ts_preferred st"; cases "has_fallback st")
    (auto simp: next_remote_def has_remaining_addrs_def Let_def)

lemma next_remote_take:
  assumes "next_remote st = Some (fb, st1)"
  obtains a st2 where "take_addr fb st1 = Some (a, st2)" "todo st = a # todo st2"
    "ts_attempts st2 = ts_attempts st" "ts_next_order st2 = ts_next_order st"
    "ts_first_error st2 = ts_first_error st" "ts_delay st2 = ts_delay st"
proof (cases st)
  case (fields ps fs i nf d ats n fe)
  have "\<exists>a st2. take_addr fb st1 = Some (a, st2) \<and> todo st = a # todo st2 \<and> ts_attempts st2 = ts_attempts st \<and>
    ts_next_order st2 = ts_next_order st \<and> ts_first_error st2 = ts_first_error st \<and> ts_delay st2 = ts_delay st"
    using assms unfolding fields
    by (cases nf; cases ps; cases fs; cases "the fs")
      (auto simp: next_remote_def has_fallback_def take_addr_def todo_def Let_def)
  then show thesis using that by blast
qed

section \<open>The invariant of the race\<close>

definition tcp_race_inv :: "socket_addr list \<Rightarrow> tcp_state \<Rightarrow> bool" where
  "tcp_race_inv plan st \<longleftrightarrow>
     ts_next_order st \<le> length plan \<and> todo st = drop (ts_next_order st) plan \<and>
     length (ts_attempts st) \<le> max_parallel_connect_attempts \<and>
     sorted_wrt (<) (map ta_order (ts_attempts st)) \<and>
     (\<forall>a\<in>set (ts_attempts st). ta_order a < ts_next_order st \<and> ta_addr a = plan ! ta_order a) \<and>
     (\<forall>k e. ts_first_error st = Some (k, e) \<longrightarrow> k < ts_next_order st \<and> te_addr e = Some (plan ! k))"

text \<open>Every attempt that was launched, from the attempt \<open>m\<close> on, is active, or an error that is at least as early
  is recorded.\<close>

definition accounted :: "nat \<Rightarrow> tcp_state \<Rightarrow> bool" where
  "accounted m st \<longleftrightarrow>
     (m = 0 \<or> m < ts_next_order st) \<and>
     (\<forall>j. m \<le> j \<and> j < ts_next_order st \<longrightarrow>
        j \<in> ta_order ` set (ts_attempts st) \<or> (\<exists>k e. ts_first_error st = Some (k, e) \<and> k \<le> j))"

lemma record_error_fields [simp]:
  "ts_attempts (record_error n e st) = ts_attempts st" "todo (record_error n e st) = todo st"
  "ts_next_order (record_error n e st) = ts_next_order st" "ts_delay (record_error n e st) = ts_delay st"
  by (auto simp: record_error_def todo_def split: option.splits)

lemma record_error_first:
  "ts_first_error (record_error n e st) =
     (case ts_first_error st of
        Some (k, e') \<Rightarrow> Some (if k \<le> n then (k, e') else (n, e))
      | None \<Rightarrow> Some (n, e))"
  by (auto simp: record_error_def split: option.splits)

lemma record_error_inv:
  assumes "tcp_race_inv plan st" "n < ts_next_order st" "te_addr e = Some (plan ! n)"
  shows "tcp_race_inv plan (record_error n e st)"
  using assms by (auto simp: tcp_race_inv_def record_error_first split: option.splits)

lemma record_error_accounted:
  assumes "m = 0 \<or> m < ts_next_order st" "\<And>j. m \<le> j \<and> j < ts_next_order st \<Longrightarrow> j = n \<or> j \<in> ta_order ` set (ts_attempts st) \<or>
    (\<exists>k e. ts_first_error st = Some (k, e) \<and> k \<le> j)"
  shows "accounted m (record_error n e st)"
  unfolding accounted_def record_error_fields
proof (intro conjI allI impI)
  fix j
  assume "m \<le> j \<and> j < ts_next_order st"
  then consider "j = n" | "j \<in> ta_order ` set (ts_attempts st)" | k e where "ts_first_error st = Some (k, e)" "k \<le> j"
    using assms(2) by blast
  then show "j \<in> ta_order ` set (ts_attempts st) \<or>
      (\<exists>k ea. ts_first_error (record_error n e st) = Some (k, ea) \<and> k \<le> j)"
    by cases (auto simp: record_error_first split: option.splits)
qed (rule assms(1))

lemma with_addr_addr [simp]: "te_addr (with_addr e a) = Some a"
  by (simp add: with_addr_def)

text \<open>What a launch does to a state with room for an attempt.\<close>

lemma launch_next_spec:
  assumes "tcp_race_inv plan st" "length plan \<le> u64_max" "length (ts_attempts st) < max_parallel_connect_attempts"
    "launch_next config sys st = (b, st')"
  shows "tcp_race_inv plan st' \<and> (accounted m st \<longrightarrow> accounted m st') \<and> ts_delay st' = ts_delay st \<and>
    (if b then ts_attempts st' \<noteq> [] \<and> length (todo st') < length (todo st)
     else ts_attempts st' = ts_attempts st \<and> todo st' = [])"
  using assms
proof (induction config sys st rule: launch_next.induct)
  case (1 config sys st)
  note inv = "1.prems"(1) and room = "1.prems"(3)
  show ?case
  proof (cases "next_remote st")
    case None
    then have "launch_next config sys st = (False, st)" by (subst launch_next.simps) simp
    moreover have "todo st = []" using None by (simp add: next_remote_none)
    ultimately show ?thesis using "1.prems" by auto
  next
    case (Some r)
    obtain fb st1 where nr: "next_remote st = Some (fb, st1)" using Some by (cases r) auto
    obtain a st2 where take: "take_addr fb st1 = Some (a, st2)" and t: "todo st = a # todo st2"
      and same: "ts_attempts st2 = ts_attempts st" "ts_next_order st2 = ts_next_order st"
        "ts_first_error st2 = ts_first_error st" "ts_delay st2 = ts_delay st"
      using next_remote_take [OF nr] by blast
    let ?n = "ts_next_order st"
    have drop: "drop ?n plan = a # todo st2" using inv t by (simp add: tcp_race_inv_def)
    then have n: "?n < length plan" by (metis drop_all list.distinct(1) not_le_imp_less)
    with drop have a: "a = plan ! ?n" and rest: "todo st2 = drop (Suc ?n) plan"
      by (simp_all add: Cons_nth_drop_Suc [symmetric])
    have sat: "u64_saturating_add ?n (Suc 0) = Suc ?n" "u64_saturating_add 0 (Suc 0) = Suc 0"
      using n "1.prems"(2) by (simp_all add: u64_saturating_add_below u64_max_def)
    define st3 where "st3 = st2\<lparr>ts_next_order := Suc ?n\<rparr>"
    have st3: "ts_attempts st3 = ts_attempts st" "ts_next_order st3 = Suc ?n" "ts_first_error st3 = ts_first_error st"
      "ts_delay st3 = ts_delay st" "todo st3 = drop (Suc ?n) plan"
      using same rest by (simp_all add: st3_def todo_def)
    have inv3: "tcp_race_inv plan st3"
      using inv n unfolding tcp_race_inv_def st3 by (simp add: less_Suc_eq)
    have eq: "launch_next config sys st =
      (case tcp_connect a config (sys ?n) of
         None \<Rightarrow> (True, st3\<lparr>ts_initial_delay := (if ?n \<noteq> 0 then None else ts_initial_delay st3),
                          ts_attempts := ts_attempts st3 @ [\<lparr>ta_addr = a, ta_order = ?n\<rparr>]\<rparr>)
       | Some e \<Rightarrow> launch_next config sys (record_error ?n (with_addr e a) st3))"
      by (subst launch_next.simps) (simp add: nr take Let_def same sat st3_def split: option.split)
    show ?thesis
    proof (cases "tcp_connect a config (sys ?n)")
      case None
      with eq "1.prems"(4) have b: "b" and st': "st' = st3\<lparr>ts_initial_delay := (if ?n \<noteq> 0 then None else ts_initial_delay st3),
          ts_attempts := ts_attempts st3 @ [\<lparr>ta_addr = a, ta_order = ?n\<rparr>]\<rparr>" by auto
      have t': "todo st' = drop (Suc ?n) plan" using st3(5) by (simp add: st' todo_def)
      have "tcp_race_inv plan st'"
        using inv3 inv room n a unfolding tcp_race_inv_def t' by (auto simp: st' st3 sorted_wrt_append)
      moreover have "accounted m st \<longrightarrow> accounted m st'"
        by (auto simp: accounted_def st' st3 less_Suc_eq)
      ultimately show ?thesis using b t' t rest by (simp add: st' st3)
    next
      case (Some e)
      let ?st = "record_error ?n (with_addr e a) st3"
      have inv4: "tcp_race_inv plan ?st" using inv3 a by (intro record_error_inv) (simp_all add: st3)
      have acc: "accounted m st \<longrightarrow> accounted m ?st"
      proof
        assume acc: "accounted m st"
        show "accounted m ?st"
          by (rule record_error_accounted) (use acc in \<open>auto simp: accounted_def st3 less_Suc_eq\<close>)
      qed
      have l: "launch_next config sys ?st = (b, st')" using eq Some "1.prems"(4) by simp
      have "tcp_race_inv plan st' \<and> (accounted m ?st \<longrightarrow> accounted m st') \<and> ts_delay st' = ts_delay ?st \<and>
        (if b then ts_attempts st' \<noteq> [] \<and> length (todo st') < length (todo ?st)
         else ts_attempts st' = ts_attempts ?st \<and> todo st' = [])"
        by (rule "1.IH" [OF nr refl take refl _ _ Some inv4 "1.prems"(2) _ l])
          (use room in \<open>simp_all add: same sat st3 st3_def\<close>)
      with acc t rest show ?thesis by (auto simp: st3 split: if_splits)
    qed
  qed
qed

lemma poll_attempts_spec:
  assumes "tcp_race_inv plan (st\<lparr>ts_attempts := kept @ as\<rparr>)" "poll_attempts answer kept failed as st = (st', ev)"
    "kept @ as \<noteq> [] \<or> failed"
  shows "tcp_race_inv plan st' \<and> todo st' = todo st \<and> ts_delay st' = ts_delay st \<and>
    ts_next_order st' = ts_next_order st \<and> length (ts_attempts st') \<le> length kept + length as \<and>
    (\<forall>c. ev = Some (EvConnected c) \<longrightarrow> (\<exists>a\<in>set as. answer (ta_order a) = Ready (Inr c))) \<and>
    (ev = Some EvAllAttemptsFailed \<longrightarrow> ts_attempts st' = []) \<and> ev \<noteq> Some EvDelayElapsed \<and>
    (ev = None \<longrightarrow> ts_attempts st' \<noteq> []) \<and>
    ((\<forall>c. ev \<noteq> Some (EvConnected c)) \<and> accounted m (st\<lparr>ts_attempts := kept @ as\<rparr>) \<longrightarrow> accounted m st')"
  using assms
proof (induction answer kept failed as st rule: poll_attempts.induct)
  case (1 answer kept failed st)
  then show ?case by (auto simp: todo_def split: if_splits)
next
  case (2 answer kept failed a as st)
  show ?case
  proof (cases "answer (ta_order a)")
    case NotReady
    with 2 show ?thesis by auto
  next
    case (Ready r)
    show ?thesis
    proof (cases r)
      case (Inr c)
      have "tcp_race_inv plan (st\<lparr>ts_attempts := kept @ as\<rparr>)"
        using "2.prems"(1) by (auto simp: tcp_race_inv_def todo_def sorted_wrt_append)
      with "2.prems"(2) Ready Inr show ?thesis by (auto simp: todo_def)
    next
      case (Inl e)
      let ?st = "record_error (ta_order a) (with_addr (tcp_error_tcp e) (ta_addr a)) st"
      have upd: "?st\<lparr>ts_attempts := kept @ as\<rparr> = record_error (ta_order a) (with_addr (tcp_error_tcp e) (ta_addr a)) (st\<lparr>ts_attempts := kept @ as\<rparr>)"
        by (simp add: record_error_def split: option.split)
      have "tcp_race_inv plan (st\<lparr>ts_attempts := kept @ as\<rparr>)"
        using "2.prems"(1) by (auto simp: tcp_race_inv_def todo_def sorted_wrt_append)
      then have inv: "tcp_race_inv plan (?st\<lparr>ts_attempts := kept @ as\<rparr>)"
        unfolding upd
        by (rule record_error_inv) (use "2.prems"(1) in \<open>simp_all add: tcp_race_inv_def\<close>)
      have acc: "accounted m (st\<lparr>ts_attempts := kept @ a # as\<rparr>) \<longrightarrow> accounted m (?st\<lparr>ts_attempts := kept @ as\<rparr>)"
        unfolding upd
      proof
        assume "accounted m (st\<lparr>ts_attempts := kept @ a # as\<rparr>)"
        then show "accounted m (record_error (ta_order a) (with_addr (tcp_error_tcp e) (ta_addr a)) (st\<lparr>ts_attempts := kept @ as\<rparr>))"
          by - (rule record_error_accounted, auto simp: accounted_def)
      qed
      have "poll_attempts answer kept True as ?st = (st', ev)" using "2.prems"(2) Ready Inl by simp
      from "2.IH"(1) [OF Ready Inl inv this] acc show ?thesis by auto
    qed
  qed
qed

text \<open>What holds while the race waits.  With at most six addresses no attempt is cancelled.\<close>

definition tcp_race_ok :: "socket_addr list \<Rightarrow> tcp_state \<Rightarrow> bool" where
  "tcp_race_ok plan st \<longleftrightarrow>
     tcp_race_inv plan st \<and>
     (\<exists>m. accounted m st \<and> (length plan \<le> max_parallel_connect_attempts \<longrightarrow> m = 0))"

definition tcp_waiting_ok :: "socket_addr list \<Rightarrow> nat option \<times> tcp_state \<Rightarrow> bool" where
  "tcp_waiting_ok plan = (\<lambda>(sleep, st). tcp_race_ok plan st \<and> ts_attempts st \<noteq> [] \<and> (sleep \<noteq> None \<longrightarrow> todo st \<noteq> []))"

definition tcp_race_failed :: "socket_addr list \<Rightarrow> tcp_error \<Rightarrow> bool" where
  "tcp_race_failed plan e \<longleftrightarrow>
     (if plan = [] then e = network_unreachable
      else \<exists>k<length plan. te_addr e = Some (plan ! k) \<and> (length plan \<le> max_parallel_connect_attempts \<longrightarrow> k = 0))"

lemma take_error_failed:
  assumes "tcp_race_ok plan st" "ts_attempts st = []" "todo st = []"
  shows "tcp_race_failed plan (take_error st)"
proof -
  obtain m where acc: "accounted m st" and m: "length plan \<le> max_parallel_connect_attempts \<longrightarrow> m = 0"
    and inv: "tcp_race_inv plan st"
    using assms(1) unfolding tcp_race_ok_def by blast
  have n: "ts_next_order st = length plan" using inv assms(3) by (simp add: tcp_race_inv_def)
  show ?thesis
  proof (cases "plan = []")
    case True
    then have "ts_first_error st = None" using inv n by (cases "ts_first_error st") (auto simp: tcp_race_inv_def)
    with True show ?thesis by (simp add: tcp_race_failed_def take_error_def)
  next
    case False
    then have "m < length plan" using acc n by (auto simp: accounted_def)
    then obtain k e where fe: "ts_first_error st = Some (k, e)" "k \<le> m"
      using acc assms(2) n unfolding accounted_def by auto
    moreover have "k < length plan" "te_addr e = Some (plan ! k)" using inv fe(1) n by (auto simp: tcp_race_inv_def)
    ultimately show ?thesis using False m by (auto simp: tcp_race_failed_def take_error_def)
  qed
qed

lemma launch_next_ok:
  assumes "tcp_race_ok plan st" "length plan \<le> u64_max" "length (ts_attempts st) < max_parallel_connect_attempts"
    "launch_next config sys st = (b, st')"
  shows "tcp_race_ok plan st' \<and>
    (if b then ts_attempts st' \<noteq> [] \<and> length (todo st') < length (todo st)
     else ts_attempts st' = ts_attempts st \<and> todo st' = [])"
  using assms launch_next_spec [OF _ assms(2,3,4)] unfolding tcp_race_ok_def by blast

lemma attempts_bound:
  assumes "tcp_race_inv plan st"
  shows "length (ts_attempts st) \<le> ts_next_order st"
proof -
  have s: "sorted_wrt (<) (map ta_order (ts_attempts st))"
    and b: "set (map ta_order (ts_attempts st)) \<subseteq> {..<ts_next_order st}"
    using assms by (auto simp: tcp_race_inv_def)
  have "distinct (map ta_order (ts_attempts st))" using s strict_sorted_iff by blast
  then have "length (ts_attempts st) = card (set (map ta_order (ts_attempts st)))"
    by (metis distinct_card length_map)
  also have "\<dots> \<le> ts_next_order st" using card_mono [OF _ b] by simp
  finally show ?thesis .
qed

lemma make_room_ok:
  assumes "tcp_race_ok plan st" "todo st \<noteq> []"
  shows "tcp_race_ok plan (make_room_for_next_attempt st) \<and> todo (make_room_for_next_attempt st) = todo st \<and>
    length (ts_attempts (make_room_for_next_attempt st)) < max_parallel_connect_attempts"
proof (cases "length (ts_attempts st) < max_parallel_connect_attempts")
  case True
  with assms show ?thesis by (simp add: make_room_for_next_attempt_def)
next
  case False
  obtain m where acc: "accounted m st" and m: "length plan \<le> max_parallel_connect_attempts \<longrightarrow> m = 0"
    and inv: "tcp_race_inv plan st"
    using assms(1) unfolding tcp_race_ok_def by blast
  from False obtain a b as where at: "ts_attempts st = a # b # as"
    by (cases "ts_attempts st"; cases "tl (ts_attempts st)") (auto simp: max_parallel_connect_attempts_def)
  let ?st = "st\<lparr>ts_attempts := b # as\<rparr>"
  have eq: "make_room_for_next_attempt st = ?st" using False at by (simp add: make_room_for_next_attempt_def)
  have inv': "tcp_race_inv plan ?st" using inv by (auto simp: tcp_race_inv_def at todo_def)
  have ab: "ta_order a < ta_order b" "ta_order b < ts_next_order st" using inv by (auto simp: tcp_race_inv_def at)
  have "accounted (max m (Suc (ta_order a))) ?st" using acc ab by (auto simp: accounted_def at)
  moreover have "\<not> length plan \<le> max_parallel_connect_attempts"
  proof -
    have "ts_next_order st < length plan" using inv assms(2) by (auto simp: tcp_race_inv_def)
    then show ?thesis using attempts_bound [OF inv] False by simp
  qed
  ultimately have "tcp_race_ok plan ?st" using inv' unfolding tcp_race_ok_def by blast
  moreover have "length (ts_attempts ?st) < max_parallel_connect_attempts" using inv at by (simp add: tcp_race_inv_def)
  ultimately show ?thesis unfolding eq by (simp add: todo_def)
qed

lemma tcp_race_head_ok:
  assumes "tcp_race_ok plan st" "length plan \<le> u64_max"
  shows "(case tcp_race_head config sys now st of
      Again s \<Rightarrow> tcp_waiting_ok plan s \<and> length (todo (snd s)) \<le> length (todo st) \<and>
        (ts_attempts st = [] \<longrightarrow> length (todo (snd s)) < length (todo st))
    | Complete r \<Rightarrow> ts_attempts st = [] \<and> (\<exists>e. r = Inl e \<and> tcp_race_failed plan e)
    | Parked _ \<Rightarrow> False)"
proof -
  obtain b st1 where l: "(if ts_attempts st = [] then launch_next config sys st else (True, st)) = (b, st1)"
    by fastforce
  have ok: "tcp_race_ok plan st1 \<and> (b \<longrightarrow> ts_attempts st1 \<noteq> []) \<and> length (todo st1) \<le> length (todo st) \<and>
    (ts_attempts st = [] \<and> b \<longrightarrow> length (todo st1) < length (todo st)) \<and>
    (\<not> b \<longrightarrow> ts_attempts st = [] \<and> ts_attempts st1 = [] \<and> todo st1 = [])"
    using l assms launch_next_ok [OF assms, of config sys b st1]
    by (cases "ts_attempts st = []") (auto simp: max_parallel_connect_attempts_def split: if_splits)
  show ?thesis
  proof (cases b)
    case False
    with ok l show ?thesis by (simp add: tcp_race_head_def take_error_failed)
  next
    case True
    have "tcp_race_ok plan (st1\<lparr>ts_initial_delay := None\<rparr>) = tcp_race_ok plan st1"
      "todo (st1\<lparr>ts_initial_delay := None\<rparr>) = todo st1"
      by (simp_all add: tcp_race_ok_def tcp_race_inv_def accounted_def todo_def)
    with True ok l show ?thesis
      by (cases "ts_delay st1"; cases "has_remaining_addrs st1")
        (auto simp: tcp_race_head_def tcp_waiting_ok_def has_remaining_todo)
  qed
qed

lemma poll_attempts_pending:
  assumes "poll_attempts answer kept failed as st = (st', None)"
  shows "set (ts_attempts st') \<subseteq> set kept \<union> {a. answer (ta_order a) = NotReady}"
  using assms
  by (induction answer kept failed as st rule: poll_attempts.induct)
    (fastforce split: poll.splits sum.splits if_splits)+

lemma tcp_race_event_ok:
  fixes ev :: "'c tcp_event"
  assumes "tcp_race_ok plan st" "length plan \<le> u64_max" "ev = EvAllAttemptsFailed \<and> ts_attempts st = [] \<or>
    ev = EvDelayElapsed \<and> ts_attempts st \<noteq> [] \<and> todo st \<noteq> []"
  shows "(case tcp_race_event config sys now ev st of
      Again s \<Rightarrow> tcp_waiting_ok plan s \<and> length (todo (snd s)) < length (todo st)
    | Complete r \<Rightarrow> \<exists>e. r = Inl e \<and> tcp_race_failed plan e
    | Parked _ \<Rightarrow> False)"
proof -
  define st0 where "st0 = (if ev = EvDelayElapsed then make_room_for_next_attempt st else st)"
  have st0: "tcp_race_ok plan st0" "todo st0 = todo st" "length (ts_attempts st0) < max_parallel_connect_attempts"
    using assms(1,3) make_room_ok [OF assms(1)] by (auto simp: st0_def max_parallel_connect_attempts_def)
  have st0': "todo st = [] \<Longrightarrow> ts_attempts st0 = []" using assms(3) by (auto simp: st0_def)
  obtain b st1 where l: "launch_next config sys st0 = (b, st1)" by fastforce
  note launched = launch_next_ok [OF st0(1) assms(2) st0(3) l]
  have head: "tcp_race_event config sys now ev st = tcp_race_head config sys now st1"
    using assms(3) l by (auto simp: tcp_race_event_def st0_def)
  show ?thesis
    using tcp_race_head_ok [where 'a = 'c, OF conjunct1 [OF launched] assms(2), of config sys now] launched st0(2) st0'
    unfolding head
    by (cases "tcp_race_head config sys now st1 :: (nat option \<times> tcp_state, 'c) progress") (auto split: if_splits)
qed

lemma tcp_race_step_ok:
  fixes env :: "'c tcp_env"
  assumes "tcp_waiting_ok plan s" "length plan \<le> u64_max"
  shows "(case tcp_race_step config env s of
      Again s' \<Rightarrow> tcp_waiting_ok plan s' \<and> length (todo (snd s')) < length (todo (snd s))
    | Parked s' \<Rightarrow> tcp_waiting_ok plan s' \<and> (\<exists>k. env_poll env k = NotReady)
    | Complete r \<Rightarrow>
        (case r of
           Inl e \<Rightarrow> tcp_race_failed plan e
         | Inr c \<Rightarrow> \<exists>k<length plan. env_poll env k = Ready (Inr c)))"
proof -
  obtain sleep st where s: "s = (sleep, st)" by fastforce
  obtain m where inv: "tcp_race_inv plan st" and acc: "accounted m st"
    and m: "length plan \<le> max_parallel_connect_attempts \<longrightarrow> m = 0"
    and ne: "ts_attempts st \<noteq> []" and sl: "sleep \<noteq> None \<longrightarrow> todo st \<noteq> []"
    using assms(1) by (auto simp: tcp_waiting_ok_def tcp_race_ok_def s)
  obtain st1 ev where p: "poll_attempts (env_poll env) [] False (ts_attempts st) st = (st1, ev)" by fastforce
  note polled = poll_attempts_spec [where plan = plan and st = st and kept = "[]" and as = "ts_attempts st" and answer = "env_poll env"
    and failed = False and st' = st1 and ev = ev and m = m]
  have inv1: "tcp_race_inv plan st1" and t1: "todo st1 = todo st"
    and connected: "\<And>c. ev = Some (EvConnected c) \<Longrightarrow> \<exists>a\<in>set (ts_attempts st). env_poll env (ta_order a) = Ready (Inr c)"
    and failed: "ev = Some EvAllAttemptsFailed \<Longrightarrow> ts_attempts st1 = []" and nodelay: "ev \<noteq> Some EvDelayElapsed"
    and pend: "ev = None \<Longrightarrow> ts_attempts st1 \<noteq> []"
    and acc1: "\<forall>c. ev \<noteq> Some (EvConnected c) \<Longrightarrow> accounted m st1"
    using polled p inv ne acc by auto
  have ok1: "tcp_race_ok plan st1" if "\<forall>c. ev \<noteq> Some (EvConnected c)"
    using inv1 acc1 [OF that] m unfolding tcp_race_ok_def by blast
  consider c where "ev = Some (EvConnected c)" | "ev = Some EvAllAttemptsFailed" | "ev = None"
    using nodelay by (cases ev; cases "the ev") auto
  then show ?thesis
  proof cases
    case (1 c)
    then obtain a where a: "a \<in> set (ts_attempts st)" "env_poll env (ta_order a) = Ready (Inr c)" using connected by blast
    have "ta_order a < length plan" using a(1) inv by (auto simp: tcp_race_inv_def)
    with a(2) 1 p show ?thesis by (auto simp: tcp_race_step_def tcp_race_event_def s)
  next
    case 2
    have "tcp_race_step config env s = tcp_race_event config (env_sys env) (env_now env) EvAllAttemptsFailed st1"
      using 2 p by (simp add: tcp_race_step_def s)
    with tcp_race_event_ok [where 'c = 'c, OF ok1 assms(2), of EvAllAttemptsFailed config "env_sys env" "env_now env"] failed 2 t1
    show ?thesis
      by (cases "tcp_race_event config (env_sys env) (env_now env) (EvAllAttemptsFailed :: 'c tcp_event) st1") (auto simp: s)
  next
    case 3
    show ?thesis
    proof (cases "sleep_ready sleep (env_now env)")
      case True
      then have "todo st1 \<noteq> []" using sl t1 by (auto simp: sleep_ready_def split: option.splits)
      moreover have "tcp_race_step config env s = tcp_race_event config (env_sys env) (env_now env) EvDelayElapsed st1"
        using 3 p True by (simp add: tcp_race_step_def s)
      ultimately show ?thesis
        using tcp_race_event_ok [where 'c = 'c, OF ok1 assms(2), of EvDelayElapsed config "env_sys env" "env_now env"] pend 3 t1
        by (cases "tcp_race_event config (env_sys env) (env_now env) (EvDelayElapsed :: 'c tcp_event) st1") (auto simp: s)
    next
      case False
      have "set (ts_attempts st1) \<subseteq> {a. env_poll env (ta_order a) = NotReady}"
        using poll_attempts_pending p 3 by fastforce
      then have "\<exists>k. env_poll env k = NotReady" using pend [OF 3] by (cases "ts_attempts st1") auto
      moreover have "tcp_waiting_ok plan (sleep, st1)" using ok1 pend sl t1 3 by (simp add: tcp_waiting_ok_def)
      ultimately show ?thesis using 3 p False by (simp add: tcp_race_step_def s)
    qed
  qed
qed

section \<open>Machines that connect\<close>

text \<open>What a connection driven through the environments \<open>es\<close> may return, and the states it may be in.\<close>

definition machine_returns ::
  "(tcp_error \<Rightarrow> bool) \<Rightarrow> nat \<Rightarrow> nat option \<Rightarrow> 'c tcp_env list \<Rightarrow> (tcp_error, 'c) result \<Rightarrow> bool"
where
  "machine_returns failed n deadline es r \<longleftrightarrow>
     (case r of
        Inr c \<Rightarrow> \<exists>env\<in>set es. \<exists>k<n. env_poll env k = Ready (Inr c)
      | Inl e \<Rightarrow> failed e \<or>
          te_cause e = Some (IoError IoTimedOut (Some (Other ''connect timeout'' None))) \<and>
          (\<exists>env\<in>set es. sleep_ready deadline (env_now env)))"

definition machine_sound ::
  "('s \<Rightarrow> bool) \<Rightarrow> (tcp_error \<Rightarrow> bool) \<Rightarrow> nat \<Rightarrow> nat option \<Rightarrow> 'c tcp_env list \<Rightarrow> ('s, 'c) progress \<Rightarrow> bool"
where
  "machine_sound good failed n deadline es p \<longleftrightarrow>
     (case p of Complete r \<Rightarrow> machine_returns failed n deadline es r | Again s \<Rightarrow> good s | Parked s \<Rightarrow> good s)"

lemma machine_returns_mono:
  "machine_returns failed n deadline es r \<Longrightarrow> set es \<subseteq> set es' \<Longrightarrow> machine_returns failed n deadline es' r"
  by (cases r) (auto simp: machine_returns_def)

text \<open>What both ways to connect promise: a step keeps a good state good and uses up rank unless it parks, it
  parks only when an attempt is not ready, and what it returns is the outcome of one of the first \<open>n\<close> attempts or
  an admissible error.\<close>

locale connecting_machine =
  fixes step :: "'c tcp_env \<Rightarrow> 's \<Rightarrow> ('s, 'c) progress"
    and good :: "'s \<Rightarrow> bool" and rank :: "'s \<Rightarrow> nat" and failed :: "tcp_error \<Rightarrow> bool" and n :: nat
  assumes step_again: "good s \<Longrightarrow> step env s = Again s' \<Longrightarrow> good s' \<and> rank s' < rank s"
    and step_parked: "good s \<Longrightarrow> step env s = Parked s' \<Longrightarrow> good s' \<and> (\<exists>k. env_poll env k = NotReady)"
    and step_failed: "good s \<Longrightarrow> step env s = Complete (Inl e) \<Longrightarrow> failed e"
    and step_connected: "good s \<Longrightarrow> step env s = Complete (Inr c) \<Longrightarrow> \<exists>k<n. env_poll env k = Ready (Inr c)"
begin

lemma timed_step_sound:
  assumes "good s"
  shows "machine_sound good failed n deadline [env] (connect_with_timeout deadline (env_now env) (step env s))"
proof (cases "step env s")
  case (Complete r)
  then show ?thesis
    using step_failed [OF assms] step_connected [OF assms]
    by (cases r) (auto simp: connect_with_timeout_def machine_sound_def machine_returns_def)
next
  case (Again s')
  then show ?thesis using step_again [OF assms] by (simp add: connect_with_timeout_def machine_sound_def)
next
  case (Parked s')
  then show ?thesis
    using step_parked [OF assms]
    by (auto simp: connect_with_timeout_def machine_sound_def machine_returns_def tcp_error_tcp_def tcp_error_new_def)
qed

lemma drive_sound:
  assumes "machine_sound good failed n deadline seen p"
  shows "machine_sound good failed n deadline (seen @ es) (drive step deadline p es)"
  using assms
proof (induction es arbitrary: seen p)
  case Nil
  then show ?case by (cases p) auto
next
  case (Cons env es)
  show ?case
  proof (cases p)
    case (Complete r)
    with Cons.prems show ?thesis by (auto simp: machine_sound_def intro: machine_returns_mono)
  next
    case (Again s)
    have "machine_sound good failed n deadline (seen @ [env]) (connect_with_timeout deadline (env_now env) (step env s))"
      using timed_step_sound [of s deadline env] Cons.prems Again
      by (auto simp: machine_sound_def intro: machine_returns_mono split: progress.splits)
    from Cons.IH [OF this] Again show ?thesis by simp
  next
    case (Parked s)
    have "machine_sound good failed n deadline (seen @ [env]) (connect_with_timeout deadline (env_now env) (step env s))"
      using timed_step_sound [of s deadline env] Cons.prems Parked
      by (auto simp: machine_sound_def intro: machine_returns_mono split: progress.splits)
    from Cons.IH [OF this] Parked show ?thesis by simp
  qed
qed

lemma drive_ends:
  assumes "\<forall>env\<in>set es. sleep_ready deadline (env_now env) \<or> (\<forall>k. env_poll env k \<noteq> NotReady)"
    "good s" "rank s < length es" "p = Again s"
  shows "finished (drive step deadline p es) \<noteq> None"
  using assms
proof (induction es arbitrary: s p)
  case (Cons env es)
  show ?case
  proof (cases "step env s")
    case (Complete r)
    with Cons.prems show ?thesis by (simp add: connect_with_timeout_def)
  next
    case (Parked s')
    then have "sleep_ready deadline (env_now env)" using step_parked [OF Cons.prems(2)] Cons.prems(1) by fastforce
    with Parked Cons.prems show ?thesis by (simp add: connect_with_timeout_def)
  next
    case (Again s')
    then have "good s'" "rank s' < rank s" using step_again [OF Cons.prems(2)] by auto
    with Cons.IH [of s' "Again s'"] Cons.prems Again show ?thesis by (simp add: connect_with_timeout_def)
  qed
qed simp

lemma drive_result:
  assumes "case p of Complete r \<Rightarrow> \<exists>e. r = Inl e \<and> failed e | Again s \<Rightarrow> good s \<and> rank s < n | Parked _ \<Rightarrow> False"
  shows "case finished (drive step deadline p es) of
      None \<Rightarrow> \<not> (n \<le> length es \<and>
        (\<forall>env\<in>set es. sleep_ready deadline (env_now env) \<or> (\<forall>k. env_poll env k \<noteq> NotReady)))
    | Some r \<Rightarrow> machine_returns failed n deadline es r"
proof (cases p)
  case (Again s)
  with assms have s: "good s" "rank s < n" by auto
  have "machine_sound good failed n deadline es (drive step deadline p es)"
    using drive_sound [of deadline "[]" p es] s Again by (simp add: machine_sound_def)
  moreover have "finished (drive step deadline p es) \<noteq> None"
    if "n \<le> length es" "\<forall>env\<in>set es. sleep_ready deadline (env_now env) \<or> (\<forall>k. env_poll env k \<noteq> NotReady)"
    using drive_ends [OF that(2) s(1) _ Again] s(2) that(1) by simp
  ultimately show ?thesis by (cases "drive step deadline p es") (auto simp: machine_sound_def)
qed (use assms in \<open>auto simp: machine_returns_def\<close>)

end

section \<open>Both machines\<close>

definition seq_ok :: "socket_addr list \<Rightarrow> seq_state \<Rightarrow> bool" where
  "seq_ok plan s \<longleftrightarrow>
     sq_order s < length plan \<and> sq_addr s = plan ! sq_order s \<and> sq_rest s = drop (Suc (sq_order s)) plan \<and>
     (case sq_first_error s of None \<Rightarrow> sq_order s = 0 | Some e \<Rightarrow> te_addr e = Some (plan ! 0))"

definition first_failed :: "socket_addr list \<Rightarrow> tcp_error \<Rightarrow> bool" where
  "first_failed plan e \<longleftrightarrow> (if plan = [] then e = network_unreachable else te_addr e = Some (plan ! 0))"

lemma seq_launch_ok:
  assumes "n \<le> length plan" "addrs = drop n plan"
    "case fe of None \<Rightarrow> n = 0 | Some e \<Rightarrow> te_addr e = Some (plan ! 0) \<and> plan \<noteq> []"
  shows "(case seq_launch config sys n fe addrs of
      Again s \<Rightarrow> seq_ok plan s \<and> length (sq_rest s) < length addrs
    | Complete r \<Rightarrow> \<exists>e. r = Inl e \<and> first_failed plan e
    | Parked _ \<Rightarrow> False)"
  using assms
proof (induction config sys n fe addrs rule: seq_launch.induct)
  case (1 config sys n fe)
  then show ?case by (auto simp: first_failed_def split: option.splits)
next
  case (2 config sys n fe a as)
  have n: "n < length plan" using "2.prems"(2) by (metis drop_all list.distinct(1) not_le_imp_less)
  have a: "a = plan ! n" "as = drop (Suc n) plan" using "2.prems"(2) n by (simp_all add: Cons_nth_drop_Suc [symmetric])
  show ?case
  proof (cases "tcp_connect a config (sys n)")
    case None
    with n a "2.prems"(3) show ?thesis by (auto simp: seq_ok_def split: option.splits)
  next
    case (Some e)
    have "case or_error fe (with_addr e a) of None \<Rightarrow> Suc n = 0 | Some e \<Rightarrow> te_addr e = Some (plan ! 0) \<and> plan \<noteq> []"
      using "2.prems"(3) a n by (auto simp: or_error_def split: option.splits)
    from "2.IH" [OF Some _ a(2) this] n Some show ?thesis by (auto split: progress.splits)
  qed
qed

lemma seq_step_ok:
  fixes env :: "'c tcp_env"
  assumes "seq_ok plan s"
  shows "(case seq_step config env s of
      Again s' \<Rightarrow> seq_ok plan s' \<and> length (sq_rest s') < length (sq_rest s)
    | Parked s' \<Rightarrow> s' = s \<and> env_poll env (sq_order s) = NotReady
    | Complete r \<Rightarrow>
        (case r of
           Inl e \<Rightarrow> first_failed plan e
         | Inr c \<Rightarrow> env_poll env (sq_order s) = Ready (Inr c)))"
proof (cases "env_poll env (sq_order s)")
  case (Ready r)
  show ?thesis
  proof (cases r)
    case (Inl e)
    let ?fe = "or_error (sq_first_error s) (with_addr (tcp_error_tcp e) (sq_addr s))"
    have "case ?fe of None \<Rightarrow> Suc (sq_order s) = 0 | Some e \<Rightarrow> te_addr e = Some (plan ! 0) \<and> plan \<noteq> []"
      using assms by (auto simp: seq_ok_def or_error_def split: option.splits)
    from seq_launch_ok [where 'a = 'c, OF _ _ this, of "sq_rest s" config "env_sys env"] assms Ready Inl
    show ?thesis
      by (cases "seq_launch config (env_sys env) (Suc (sq_order s)) ?fe (sq_rest s) :: (seq_state, 'c) progress")
        (auto simp: seq_ok_def seq_step_def)
  qed (use Ready in \<open>simp add: seq_step_def\<close>)
qed (simp add: seq_step_def)

interpretation seq_machine:
  connecting_machine "seq_step config" "seq_ok plan" "\<lambda>s. length (sq_rest s)" "first_failed plan" "length plan"
  for config plan
proof
  fix s s' :: seq_state and env :: "'c tcp_env" and e c
  assume ok: "seq_ok plan s"
  note step = seq_step_ok [OF ok, where config = config and env = env]
  show "seq_step config env s = Again s' \<Longrightarrow> seq_ok plan s' \<and> length (sq_rest s') < length (sq_rest s)"
    using step by simp
  show "seq_step config env s = Parked s' \<Longrightarrow> seq_ok plan s' \<and> (\<exists>k. env_poll env k = NotReady)"
    using step ok by auto
  show "seq_step config env s = Complete (Inl e) \<Longrightarrow> first_failed plan e"
    using step by simp
  show "seq_step config env s = Complete (Inr c) \<Longrightarrow> \<exists>k<length plan. env_poll env k = Ready (Inr c)"
    using step ok by (auto simp: seq_ok_def)
qed

interpretation race_machine:
  connecting_machine "tcp_race_step config" "\<lambda>s. tcp_waiting_ok plan s \<and> length plan \<le> u64_max"
    "\<lambda>s. length (todo (snd s))" "tcp_race_failed plan" "length plan"
  for config plan
proof
  fix s s' :: "nat option \<times> tcp_state" and env :: "'c tcp_env" and e c
  assume ok: "tcp_waiting_ok plan s \<and> length plan \<le> u64_max"
  note step = tcp_race_step_ok [OF conjunct1 [OF ok] conjunct2 [OF ok], where config = config and env = env]
  show "tcp_race_step config env s = Again s' \<Longrightarrow>
      (tcp_waiting_ok plan s' \<and> length plan \<le> u64_max) \<and> length (todo (snd s')) < length (todo (snd s))"
    using step ok by simp
  show "tcp_race_step config env s = Parked s' \<Longrightarrow>
      (tcp_waiting_ok plan s' \<and> length plan \<le> u64_max) \<and> (\<exists>k. env_poll env k = NotReady)"
    using step ok by simp
  show "tcp_race_step config env s = Complete (Inl e) \<Longrightarrow> tcp_race_failed plan e"
    using step by simp
  show "tcp_race_step config env s = Complete (Inr c) \<Longrightarrow> \<exists>k<length plan. env_poll env k = Ready (Inr c)"
    using step by simp
qed

section \<open>Connecting\<close>

text \<open>The addresses a connection tries, in their order.\<close>

definition tcp_plan :: "socket_addr list \<Rightarrow> tcp_options \<Rightarrow> socket_addr list" where
  "tcp_plan addrs config = (if tcp_happy_eyeballs config = None then addrs else addr_plan addrs config)"

definition bind_allows :: "tcp_options \<Rightarrow> socket_addr \<Rightarrow> bool" where
  "bind_allows config a \<longleftrightarrow>
     (case (sb_ipv4 (tcp_bind config), sb_ipv6 (tcp_bind config)) of
        (Some _, None) \<Rightarrow> is_ipv4 a
      | (None, Some _) \<Rightarrow> is_ipv6 a
      | _ \<Rightarrow> True)"

lemma addr_plan_mset: "mset (addr_plan addrs config) = filter_mset (bind_allows config) (mset addrs)"
proof -
  have "mset (filter P xs) + mset (filter (Not \<circ> P) xs) = mset xs" for P and xs :: "socket_addr list"
    by (induction xs) auto
  then show ?thesis
    by (cases "sb_ipv4 (tcp_bind config)"; cases "sb_ipv6 (tcp_bind config)")
      (auto simp: addr_plan_def split_by_preference_def interleave_mset bind_allows_def [abs_def] partition_filter_conv Let_def comp_def)
qed

lemma addr_plan_length: "length (addr_plan addrs config) \<le> length addrs"
proof -
  have "size (mset (addr_plan addrs config)) \<le> size (mset addrs)"
    unfolding addr_plan_mset by (intro size_mset_mono) simp
  then show ?thesis by simp
qed

lemma connecting_new_plan:
  assumes "tcp_happy_eyeballs config \<noteq> None"
  shows "todo (tcp_state_new (connecting_new addrs config now) delay) = addr_plan addrs config"
    "cg_fallback (connecting_new addrs config now) = None \<Longrightarrow>
     cg_preferred (connecting_new addrs config now) = addr_plan addrs config"
  using assms
  by (auto simp: connecting_new_def todo_def tcp_state_new_def addr_plan_def Let_def split: prod.splits if_splits)

lemma race_start_ok:
  assumes "tcp_happy_eyeballs config \<noteq> None" "length addrs \<le> u64_max"
  shows "tcp_race_ok (addr_plan addrs config) (tcp_state_new (connecting_new addrs config now) delay)"
  using connecting_new_plan(1) [OF assms(1), of addrs now delay]
  by (auto simp: tcp_race_ok_def tcp_race_inv_def accounted_def tcp_state_new_def)

lemma race_start_sound:
  fixes p :: "(nat option \<times> tcp_state, 'c) progress"
  assumes "tcp_happy_eyeballs config \<noteq> None" "length addrs \<le> u64_max" "plan = addr_plan addrs config"
    "p = tcp_race_head config sys now (tcp_state_new (connecting_new addrs config now) delay)"
  shows "case p of Complete r \<Rightarrow> \<exists>e. r = Inl e \<and> tcp_race_failed plan e
      | Again s \<Rightarrow> (tcp_waiting_ok plan s \<and> length plan \<le> u64_max) \<and> length (todo (snd s)) < length plan
      | Parked _ \<Rightarrow> False"
    "machine_sound (\<lambda>s. tcp_waiting_ok plan s \<and> length plan \<le> u64_max) (tcp_race_failed plan) (length plan) deadline [] p"
proof -
  have len: "length (addr_plan addrs config) \<le> u64_max" using addr_plan_length assms(2) le_trans by blast
  have "ts_attempts (tcp_state_new (connecting_new addrs config now) delay) = []" by (simp add: tcp_state_new_def)
  note head = tcp_race_head_ok [where 'a = 'c, OF race_start_ok [OF assms(1,2), of now delay] len, of config sys now]
    this connecting_new_plan(1) [OF assms(1), of addrs now delay]
  show start: "case p of Complete r \<Rightarrow> \<exists>e. r = Inl e \<and> tcp_race_failed plan e
      | Again s \<Rightarrow> (tcp_waiting_ok plan s \<and> length plan \<le> u64_max) \<and> length (todo (snd s)) < length plan
      | Parked _ \<Rightarrow> False"
    using head len unfolding assms(3) assms(4) [symmetric] by (cases p) auto
  show "machine_sound (\<lambda>s. tcp_waiting_ok plan s \<and> length plan \<le> u64_max) (tcp_race_failed plan) (length plan) deadline [] p"
    using start by (cases p) (auto simp: machine_sound_def machine_returns_def)
qed

text \<open>C27: While connection attempts race, at least one and at most six are active; they are the addresses the resolver
  returned that the configured local address admits, the families taking turns beginning with the first
  resolved one, each address is tried once, and those not yet tried are the rest of that order.\<close>

theorem tcp_race_invariant:
  assumes "tcp_happy_eyeballs config = Some d" "length addrs \<le> u64_max"
    "drive (tcp_race_step config) deadline
       (tcp_race_head config sys now (tcp_state_new (connecting_new addrs config now) (Some d))) es
     \<in> {Again (sleep, st), Parked (sleep, st)}"
  shows "1 \<le> length (ts_attempts st) \<and> length (ts_attempts st) \<le> 6 \<and>
    sorted_wrt (<) (map ta_order (ts_attempts st)) \<and>
    (\<forall>a\<in>set (ts_attempts st). ta_order a < ts_next_order st \<and> ta_addr a = addr_plan addrs config ! ta_order a) \<and>
    ts_next_order st \<le> length (addr_plan addrs config) \<and>
    todo st = drop (ts_next_order st) (addr_plan addrs config) \<and>
    mset (addr_plan addrs config) = filter_mset (bind_allows config) (mset addrs)"
proof -
  have he: "tcp_happy_eyeballs config \<noteq> None" using assms(1) by simp
  have "tcp_waiting_ok (addr_plan addrs config) (sleep, st)"
    using race_machine.drive_sound [OF race_start_sound(2) [OF he assms(2) refl refl], where config = config and deadline = deadline and es = es and sys1 = sys and now1 = now and delay1 = "Some d"]
      assms(3)
    by (auto simp: machine_sound_def)
  then show ?thesis
    by (auto simp: tcp_waiting_ok_def tcp_race_ok_def tcp_race_inv_def max_parallel_connect_attempts_def addr_plan_mset Suc_le_eq)
qed

definition sample_addrs :: "socket_addr list" where
  "sample_addrs = [SockV6 1 443 0 0, SockV6 2 443 0 0, SockV4 3 443]"

definition sample_tcp_env :: "nat \<Rightarrow> (nat \<Rightarrow> (error, nat) result poll) \<Rightarrow> nat tcp_env" where
  "sample_tcp_env t answer = \<lparr>env_now = t, env_sys = (\<lambda>_ _. None), env_poll = answer\<rparr>"

text \<open>When every call on a socket succeeds, a launch takes one address.\<close>

lemma perform_ops_none: "perform_ops (\<lambda>_. None) ops = None"
  by (induction ops) auto

lemma launch_next_eval:
  "launch_next config (\<lambda>_ _. None) st =
     (case next_remote st of
        None \<Rightarrow> (False, st)
      | Some (fb, st1) \<Rightarrow>
          (case take_addr fb st1 of
             None \<Rightarrow> (False, st1)
           | Some (addr, st2) \<Rightarrow>
               (True, st2\<lparr>ts_next_order := u64_saturating_add (ts_next_order st2) 1,
                  ts_initial_delay := (if ts_next_order st2 \<noteq> 0 then None else ts_initial_delay st2),
                  ts_attempts := ts_attempts st2 @ [\<lparr>ta_addr = addr, ta_order = ts_next_order st2\<rparr>]\<rparr>)))"
  by (subst launch_next.simps) (simp add: tcp_connect_def perform_ops_none Let_def split: option.split)

lemmas tcp_sample_simps =
  sample_addrs_def sample_tcp_env_def tcp_options_default_def socket_bind_default_def connecting_new_def
  split_by_preference_def is_ipv6_def tcp_state_new_def tcp_race_head_def tcp_race_step_def tcp_race_event_def
  launch_next_eval next_remote_def take_addr_def has_fallback_def has_remaining_addrs_def record_error_def
  tcp_connect_def connect_ops_def opt_ops_def into_tcpkeepalive_def bind_local_address_def
  make_room_for_next_attempt_def max_parallel_connect_attempts_def u64_saturating_add_def
  sleep_ready_def connect_with_timeout_def connecting_connect_def take_error_def seq_step_def or_error_def

definition sample_race :: "bool \<Rightarrow> tcp_state" where
  "sample_race delayed =
     \<lparr>ts_preferred = [SockV6 2 443 0 0], ts_fallback = Some (if delayed then [] else [SockV4 3 443]),
      ts_initial_delay = None, ts_next_fallback = \<not> delayed, ts_delay = Some 300,
      ts_attempts = \<lparr>ta_addr = SockV6 1 443 0 0, ta_order = 0\<rparr> #
        (if delayed then [\<lparr>ta_addr = SockV4 3 443, ta_order = 1\<rparr>] else []),
      ts_next_order = (if delayed then 2 else 1), ts_first_error = None\<rparr>"

lemma sample_race_head: "tcp_race_head tcp_options_default (\<lambda>_ _. None) 0
        (tcp_state_new (connecting_new sample_addrs tcp_options_default 0) (Some 300)) = Again (Some 300, sample_race False)"
  by (simp add: tcp_sample_simps u64_max_def sample_race_def)

lemma sample_race_delayed: "tcp_race_step tcp_options_default (sample_tcp_env 300 (\<lambda>_. NotReady)) (Some 300, sample_race False) =
   Again (Some 600, sample_race True)"
  by (simp add: tcp_sample_simps u64_max_def sample_race_def)

theorem tcp_race_invariant_witness:
  "drive (tcp_race_step tcp_options_default) None
     (tcp_race_head tcp_options_default (\<lambda>_ _. None) 0
       (tcp_state_new (connecting_new sample_addrs tcp_options_default 0) (Some 300)))
     [sample_tcp_env 300 (\<lambda>_. NotReady)] = Again (Some 600, sample_race True) \<and>
   map ta_addr (ts_attempts (sample_race True)) = [SockV6 1 443 0 0, SockV4 3 443] \<and>
   todo (sample_race True) = drop 2 (addr_plan sample_addrs tcp_options_default)"
proof -
  have run: "drive (tcp_race_step tcp_options_default) None
      (tcp_race_head tcp_options_default (\<lambda>_ _. None) 0
        (tcp_state_new (connecting_new sample_addrs tcp_options_default 0) (Some 300)))
      [sample_tcp_env 300 (\<lambda>_. NotReady)] = Again (Some 600, sample_race True)"
    by (simp add: sample_race_head sample_race_delayed connect_with_timeout_def)
  have "length sample_addrs \<le> u64_max" by (simp add: u64_max_def sample_addrs_def)
  moreover have "tcp_happy_eyeballs tcp_options_default = Some 300" by (simp add: tcp_options_default_def)
  ultimately have "todo (sample_race True) = drop (ts_next_order (sample_race True)) (addr_plan sample_addrs tcp_options_default)"
    using tcp_race_invariant [where deadline = None and sys = "\<lambda>_ _. None" and now = 0 and
        es = "[sample_tcp_env 300 (\<lambda>_. NotReady)]" and sleep = "Some 600" and st = "sample_race True"] run
    by blast
  with run show ?thesis by (simp add: sample_race_def)
qed

text \<open>What connecting returns, over both machines.\<close>

definition tcp_failed :: "socket_addr list \<Rightarrow> tcp_options \<Rightarrow> tcp_error \<Rightarrow> bool" where
  "tcp_failed addrs config =
     (if tcp_happy_eyeballs config = None \<or> length (tcp_plan addrs config) \<le> 6
      then first_failed (tcp_plan addrs config) else tcp_race_failed (tcp_plan addrs config))"

definition tcp_deadline :: "tcp_options \<Rightarrow> nat \<Rightarrow> nat option" where
  "tcp_deadline config now = map_option (\<lambda>t. now + t) (tcp_connect_timeout config)"

lemma tcp_deadline_ready:
  "sleep_ready (tcp_deadline config now) t \<longleftrightarrow> (\<exists>d. tcp_connect_timeout config = Some d \<and> now + d \<le> t)"
  by (auto simp: tcp_deadline_def sleep_ready_def split: option.splits)

lemma connecting_connect_result:
  assumes "length addrs \<le> u64_max"
  shows "(case connecting_connect config (connecting_new addrs config now) sys now es of
      None \<Rightarrow> \<not> (length (tcp_plan addrs config) \<le> length es \<and>
        (\<forall>env\<in>set es. sleep_ready (tcp_deadline config now) (env_now env) \<or> (\<forall>k. env_poll env k \<noteq> NotReady)))
    | Some r \<Rightarrow> machine_returns (tcp_failed addrs config) (length (tcp_plan addrs config)) (tcp_deadline config now) es r)"
proof -
  let ?cg = "connecting_new addrs config now"
  let ?plan = "tcp_plan addrs config"
  let ?deadline = "tcp_deadline config now"
  have len: "length ?plan \<le> u64_max"
    using assms addr_plan_length [of addrs config] by (simp add: tcp_plan_def)
  show ?thesis
  proof (cases "cg_fallback ?cg = None \<and> (tcp_happy_eyeballs config = None \<or> length (cg_preferred ?cg) \<le> 1)")
    case True
    have plan: "cg_preferred ?cg = ?plan"
      using True connecting_new_plan(2) [of config addrs now]
      by (cases "tcp_happy_eyeballs config") (auto simp: tcp_plan_def connecting_new_def [of _ _ now])
    have failed: "tcp_failed addrs config = first_failed ?plan" using True by (auto simp: tcp_failed_def plan)
    let ?p = "seq_launch config sys 0 None ?plan"
    have cc: "connecting_connect config ?cg sys now es = finished (drive (seq_step config) ?deadline ?p es)"
      using True by (simp add: connecting_connect_def tcp_deadline_def plan)
    have "(case ?p of Complete r \<Rightarrow> \<exists>e. r = Inl e \<and> first_failed ?plan e
        | Again s \<Rightarrow> seq_ok ?plan s \<and> length (sq_rest s) < length ?plan | Parked _ \<Rightarrow> False)"
      by (rule seq_launch_ok) simp_all
    from seq_machine.drive_result [OF this, where config = config and deadline = ?deadline and es = es]
    show ?thesis unfolding cc failed .
  next
    case False
    then have he: "tcp_happy_eyeballs config \<noteq> None"
      by (cases "tcp_happy_eyeballs config") (auto simp: connecting_new_def)
    then have plan: "?plan = addr_plan addrs config" by (auto simp: tcp_plan_def)
    have failed: "tcp_failed addrs config = tcp_race_failed ?plan"
      using he by (auto simp: tcp_failed_def first_failed_def tcp_race_failed_def fun_eq_iff max_parallel_connect_attempts_def)
    let ?p = "tcp_race_head config sys now (tcp_state_new ?cg (tcp_happy_eyeballs config))"
    have cc: "connecting_connect config ?cg sys now es = finished (drive (tcp_race_step config) ?deadline ?p es)"
      using False by (auto simp: connecting_connect_def tcp_deadline_def)
    note start = race_start_sound(1) [OF he assms plan, of ?p sys now "tcp_happy_eyeballs config", OF refl]
    from race_machine.drive_result [OF start, where config = config and deadline = ?deadline and es = es]
    show ?thesis unfolding cc failed .
  qed
qed

text \<open>C28: A connection that is returned was opened by one of the attempts; an error is that of the deadline, which has
  passed, or of one of the addresses, the first one if attempts do not race or there are at most six addresses.
  Connecting ends after as many polls as there are addresses, if at each of them the deadline has passed or
  every attempt answers.\<close>

theorem tcp_connect_spec:
  assumes "length addrs \<le> u64_max"
  shows "(\<forall>c. connecting_connect config (connecting_new addrs config now) sys now es = Some (Inr c) \<longrightarrow>
      (\<exists>env\<in>set es. \<exists>k<length (tcp_plan addrs config). env_poll env k = Ready (Inr c))) \<and>
    (\<forall>e. connecting_connect config (connecting_new addrs config now) sys now es = Some (Inl e) \<longrightarrow>
      te_cause e = Some (IoError IoTimedOut (Some (Other ''connect timeout'' None))) \<and>
        (\<exists>t. tcp_connect_timeout config = Some t \<and> (\<exists>env\<in>set es. now + t \<le> env_now env)) \<or>
      tcp_plan addrs config = [] \<and> e = network_unreachable \<or>
      (\<exists>k<length (tcp_plan addrs config). te_addr e = Some (tcp_plan addrs config ! k) \<and>
         (tcp_happy_eyeballs config = None \<or> length (tcp_plan addrs config) \<le> 6 \<longrightarrow> k = 0))) \<and>
    (length (tcp_plan addrs config) \<le> length es \<and>
     (\<forall>env\<in>set es. (\<exists>t. tcp_connect_timeout config = Some t \<and> now + t \<le> env_now env) \<or>
        (\<forall>k. env_poll env k \<noteq> NotReady)) \<longrightarrow>
     connecting_connect config (connecting_new addrs config now) sys now es \<noteq> None)"
proof -
  let ?plan = "tcp_plan addrs config"
  have failed: "tcp_failed addrs config e \<longleftrightarrow> ?plan = [] \<and> e = network_unreachable \<or>
      (\<exists>k<length ?plan. te_addr e = Some (?plan ! k) \<and>
         (tcp_happy_eyeballs config = None \<or> length ?plan \<le> 6 \<longrightarrow> k = 0))" for e
    by (auto simp: tcp_failed_def first_failed_def tcp_race_failed_def max_parallel_connect_attempts_def)
  note result = connecting_connect_result [OF assms, where config = config and now = now and sys = sys and es = es]
  show ?thesis
  proof (cases "connecting_connect config (connecting_new addrs config now) sys now es")
    case None
    with result show ?thesis by (simp add: tcp_deadline_ready)
  next
    case (Some r)
    with result show ?thesis by (cases r) (auto simp: machine_returns_def tcp_deadline_ready failed)
  qed
qed

theorem tcp_connect_spec_witness:
  "connecting_connect tcp_options_default (connecting_new [SockV4 3 443] tcp_options_default 0) (\<lambda>_ _. None) 0
     [sample_tcp_env 5 (\<lambda>_. Ready (Inl Elapsed))] \<noteq> None"
proof -
  have p: "tcp_plan [SockV4 3 443] tcp_options_default = [SockV4 3 443]"
    by (simp add: tcp_plan_def addr_plan_def tcp_sample_simps)
  have "length [SockV4 3 443] \<le> u64_max" by (simp add: u64_max_def)
  from tcp_connect_spec [OF this, of tcp_options_default 0 "\<lambda>_ _. None"
      "[sample_tcp_env 5 (\<lambda>_. Ready (Inl Elapsed))]"]
  show ?thesis unfolding p by (simp add: sample_tcp_env_def)
qed

section \<open>Ports and local addresses\<close>

text \<open>An explicit port of the URI is the port of every address; otherwise a resolver may choose it, and no
  address keeps the port zero unless the scheme's port is zero.\<close>

lemma connector_ports:
  assumes "connector_addrs options resolver dst = Inr addrs" "a \<in> set addrs"
  shows "(case uri_port dst of
      Some p \<Rightarrow> sock_port a = p
    | None \<Rightarrow> sock_port a \<noteq> 0)"
proof -
  have set_port: "sock_port (set_port p x b) = (if x \<or> sock_port b = 0 then p else sock_port b)" for p x b
    by (cases b) (auto simp: set_port_def)
  have literal: "try_parse h p = Some as \<Longrightarrow> b \<in> set as \<Longrightarrow> sock_port b = p" for h p as b
    by (auto simp: try_parse_def split: option.splits prod.splits list.splits)
  obtain host port where hp: "get_host_port options dst = Inr (host, port)"
    using assms(1) by (auto simp: connector_addrs_def split: sum.splits)
  then have port: "case uri_port dst of Some p \<Rightarrow> port = p | None \<Rightarrow> port \<noteq> 0"
    by (auto simp: get_host_port_def split: option.splits if_splits)
  show ?thesis
  proof (cases "try_parse (strip_ipv6_brackets host) port")
    case None
    with assms hp port show ?thesis
      by (auto simp: connector_addrs_def set_port split: sum.splits option.splits if_splits)
  next
    case (Some as)
    then have "sock_port a = port" using assms hp literal by (simp add: connector_addrs_def)
    with port show ?thesis by (simp split: option.splits)
  qed
qed

text \<open>With only a local IPv4 address, an IPv6 address is skipped when attempts race; when they do not, it is tried
  from an unbound socket.\<close>

lemma unbound_family:
  assumes "sb_ipv4 (tcp_bind config) = Some x" "sb_ipv6 (tcp_bind config) = None" "is_ipv6 a" "a \<in> set addrs"
  shows "tcp_happy_eyeballs config \<noteq> None \<Longrightarrow> a \<notin> set (tcp_plan addrs config)"
    "tcp_happy_eyeballs config = None \<Longrightarrow>
     a \<in> set (tcp_plan addrs config) \<and> (\<forall>ip. BindAddr ip \<notin> fst ` set (connect_ops a config))"
proof -
  have "set_mset (mset (addr_plan addrs config)) = set_mset (filter_mset (bind_allows config) (mset addrs))"
    by (simp only: addr_plan_mset)
  then show "tcp_happy_eyeballs config \<noteq> None \<Longrightarrow> a \<notin> set (tcp_plan addrs config)"
    using assms by (auto simp: tcp_plan_def bind_allows_def is_ipv6_def)
  assume "tcp_happy_eyeballs config = None"
  with assms show "a \<in> set (tcp_plan addrs config) \<and> (\<forall>ip. BindAddr ip \<notin> fst ` set (connect_ops a config))"
    by (cases a) (auto simp: tcp_plan_def connect_ops_def opt_ops_def bind_local_address_def is_ipv6_def split: option.splits)
qed

end
