(* ===== verification/Tls_Session.thy ===== *)
theory Tls_Session
  imports Wreq_Prelude
begin

text \<open>
  The default TLS session cache of \<^verbatim>\<open>tls/session.rs\<close>: sessions by connection key in least-recently-used order, and
  the key of each session.  A session of the TLS library is recorded by its identifier, its protocol version
  and its content; sessions with the same identifier are equal for the maps.  The lists are caches of the
  crate \<^verbatim>\<open>lru\<close>, a parameter.  Every operation holds the lock of the cache, so a history is a sequence of operations.
  Shown: the two maps agree, the lists are bounded, and a TLS 1.3 session is handed out at most as often as it was
  stored, and only under its key.
\<close>

section \<open>Sessions and the cache\<close>

datatype tls_version = TLS_1_0 | TLS_1_1 | TLS_1_2 | TLS_1_3

record tls_session =
  ss_id :: string
  ss_protocol :: tls_version
  ss_data :: string

text \<open>\<^verbatim>\<open>lru::LruCache\<close>.  \<open>sl_items\<close> are the entries from the least to the most recently used.\<close>

record 'c session_lru =
  sl_new :: "nat option \<Rightarrow> 'c"
  sl_capacity :: "'c \<Rightarrow> nat option"
  sl_items :: "'c \<Rightarrow> tls_session list"
  sl_put :: "tls_session \<Rightarrow> 'c \<Rightarrow> 'c"
  sl_pop_lru :: "'c \<Rightarrow> 'c"
  sl_pop :: "tls_session \<Rightarrow> 'c \<Rightarrow> 'c"

text \<open>Its documented behaviour.  Storing an entry that is present makes it the most recently used; the stored
  key is kept.  A cache that is full evicts, which the cache below avoids.\<close>

definition put_item :: "tls_session \<Rightarrow> tls_session list \<Rightarrow> tls_session list" where
  "put_item s xs =
     filter (\<lambda>t. ss_id t \<noteq> ss_id s) xs @ [case find (\<lambda>t. ss_id t = ss_id s) xs of Some t \<Rightarrow> t | None \<Rightarrow> s]"

definition session_lru_ok :: "'c session_lru \<Rightarrow> bool" where
  "session_lru_ok L \<longleftrightarrow>
     (\<forall>n. sl_items L (sl_new L n) = [] \<and> sl_capacity L (sl_new L n) = n) \<and>
     (\<forall>s c. sl_capacity L (sl_put L s c) = sl_capacity L c \<and>
        ((\<forall>n. sl_capacity L c = Some n \<longrightarrow> length (sl_items L c) < n) \<longrightarrow>
         sl_items L (sl_put L s c) = put_item s (sl_items L c))) \<and>
     (\<forall>c. sl_capacity L (sl_pop_lru L c) = sl_capacity L c \<and>
        sl_items L (sl_pop_lru L c) = tl (sl_items L c)) \<and>
     (\<forall>s c. sl_capacity L (sl_pop L s c) = sl_capacity L c \<and>
        sl_items L (sl_pop L s c) = filter (\<lambda>t. ss_id t \<noteq> ss_id s) (sl_items L c))"

record ('k, 'c) session_cache =
  sc_reverse :: "(string, 'k) hash_map"
  sc_hosts :: "('k, 'c) hash_map"
  sc_capacity :: nat

definition session_cache_new :: "nat \<Rightarrow> ('k, 'c) session_cache" where
  "session_cache_new n = \<lparr>sc_reverse = [], sc_hosts = [], sc_capacity = n\<rparr>"

definition session_put :: "'c session_lru \<Rightarrow> 'k \<Rightarrow> tls_session \<Rightarrow> ('k, 'c) session_cache \<Rightarrow> ('k, 'c) session_cache" where
  "session_put L key session st =
     (let sessions = (case hm_get (sc_hosts st) key of
            Some c \<Rightarrow> c
          | None \<Rightarrow> sl_new L (if sc_capacity st = 0 then None else Some (sc_capacity st)));
          full = sc_capacity st \<le> length (sl_items L sessions);
          evicted = (if full \<and> sl_items L sessions \<noteq> [] then Some (hd (sl_items L sessions)) else None);
          sessions1 = sl_put L session (if full then sl_pop_lru L sessions else sessions);
          reverse = (case evicted of Some e \<Rightarrow> hm_remove (ss_id e) (sc_reverse st) | None \<Rightarrow> sc_reverse st)
      in st\<lparr>sc_hosts := hm_insert key sessions1 (sc_hosts st),
            sc_reverse := hm_insert (ss_id session) key reverse\<rparr>)"

definition session_pop ::
  "'c session_lru \<Rightarrow> 'k \<Rightarrow> ('k, 'c) session_cache \<Rightarrow> ('k, 'c) session_cache \<times> tls_session option"
where
  "session_pop L key st =
     (case hm_get (sc_hosts st) key of
        None \<Rightarrow> (st, None)
      | Some c \<Rightarrow>
          (case sl_items L c of
             [] \<Rightarrow> (st, None)
           | session # _ \<Rightarrow>
               (case (if ss_protocol session = TLS_1_3 then hm_get (sc_reverse st) (ss_id session) else None) of
                  None \<Rightarrow> (st, Some session)
                | Some k \<Rightarrow>
                    (let reverse = hm_remove (ss_id session) (sc_reverse st)
                     in case hm_get (sc_hosts st) k of
                          None \<Rightarrow> (st\<lparr>sc_reverse := reverse\<rparr>, Some session)
                        | Some c' \<Rightarrow>
                            (let c'' = sl_pop L session c'
                             in (st\<lparr>sc_reverse := reverse,
                                    sc_hosts := (if sl_items L c'' = [] then hm_remove k (sc_hosts st)
                                                 else hm_insert k c'' (sc_hosts st))\<rparr>,
                                 Some session))))))"

section \<open>Histories\<close>

datatype 'k session_op = Put 'k tls_session | Pop 'k

text \<open>A history, and what its retrievals returned, by key.\<close>

fun session_run ::
  "'c session_lru \<Rightarrow> ('k, 'c) session_cache \<Rightarrow> 'k session_op list \<Rightarrow>
   ('k, 'c) session_cache \<times> ('k \<times> tls_session) list"
where
  "session_run L st [] = (st, [])"
| "session_run L st (Put k s # ops) = session_run L (session_put L k s st) ops"
| "session_run L st (Pop k # ops) =
     (case session_pop L k st of
        (st1, out) \<Rightarrow>
          (case session_run L st1 ops of
             (st2, outs) \<Rightarrow> (st2, (case out of Some s \<Rightarrow> [(k, s)] | None \<Rightarrow> []) @ outs)))"

section \<open>The invariant\<close>

definition sessions_of :: "'c session_lru \<Rightarrow> ('k, 'c) session_cache \<Rightarrow> 'k \<Rightarrow> tls_session list" where
  "sessions_of L st k = (case hm_get (sc_hosts st) k of Some c \<Rightarrow> sl_items L c | None \<Rightarrow> [])"

text \<open>\<open>own\<close> is the key a session identifier is stored under.\<close>

definition session_cache_ok :: "'c session_lru \<Rightarrow> (string \<Rightarrow> 'k) \<Rightarrow> ('k, 'c) session_cache \<Rightarrow> bool" where
  "session_cache_ok L own st \<longleftrightarrow>
     (\<forall>k s. s \<in> set (sessions_of L st k) \<longrightarrow> hm_get (sc_reverse st) (ss_id s) = Some k) \<and>
     (\<forall>i k. hm_get (sc_reverse st) i = Some k \<longrightarrow> own i = k \<and> i \<in> ss_id ` set (sessions_of L st k)) \<and>
     (\<forall>k. distinct (map ss_id (sessions_of L st k)) \<and> length (sessions_of L st k) \<le> max 1 (sc_capacity st)) \<and>
     (\<forall>k c. hm_get (sc_hosts st) k = Some c \<longrightarrow>
        sl_capacity L c = (if sc_capacity st = 0 then None else Some (sc_capacity st)))"

lemma put_item_set:
  assumes "distinct (map ss_id xs)"
  shows "ss_id ` set (put_item s xs) = insert (ss_id s) (ss_id ` set xs)"
    "set (put_item s xs) \<subseteq> insert s (set xs)" "distinct (map ss_id (put_item s xs))"
    "length (put_item s xs) \<le> Suc (length xs)"
proof -
  obtain t where t: "(case find (\<lambda>t. ss_id t = ss_id s) xs of Some t \<Rightarrow> t | None \<Rightarrow> s) = t" by simp
  have id: "ss_id t = ss_id s" and mem: "t \<in> insert s (set xs)"
    using t by (auto simp: find_Some_iff split: option.splits)
  show "ss_id ` set (put_item s xs) = insert (ss_id s) (ss_id ` set xs)"
    using id by (auto simp: put_item_def t)
  show "set (put_item s xs) \<subseteq> insert s (set xs)" using mem by (auto simp: put_item_def t)
  show "distinct (map ss_id (put_item s xs))" using assms id by (auto simp: put_item_def t distinct_map_filter)
  show "length (put_item s xs) \<le> Suc (length xs)" by (simp add: put_item_def)
qed

lemma session_put_sessions:
  fixes k :: 'k and st :: "('k, 'c) session_cache"
  assumes "session_lru_ok L" "session_cache_ok L own st"
  defines "xs \<equiv> (if sc_capacity st \<le> length (sessions_of L st k) then tl (sessions_of L st k) else sessions_of L st k)"
  shows "sessions_of L (session_put L k s st) k' = (if k' = k then put_item s xs else sessions_of L st k')"
    "\<And>c. hm_get (sc_hosts (session_put L k s st)) k' = Some c \<Longrightarrow>
       sl_capacity L c = (if sc_capacity st = 0 then None else Some (sc_capacity st))"
    "sc_capacity (session_put L k s st) = sc_capacity st"
    "sc_reverse (session_put L k s st) = hm_insert (ss_id s) k
       (if sc_capacity st \<le> length (sessions_of L st k) \<and> sessions_of L st k \<noteq> []
        then hm_remove (ss_id (hd (sessions_of L st k))) (sc_reverse st) else sc_reverse st)"
proof -
  define c where "c = (case hm_get (sc_hosts st) k of
    Some c \<Rightarrow> c | None \<Rightarrow> sl_new L (if sc_capacity st = 0 then None else Some (sc_capacity st)))"
  have items: "sl_items L c = sessions_of L st k"
    using assms(1) by (simp add: c_def sessions_of_def session_lru_ok_def split: option.split)
  have cap: "sl_capacity L c = (if sc_capacity st = 0 then None else Some (sc_capacity st))"
    using assms(1,2) by (simp add: c_def session_cache_ok_def session_lru_ok_def split: option.split)
  define c1 where "c1 = (if sc_capacity st \<le> length (sl_items L c) then sl_pop_lru L c else c)"
  have c1: "sl_items L c1 = xs" "sl_capacity L c1 = sl_capacity L c"
    using assms(1) by (auto simp: c1_def xs_def items session_lru_ok_def)
  have "length (sessions_of L st k) \<le> max 1 (sc_capacity st)" using assms(2) by (auto simp: session_cache_ok_def)
  then have room: "\<forall>n. sl_capacity L c1 = Some n \<longrightarrow> length (sl_items L c1) < n"
    by (auto simp: c1 cap xs_def split: if_splits)
  have put: "sl_items L (sl_put L s c1) = put_item s xs" "sl_capacity L (sl_put L s c1) = sl_capacity L c"
    using assms(1) room c1 by (simp_all add: session_lru_ok_def)
  have eq: "session_put L k s st = st\<lparr>sc_hosts := hm_insert k (sl_put L s c1) (sc_hosts st),
      sc_reverse := hm_insert (ss_id s) k
       (if sc_capacity st \<le> length (sessions_of L st k) \<and> sessions_of L st k \<noteq> []
        then hm_remove (ss_id (hd (sessions_of L st k))) (sc_reverse st) else sc_reverse st)\<rparr>"
    unfolding session_put_def c_def [symmetric] Let_def by (simp add: items c1_def)
  show "sessions_of L (session_put L k s st) k' = (if k' = k then put_item s xs else sessions_of L st k')"
    by (simp add: eq sessions_of_def hash_simps put)
  show "sc_capacity (session_put L k s st) = sc_capacity st"
    "sc_reverse (session_put L k s st) = hm_insert (ss_id s) k
       (if sc_capacity st \<le> length (sessions_of L st k) \<and> sessions_of L st k \<noteq> []
        then hm_remove (ss_id (hd (sessions_of L st k))) (sc_reverse st) else sc_reverse st)"
    by (simp_all add: eq)
  fix c'
  assume "hm_get (sc_hosts (session_put L k s st)) k' = Some c'"
  then show "sl_capacity L c' = (if sc_capacity st = 0 then None else Some (sc_capacity st))"
    using assms(2) cap put(2) by (auto simp: eq hash_simps session_cache_ok_def split: if_splits)
qed

text \<open>How many copies of a session the cache can still hand out.\<close>

definition cached :: "('k, 'c) session_cache \<Rightarrow> string \<Rightarrow> nat" where
  "cached st i = (if hm_get (sc_reverse st) i = None then 0 else 1)"

lemma session_put_ok:
  assumes "session_lru_ok L" "session_cache_ok L own st" "own (ss_id s) = k"
  shows "session_cache_ok L own (session_put L k s st)"
    "cached (session_put L k s st) i \<le> cached st i + (if ss_id s = i then 1 else 0)"
    "set (sessions_of L (session_put L k s st) k') \<subseteq> (if k' = k then {s} else {}) \<union> set (sessions_of L st k')"
proof -
  let ?st = "session_put L k s st" and ?xs = "sessions_of L st k"
  define full where "full \<longleftrightarrow> sc_capacity st \<le> length ?xs"
  define xs where "xs = (if full then tl ?xs else ?xs)"
  note put = session_put_sessions [OF assms(1,2), of k s, folded full_def, folded xs_def]
  have fwd: "\<And>k s. s \<in> set (sessions_of L st k) \<Longrightarrow> hm_get (sc_reverse st) (ss_id s) = Some k"
    and bwd: "\<And>i k. hm_get (sc_reverse st) i = Some k \<Longrightarrow> own i = k \<and> i \<in> ss_id ` set (sessions_of L st k)"
    and dst: "\<And>k. distinct (map ss_id (sessions_of L st k)) \<and> length (sessions_of L st k) \<le> max 1 (sc_capacity st)"
    using assms(2) by (auto simp: session_cache_ok_def)
  have xs: "distinct (map ss_id xs)" "set xs \<subseteq> set ?xs"
    using dst [of k] by (cases ?xs; simp add: xs_def subset_insertI)+
  note item = put_item_set [OF xs(1), of s]
  have ids: "ss_id ` set xs = ss_id ` set ?xs - (if full \<and> ?xs \<noteq> [] then {ss_id (hd ?xs)} else {})"
    using dst [of k] by (cases ?xs) (auto simp: xs_def)
  show "set (sessions_of L ?st k') \<subseteq> (if k' = k then {s} else {}) \<union> set (sessions_of L st k')"
    using item(2) xs(2) by (auto simp: put(1))
  show "cached ?st i \<le> cached st i + (if ss_id s = i then 1 else 0)"
    by (auto simp: cached_def put(4) hash_simps split: if_splits)
  have rev: "hm_get (sc_reverse ?st) i = (if i = ss_id s then Some k
      else if full \<and> ?xs \<noteq> [] \<and> i = ss_id (hd ?xs) then None else hm_get (sc_reverse st) i)" for i
    by (auto simp: put(4) hash_simps)
  have "length xs < max 1 (sc_capacity st)" using dst [of k] by (auto simp: xs_def full_def)
  then have len: "length (put_item s xs) \<le> max 1 (sc_capacity st)" using item(4) by linarith
  have hd: "?xs \<noteq> [] \<Longrightarrow> hm_get (sc_reverse st) (ss_id (hd ?xs)) = Some k" using fwd by simp
  have f: "hm_get (sc_reverse ?st) (ss_id s') = Some k'" if "s' \<in> set (sessions_of L ?st k')" for k' s'
  proof (cases "k' = k")
    case True
    with that have "ss_id s' \<in> insert (ss_id s) (ss_id ` set xs)" using item(1) by (auto simp: put(1))
    moreover have "\<And>i. i \<in> ss_id ` set ?xs \<Longrightarrow> hm_get (sc_reverse st) i = Some k" using fwd by auto
    ultimately show ?thesis using ids True by (auto simp: rev split: if_splits)
  next
    case False
    with that have "hm_get (sc_reverse st) (ss_id s') = Some k'" using fwd by (simp add: put(1))
    moreover have "ss_id s' \<noteq> ss_id s" using bwd [OF calculation] assms(3) False by auto
    ultimately show ?thesis using hd False by (auto simp: rev)
  qed
  have b: "own i = k' \<and> i \<in> ss_id ` set (sessions_of L ?st k')" if "hm_get (sc_reverse ?st) i = Some k'" for i k'
    using that bwd [of i k'] assms(3) item(1) ids by (auto simp: rev put(1) split: if_splits)
  have d: "distinct (map ss_id (sessions_of L ?st k')) \<and> length (sessions_of L ?st k') \<le> max 1 (sc_capacity st)" for k'
    using item(3) len dst [of k'] by (simp add: put(1))
  show "session_cache_ok L own ?st"
    unfolding session_cache_ok_def put(3)
    by (intro conjI allI impI) (erule f b [THEN conjunct1] b [THEN conjunct2] put(2) | rule d [THEN conjunct1] d [THEN conjunct2])+
qed

lemma session_pop_ok:
  assumes "session_lru_ok L" "session_cache_ok L own st" "session_pop L k st = (st', out)"
  shows "session_cache_ok L own st'" "sc_capacity st' = sc_capacity st"
    "set (sessions_of L st' k') \<subseteq> set (sessions_of L st k')"
    "case out of None \<Rightarrow> st' = st
     | Some s \<Rightarrow> s \<in> set (sessions_of L st k) \<and>
         (ss_protocol s = TLS_1_3 \<longrightarrow> (\<forall>i. cached st i = cached st' i + (if ss_id s = i then 1 else 0))) \<and>
         (ss_protocol s \<noteq> TLS_1_3 \<longrightarrow> st' = st)"
proof -
  have fwd: "\<And>k s. s \<in> set (sessions_of L st k) \<Longrightarrow> hm_get (sc_reverse st) (ss_id s) = Some k"
    and bwd: "\<And>i k. hm_get (sc_reverse st) i = Some k \<Longrightarrow> own i = k \<and> i \<in> ss_id ` set (sessions_of L st k)"
    using assms(2) by (auto simp: session_cache_ok_def)
  consider (none) "st' = st" "out = None" |
    (old) s where "s \<in> set (sessions_of L st k)" "out = Some s" "ss_protocol s \<noteq> TLS_1_3" "st' = st" |
    (new) s c where "s \<in> set (sessions_of L st k)" "out = Some s" "ss_protocol s = TLS_1_3"
      "hm_get (sc_hosts st) k = Some c"
      "st' = st\<lparr>sc_reverse := hm_remove (ss_id s) (sc_reverse st),
        sc_hosts := (if sl_items L (sl_pop L s c) = [] then hm_remove k (sc_hosts st)
                     else hm_insert k (sl_pop L s c) (sc_hosts st))\<rparr>"
  proof (cases "hm_get (sc_hosts st) k")
    case None
    with assms(3) that(1) show thesis by (simp add: session_pop_def)
  next
    case (Some c)
    show thesis
    proof (cases "sl_items L c")
      case Nil
      with Some assms(3) that(1) show thesis by (simp add: session_pop_def)
    next
      case (Cons s xs)
      then have s: "s \<in> set (sessions_of L st k)" using Some by (simp add: sessions_of_def)
      show thesis
      proof (cases "ss_protocol s = TLS_1_3")
        case True
        with Some Cons assms(3) fwd [OF s] have "out = Some s"
          "st' = st\<lparr>sc_reverse := hm_remove (ss_id s) (sc_reverse st),
            sc_hosts := (if sl_items L (sl_pop L s c) = [] then hm_remove k (sc_hosts st)
                         else hm_insert k (sl_pop L s c) (sc_hosts st))\<rparr>"
          by (simp_all add: session_pop_def Let_def)
        then show thesis by (rule that(3) [OF s _ True Some])
      next
        case False
        with Some Cons assms(3) have "out = Some s" "st' = st" by (simp_all add: session_pop_def)
        then show thesis by (rule that(2) [OF s _ False])
      qed
    qed
  qed
  then have all: "session_cache_ok L own st' \<and> sc_capacity st' = sc_capacity st \<and>
    set (sessions_of L st' k') \<subseteq> set (sessions_of L st k') \<and>
    (case out of None \<Rightarrow> st' = st
     | Some s \<Rightarrow> s \<in> set (sessions_of L st k) \<and>
         (ss_protocol s = TLS_1_3 \<longrightarrow> (\<forall>i. cached st i = cached st' i + (if ss_id s = i then 1 else 0))) \<and>
         (ss_protocol s \<noteq> TLS_1_3 \<longrightarrow> st' = st))"
  proof cases
    case none
    with assms(2) show ?thesis by simp
  next
    case (old s)
    with assms(2) show ?thesis by simp
  next
    case (new s c)
    have items: "sessions_of L st k = sl_items L c" using new(4) by (simp add: sessions_of_def)
    have pop: "sl_items L (sl_pop L s c) = filter (\<lambda>t. ss_id t \<noteq> ss_id s) (sl_items L c)"
      "sl_capacity L (sl_pop L s c) = sl_capacity L c"
      using assms(1) by (simp_all add: session_lru_ok_def)
    have at: "sessions_of L st' j = (if j = k then filter (\<lambda>t. ss_id t \<noteq> ss_id s) (sl_items L c) else sessions_of L st j)" for j
      by (auto simp: new(5) sessions_of_def hash_simps pop)
    have rev: "hm_get (sc_reverse st') i = (if i = ss_id s then None else hm_get (sc_reverse st) i)" for i
      by (simp add: new(5) hash_simps)
    have cap: "sc_capacity st' = sc_capacity st" by (simp add: new(5))
    have caps: "hm_get (sc_hosts st') j = Some c' \<Longrightarrow> sl_capacity L c' = (if sc_capacity st = 0 then None else Some (sc_capacity st))" for j c'
      using assms(2) pop(2) new(4) by (auto simp: new(5) hash_simps session_cache_ok_def split: if_splits)
    have f: "hm_get (sc_reverse st') (ss_id t) = Some j" if "t \<in> set (sessions_of L st' j)" for j t
    proof -
      have "t \<in> set (sessions_of L st j)" using that items by (auto simp: at split: if_splits)
      then have t: "hm_get (sc_reverse st) (ss_id t) = Some j" by (rule fwd)
      have "ss_id t \<noteq> ss_id s"
      proof (cases "j = k")
        case True
        with that show ?thesis by (simp add: at)
      next
        case False
        then show ?thesis using t fwd [OF new(1)] by auto
      qed
      with t show ?thesis by (simp add: rev)
    qed
    have b: "own i = j \<and> i \<in> ss_id ` set (sessions_of L st' j)" if "hm_get (sc_reverse st') i = Some j" for i j
      using that bwd [of i j] items by (auto simp: at rev split: if_splits)
    have d: "distinct (map ss_id (sessions_of L st' j)) \<and> length (sessions_of L st' j) \<le> max 1 (sc_capacity st)" for j
    proof -
      have "distinct (map ss_id (sessions_of L st j))" "length (sessions_of L st j) \<le> max 1 (sc_capacity st)"
        using assms(2) by (auto simp: session_cache_ok_def)
      then show ?thesis
        using items le_trans [OF length_filter_le, of "sl_items L c"] by (auto simp: at distinct_map_filter)
    qed
    have "session_cache_ok L own st'" unfolding session_cache_ok_def cap using f b d caps by blast
    moreover have "cached st i = cached st' i + (if ss_id s = i then 1 else 0)" for i
      using fwd [OF new(1)] by (auto simp: cached_def rev)
    ultimately show ?thesis using new(1-3) cap items by (auto simp: at)
  qed
  then show "session_cache_ok L own st'" "sc_capacity st' = sc_capacity st"
    "set (sessions_of L st' k') \<subseteq> set (sessions_of L st k')"
    "case out of None \<Rightarrow> st' = st
     | Some s \<Rightarrow> s \<in> set (sessions_of L st k) \<and>
         (ss_protocol s = TLS_1_3 \<longrightarrow> (\<forall>i. cached st i = cached st' i + (if ss_id s = i then 1 else 0))) \<and>
         (ss_protocol s \<noteq> TLS_1_3 \<longrightarrow> st' = st)"
    by simp_all
qed

definition puts_of :: "string \<Rightarrow> 'k session_op list \<Rightarrow> nat" where
  "puts_of i ops = length (filter (\<lambda>op. case op of Put k s \<Rightarrow> ss_id s = i | Pop k \<Rightarrow> False) ops)"

definition pops_of :: "string \<Rightarrow> ('k \<times> tls_session) list \<Rightarrow> nat" where
  "pops_of i outs = length (filter (\<lambda>(k, s). ss_id s = i \<and> ss_protocol s = TLS_1_3) outs)"

lemma session_run_ok:
  assumes "session_lru_ok L" "session_cache_ok L own st" "\<forall>k s. Put k s \<in> set ops \<longrightarrow> own (ss_id s) = k"
    "session_run L st ops = (st', outs)"
  shows "session_cache_ok L own st' \<and> sc_capacity st' = sc_capacity st \<and>
    pops_of i outs + cached st' i \<le> puts_of i ops + cached st i \<and>
    (\<forall>(k, s)\<in>set outs. s \<in> set (sessions_of L st k) \<or> Put k s \<in> set ops)"
  using assms(2-) assms(1)
proof (induction L st ops arbitrary: outs rule: session_run.induct)
  case (1 L st)
  then show ?case by (simp add: pops_of_def puts_of_def)
next
  case (2 L st k s ops)
  have own: "own (ss_id s) = k" using "2.prems"(2) by simp
  let ?st = "session_put L k s st"
  note put = session_put_ok [OF "2.prems"(4) "2.prems"(1) own]
  have ih: "session_cache_ok L own st' \<and> sc_capacity st' = sc_capacity ?st \<and>
      pops_of i outs + cached st' i \<le> puts_of i ops + cached ?st i \<and>
      (\<forall>(k, s)\<in>set outs. s \<in> set (sessions_of L ?st k) \<or> Put k s \<in> set ops)"
    by (rule "2.IH") (use put(1) "2.prems" in auto)
  have "puts_of i (Put k s # ops) = (if ss_id s = i then 1 else 0) + puts_of i ops" by (simp add: puts_of_def)
  with ih put(2) [of i] have "pops_of i outs + cached st' i \<le> puts_of i (Put k s # ops) + cached st i" by linarith
  moreover have "s' \<in> set (sessions_of L st j) \<or> Put j s' \<in> set (Put k s # ops)" if "(j, s') \<in> set outs" for j s'
    using ih that put(3) [of j] by (fastforce split: if_splits)
  moreover have "sc_capacity ?st = sc_capacity st" by (rule session_put_sessions(3) [OF "2.prems"(4) "2.prems"(1)])
  ultimately show ?case using ih by auto
next
  case (3 L st k ops)
  obtain st1 out where pop: "session_pop L k st = (st1, out)" by fastforce
  obtain outs1 where run: "session_run L st1 ops = (st', outs1)"
    and outs: "outs = (case out of Some s \<Rightarrow> [(k, s)] | None \<Rightarrow> []) @ outs1"
    using "3.prems"(3) pop by (auto split: prod.splits)
  note ok = session_pop_ok [OF "3.prems"(4) "3.prems"(1) pop]
  have ih: "session_cache_ok L own st' \<and> sc_capacity st' = sc_capacity st1 \<and>
      pops_of i outs1 + cached st' i \<le> puts_of i ops + cached st1 i \<and>
      (\<forall>(k, s)\<in>set outs1. s \<in> set (sessions_of L st1 k) \<or> Put k s \<in> set ops)"
    by (rule "3.IH" [OF pop [symmetric]]) (use ok(1) "3.prems" run in auto)
  have p: "puts_of i (Pop k # ops) = puts_of i ops" by (simp add: puts_of_def)
  have "pops_of i outs + cached st1 i \<le> pops_of i outs1 + cached st i"
    using ok(4) by (cases out) (auto simp: outs pops_of_def split: if_splits)
  with ih p have "pops_of i outs + cached st' i \<le> puts_of i (Pop k # ops) + cached st i" by linarith
  moreover have "s' \<in> set (sessions_of L st j) \<or> Put j s' \<in> set (Pop k # ops)" if "(j, s') \<in> set outs" for j s'
    using ih that ok(3) [of j] ok(4) by (cases out) (auto simp: outs)
  ultimately show ?case using ih ok(2) by auto
qed

lemma session_cache_new_empty [simp]:
  "cached (session_cache_new n) i = 0" "sessions_of L (session_cache_new n) k = []" "sc_capacity (session_cache_new n) = n"
  by (simp_all add: cached_def sessions_of_def session_cache_new_def)

text \<open>C29: After any history in which a session identifier is stored under one connection key only, the two maps of the
  cache agree and every list of sessions is bounded; a retrieval returns a session that was stored under
  its key, and a TLS 1.3 session is returned at most as often as it was stored.\<close>

theorem session_single_use:
  assumes "session_lru_ok L" "\<forall>k s. Put k s \<in> set ops \<longrightarrow> own (ss_id s) = k"
    "session_run L (session_cache_new n) ops = (st, outs)"
  shows "(\<forall>k s. s \<in> set (sessions_of L st k) \<longrightarrow> hm_get (sc_reverse st) (ss_id s) = Some k) \<and>
    (\<forall>i k. hm_get (sc_reverse st) i = Some k \<longrightarrow> i \<in> ss_id ` set (sessions_of L st k)) \<and>
    (\<forall>k. length (sessions_of L st k) \<le> max 1 n) \<and>
    (\<forall>(k, s)\<in>set outs. Put k s \<in> set ops) \<and>
    (\<forall>i. pops_of i outs \<le> puts_of i ops)"
proof -
  have "session_cache_ok L own (session_cache_new n)"
    by (simp add: session_cache_ok_def session_cache_new_def sessions_of_def)
  note ok = session_run_ok [OF assms(1) this assms(2,3)]
  have "pops_of i outs \<le> puts_of i ops" for i using ok [of i] by simp
  moreover have "session_cache_ok L own st" "sc_capacity st = n" "\<forall>(k, s)\<in>set outs. Put k s \<in> set ops"
    using ok [of "[]"] by simp_all
  ultimately show ?thesis unfolding session_cache_ok_def by auto
qed

definition sample_session_lru :: "(nat option \<times> tls_session list) session_lru" where
  "sample_session_lru =
     \<lparr>sl_new = (\<lambda>n. (n, [])), sl_capacity = fst, sl_items = snd,
      sl_put = (\<lambda>s c. (fst c, let xs = put_item s (snd c)
        in case fst c of Some n \<Rightarrow> if n < length xs then tl xs else xs | None \<Rightarrow> xs)),
      sl_pop_lru = (\<lambda>c. (fst c, tl (snd c))),
      sl_pop = (\<lambda>s c. (fst c, filter (\<lambda>t. ss_id t \<noteq> ss_id s) (snd c)))\<rparr>"

lemma sample_session_lru_ok: "session_lru_ok sample_session_lru"
proof -
  have "length (put_item s xs) \<le> Suc (length xs)" for s xs by (simp add: put_item_def)
  then have "length xs < n \<Longrightarrow> \<not> n < length (put_item s xs)" for s xs n by (metis Suc_leI le_trans not_le)
  then show ?thesis by (auto simp: session_lru_ok_def sample_session_lru_def Let_def split: option.split)
qed

definition sample_session :: "string \<Rightarrow> tls_session" where
  "sample_session i = \<lparr>ss_id = i, ss_protocol = TLS_1_3, ss_data = ''ticket''\<rparr>"

theorem session_single_use_witness:
  "case session_run sample_session_lru (session_cache_new 1)
      [Put 1 (sample_session ''a''), Put (1 :: nat) (sample_session ''b''), Pop 1, Pop 1] of
   (st, outs) \<Rightarrow> outs = [(1, sample_session ''b'')] \<and> pops_of ''b'' outs \<le> 1"
proof -
  obtain st outs where run: "session_run sample_session_lru (session_cache_new 1)
      [Put 1 (sample_session ''a''), Put (1 :: nat) (sample_session ''b''), Pop 1, Pop 1] = (st, outs)"
    by fastforce
  have "pops_of ''b'' outs \<le> puts_of ''b'' [Put 1 (sample_session ''a''), Put (1 :: nat) (sample_session ''b''), Pop 1, Pop 1]"
    using session_single_use [OF sample_session_lru_ok _ run, of "\<lambda>_. 1"] by auto
  moreover have "outs = [(1, sample_session ''b'')]"
    using run by (simp add: session_put_def session_pop_def session_cache_new_def sample_session_lru_def
        sample_session_def put_item_def Let_def)
  ultimately show ?thesis unfolding run by (simp add: puts_of_def sample_session_def)
qed

text \<open>A session identifier that two keys share is taken from the list of the last key only, so that the
  other key hands the session out again and again.\<close>

theorem shared_session_reused:
  "snd (session_run sample_session_lru (session_cache_new 8)
      [Put 1 (sample_session ''a''), Put (2 :: nat) (sample_session ''a''), Pop 1, Pop 1, Pop 1]) =
   [(1, sample_session ''a''), (1, sample_session ''a''), (1, sample_session ''a'')]"
  by (simp add: session_put_def session_pop_def session_cache_new_def sample_session_lru_def
      sample_session_def put_item_def Let_def)

end
