(* ===== verification/Tls_Conn.thy ===== *)
theory Tls_Conn
  imports Tls_Session Conn_Model
begin

text \<open>
  TLS connections (\<^verbatim>\<open>tls.rs\<close>, \<^verbatim>\<open>tls/conn.rs\<close>, \<^verbatim>\<open>tls/conn/ext.rs\<close>, \<^verbatim>\<open>tls/conn/service.rs\<close>): the options a caller sets, the context the
  connector builds from them, and the configuration of one handshake.  The TLS library is a parameter: a context
  or a configuration is recorded by the calls made on it, and \<open>fails\<close> says which call fails with which error.  Key
  shares, ciphers, compressors and extension types of the library are numbers, certificates are byte strings.
  Shown: the encoding of ALPN lists can be read back, and what a handshake verifies.
\<close>

section \<open>ALPN\<close>

definition alpn_http1 :: string where "alpn_http1 = ''http/1.1''"
definition alpn_http2 :: string where "alpn_http2 = ''h2''"
definition alpn_http3 :: string where "alpn_http3 = ''h3''"

text \<open>A length is written as one byte: \<^verbatim>\<open>as u8\<close> wraps.\<close>

definition encode_sequence :: "string list \<Rightarrow> string" where
  "encode_sequence items = concat (map (\<lambda>item. char_of (length item mod 256) # item) items)"

definition alpn_encode :: "string \<Rightarrow> string" where
  "alpn_encode p = encode_sequence [p]"

text \<open>Reading the list back, as a peer does.\<close>

fun decode_sequence :: "nat \<Rightarrow> string \<Rightarrow> string list option" where
  "decode_sequence fuel [] = Some []"
| "decode_sequence 0 (c # s) = None"
| "decode_sequence (Suc fuel) (c # s) =
     (let n = of_char c
      in if length s < n then None
         else map_option ((#) (take n s)) (decode_sequence fuel (drop n s)))"

lemma encode_sequence_decode:
  assumes "\<forall>p\<in>set ps. length p < 256" "length ps \<le> fuel"
  shows "decode_sequence fuel (encode_sequence ps) = Some ps"
  using assms
proof (induction ps arbitrary: fuel)
  case Nil
  then show ?case by (cases fuel) (simp_all add: encode_sequence_def)
next
  case (Cons p ps)
  then obtain fuel' where fuel: "fuel = Suc fuel'" by (cases fuel) auto
  have "of_char (char_of (length p mod 256) :: char) = length p" using Cons.prems(1) by (simp add: of_char_of)
  moreover have "encode_sequence (p # ps) = char_of (length p mod 256) # p @ encode_sequence ps"
    by (simp add: encode_sequence_def)
  moreover have "decode_sequence fuel' (encode_sequence ps) = Some ps" using Cons fuel by simp
  ultimately show ?case by (simp add: fuel Let_def)
qed

section \<open>Options\<close>

datatype ech_policy = EchDefault | EchAead nat | NssPre3127 | Nss3127

record tls_options =
  tls_alpn_protocols :: "string list option"
  tls_alps_protocols :: "string list option"
  tls_alps_use_new_codepoint :: bool
  tls_session_ticket :: bool
  tls_min_tls_version :: "tls_version option"
  tls_max_tls_version :: "tls_version option"
  tls_psk_dhe_ke :: bool
  tls_psk_skip_session_ticket :: bool
  tls_pre_shared_key :: bool
  tls_ech_grease :: "ech_policy option"
  tls_permute_extensions :: "bool option"
  tls_grease_enabled :: "bool option"
  tls_grease_sigalgs_enabled :: "bool option"
  tls_enable_ocsp_stapling :: bool
  tls_enable_signed_cert_timestamps :: bool
  tls_record_size_limit :: "16 word option"
  tls_key_shares :: "nat list option"
  tls_trust_anchors :: "string option"
  tls_server_padding :: "16 word option"
  tls_renegotiation :: bool
  tls_delegated_credentials :: "string option"
  tls_curves_list :: "string option"
  tls_sigalgs_list :: "string option"
  tls_cipher_list :: "string option"
  tls_tls13_cipher_list :: "nat list option"
  tls_certificate_compressors :: "nat list option"
  tls_extension_permutation :: "nat list option"

definition tls_options_default :: tls_options where
  "tls_options_default =
     \<lparr>tls_alpn_protocols = Some [alpn_http2, alpn_http1],
      tls_alps_protocols = None,
      tls_alps_use_new_codepoint = False,
      tls_session_ticket = True,
      tls_min_tls_version = None,
      tls_max_tls_version = None,
      tls_psk_dhe_ke = True,
      tls_psk_skip_session_ticket = False,
      tls_pre_shared_key = False,
      tls_ech_grease = None,
      tls_permute_extensions = None,
      tls_grease_enabled = None,
      tls_grease_sigalgs_enabled = None,
      tls_enable_ocsp_stapling = False,
      tls_enable_signed_cert_timestamps = False,
      tls_record_size_limit = None,
      tls_key_shares = None,
      tls_trust_anchors = None,
      tls_server_padding = None,
      tls_renegotiation = True,
      tls_delegated_credentials = None,
      tls_curves_list = None,
      tls_sigalgs_list = None,
      tls_cipher_list = None,
      tls_tls13_cipher_list = None,
      tls_certificate_compressors = None,
      tls_extension_permutation = None\<rparr>"

text \<open>The setters of \<^verbatim>\<open>TlsOptionsBuilder\<close>.\<close>

definition alpn_protocols :: "string list \<Rightarrow> tls_options \<Rightarrow> tls_options" where
  "alpn_protocols v opts = opts\<lparr>tls_alpn_protocols := Some v\<rparr>"

definition alps_protocols :: "string list \<Rightarrow> tls_options \<Rightarrow> tls_options" where
  "alps_protocols v opts = opts\<lparr>tls_alps_protocols := Some v\<rparr>"

definition alps_use_new_codepoint :: "bool \<Rightarrow> tls_options \<Rightarrow> tls_options" where
  "alps_use_new_codepoint v opts = opts\<lparr>tls_alps_use_new_codepoint := v\<rparr>"

definition session_ticket :: "bool \<Rightarrow> tls_options \<Rightarrow> tls_options" where
  "session_ticket v opts = opts\<lparr>tls_session_ticket := v\<rparr>"

definition min_tls_version :: "tls_version option \<Rightarrow> tls_options \<Rightarrow> tls_options" where
  "min_tls_version v opts = opts\<lparr>tls_min_tls_version := v\<rparr>"

definition max_tls_version :: "tls_version option \<Rightarrow> tls_options \<Rightarrow> tls_options" where
  "max_tls_version v opts = opts\<lparr>tls_max_tls_version := v\<rparr>"

definition psk_dhe_ke :: "bool \<Rightarrow> tls_options \<Rightarrow> tls_options" where
  "psk_dhe_ke v opts = opts\<lparr>tls_psk_dhe_ke := v\<rparr>"

definition psk_skip_session_ticket :: "bool \<Rightarrow> tls_options \<Rightarrow> tls_options" where
  "psk_skip_session_ticket v opts = opts\<lparr>tls_psk_skip_session_ticket := v\<rparr>"

definition pre_shared_key :: "bool \<Rightarrow> tls_options \<Rightarrow> tls_options" where
  "pre_shared_key v opts = opts\<lparr>tls_pre_shared_key := v\<rparr>"

definition ech_grease :: "ech_policy option \<Rightarrow> tls_options \<Rightarrow> tls_options" where
  "ech_grease v opts = opts\<lparr>tls_ech_grease := v\<rparr>"

definition permute_extensions :: "bool option \<Rightarrow> tls_options \<Rightarrow> tls_options" where
  "permute_extensions v opts = opts\<lparr>tls_permute_extensions := v\<rparr>"

definition grease_enabled :: "bool option \<Rightarrow> tls_options \<Rightarrow> tls_options" where
  "grease_enabled v opts = opts\<lparr>tls_grease_enabled := v\<rparr>"

definition grease_sigalgs_enabled :: "bool option \<Rightarrow> tls_options \<Rightarrow> tls_options" where
  "grease_sigalgs_enabled v opts = opts\<lparr>tls_grease_sigalgs_enabled := v\<rparr>"

definition enable_ocsp_stapling :: "bool \<Rightarrow> tls_options \<Rightarrow> tls_options" where
  "enable_ocsp_stapling v opts = opts\<lparr>tls_enable_ocsp_stapling := v\<rparr>"

definition enable_signed_cert_timestamps :: "bool \<Rightarrow> tls_options \<Rightarrow> tls_options" where
  "enable_signed_cert_timestamps v opts = opts\<lparr>tls_enable_signed_cert_timestamps := v\<rparr>"

definition record_size_limit :: "16 word option \<Rightarrow> tls_options \<Rightarrow> tls_options" where
  "record_size_limit v opts = opts\<lparr>tls_record_size_limit := v\<rparr>"

definition key_shares :: "nat list \<Rightarrow> tls_options \<Rightarrow> tls_options" where
  "key_shares v opts = opts\<lparr>tls_key_shares := Some v\<rparr>"

definition trust_anchors :: "string \<Rightarrow> tls_options \<Rightarrow> tls_options" where
  "trust_anchors v opts = opts\<lparr>tls_trust_anchors := Some v\<rparr>"

definition server_padding :: "16 word option \<Rightarrow> tls_options \<Rightarrow> tls_options" where
  "server_padding v opts = opts\<lparr>tls_server_padding := v\<rparr>"

definition renegotiation :: "bool \<Rightarrow> tls_options \<Rightarrow> tls_options" where
  "renegotiation v opts = opts\<lparr>tls_renegotiation := v\<rparr>"

definition delegated_credentials :: "string \<Rightarrow> tls_options \<Rightarrow> tls_options" where
  "delegated_credentials v opts = opts\<lparr>tls_delegated_credentials := Some v\<rparr>"

definition curves_list :: "string \<Rightarrow> tls_options \<Rightarrow> tls_options" where
  "curves_list v opts = opts\<lparr>tls_curves_list := Some v\<rparr>"

definition sigalgs_list :: "string \<Rightarrow> tls_options \<Rightarrow> tls_options" where
  "sigalgs_list v opts = opts\<lparr>tls_sigalgs_list := Some v\<rparr>"

definition cipher_list :: "string \<Rightarrow> tls_options \<Rightarrow> tls_options" where
  "cipher_list v opts = opts\<lparr>tls_cipher_list := Some v\<rparr>"

definition tls13_cipher_list :: "nat list \<Rightarrow> tls_options \<Rightarrow> tls_options" where
  "tls13_cipher_list v opts = opts\<lparr>tls_tls13_cipher_list := Some v\<rparr>"

definition certificate_compressors :: "nat list \<Rightarrow> tls_options \<Rightarrow> tls_options" where
  "certificate_compressors v opts = opts\<lparr>tls_certificate_compressors := Some v\<rparr>"

definition extension_permutation :: "nat list \<Rightarrow> tls_options \<Rightarrow> tls_options" where
  "extension_permutation v opts = opts\<lparr>tls_extension_permutation := Some v\<rparr>"

section \<open>The context of a connector\<close>

record tls_identity =
  idt_cert :: string
  idt_pkey :: string
  idt_chain :: "string list"

text \<open>\<open>tb_keylog\<close> is the outcome of opening the key log, if one is configured; a certificate store is a number.\<close>

record tls_builder =
  tb_alpn :: "string option"
  tb_max_version :: "tls_version option"
  tb_min_version :: "tls_version option"
  tb_sni :: bool
  tb_verify_hostname :: bool
  tb_identity :: "tls_identity option"
  tb_cert_store :: "nat option"
  tb_cert_verification :: bool
  tb_keylog :: "(error, nat) result option"
  tb_session_store :: "nat option"

definition tls_builder_new :: tls_builder where
  "tls_builder_new =
     \<lparr>tb_alpn = None, tb_max_version = None, tb_min_version = None, tb_sni = True, tb_verify_hostname = True,
      tb_identity = None, tb_cert_store = None, tb_cert_verification = True, tb_keylog = None,
      tb_session_store = None\<rparr>"

definition tls_builder_alpn_protocol :: "string option \<Rightarrow> tls_builder \<Rightarrow> tls_builder" where
  "tls_builder_alpn_protocol v b = b\<lparr>tb_alpn := v\<rparr>"

definition tls_builder_keylog :: "(error, nat) result option \<Rightarrow> tls_builder \<Rightarrow> tls_builder" where
  "tls_builder_keylog v b = b\<lparr>tb_keylog := v\<rparr>"

definition tls_builder_identity :: "tls_identity option \<Rightarrow> tls_builder \<Rightarrow> tls_builder" where
  "tls_builder_identity v b = b\<lparr>tb_identity := v\<rparr>"

definition tls_builder_cert_store :: "nat option \<Rightarrow> tls_builder \<Rightarrow> tls_builder" where
  "tls_builder_cert_store v b = b\<lparr>tb_cert_store := v\<rparr>"

definition tls_builder_cert_verification :: "bool \<Rightarrow> tls_builder \<Rightarrow> tls_builder" where
  "tls_builder_cert_verification v b = b\<lparr>tb_cert_verification := v\<rparr>"

definition tls_builder_min_version :: "tls_version option \<Rightarrow> tls_builder \<Rightarrow> tls_builder" where
  "tls_builder_min_version v b = b\<lparr>tb_min_version := v\<rparr>"

definition tls_builder_max_version :: "tls_version option \<Rightarrow> tls_builder \<Rightarrow> tls_builder" where
  "tls_builder_max_version v b = b\<lparr>tb_max_version := v\<rparr>"

definition tls_builder_tls_sni :: "bool \<Rightarrow> tls_builder \<Rightarrow> tls_builder" where
  "tls_builder_tls_sni v b = b\<lparr>tb_sni := v\<rparr>"

definition tls_builder_verify_hostname :: "bool \<Rightarrow> tls_builder \<Rightarrow> tls_builder" where
  "tls_builder_verify_hostname v b = b\<lparr>tb_verify_hostname := v\<rparr>"

definition tls_builder_session_store :: "nat option \<Rightarrow> tls_builder \<Rightarrow> tls_builder" where
  "tls_builder_session_store v b = (if v = None then b else b\<lparr>tb_session_store := v\<rparr>)"

datatype ssl_call =
    BareBuilder | SetCertificate string | SetPrivateKey string | AddChainCert string
  | SetCertStore nat | DefaultVerifyPaths | SetVerify bool | RegisterCompressor nat
  | RequestedTrustAnchors string | MinProto "tls_version option" | MaxProto "tls_version option"
  | OcspStapling | SignedCertTimestamps | OptNoTicket | OptNoPskDheKe | OptNoRenegotiation
  | GreaseEnabled bool | GreaseSigalgs bool | PermuteExtensions bool | CurvesList string
  | SigalgsList string | CipherList string | Tls13Ciphers "nat list" | DelegatedCredentials string
  | RecordSizeLimit "16 word" | ExtensionPermutation "nat list" | EchGreaseCallback ech_policy
  | KeylogCallback nat | SessionCallback

text \<open>Each call with whether its failure is returned.\<close>

definition opt_call :: "'a option \<Rightarrow> ('a \<Rightarrow> ssl_call) \<Rightarrow> bool \<Rightarrow> (ssl_call \<times> bool) list" where
  "opt_call v f fallible = (case v of Some x \<Rightarrow> [(f x, fallible)] | None \<Rightarrow> [])"

definition set_identity :: "tls_identity option \<Rightarrow> (ssl_call \<times> bool) list" where
  "set_identity identity =
     (case identity of
        Some i \<Rightarrow>
          [(SetCertificate (idt_cert i), True), (SetPrivateKey (idt_pkey i), True)] @
          map (\<lambda>c. (AddChainCert c, True)) (idt_chain i)
      | None \<Rightarrow> [])"

text \<open>\<open>bundled\<close> is the store of the compiled-in root certificates, if there is one.\<close>

definition set_cert_store :: "nat option \<Rightarrow> nat option \<Rightarrow> (ssl_call \<times> bool) list" where
  "set_cert_store bundled store =
     (case (store, bundled) of
        (Some s, _) \<Rightarrow> [(SetCertStore s, False)]
      | (None, Some s) \<Rightarrow> [(SetCertStore s, False)]
      | (None, None) \<Rightarrow> [(DefaultVerifyPaths, True)])"

definition set_cert_verification :: "bool \<Rightarrow> (ssl_call \<times> bool) list" where
  "set_cert_verification enable = [(SetVerify enable, False)]"

definition set_cert_compressors :: "nat list option \<Rightarrow> (ssl_call \<times> bool) list" where
  "set_cert_compressors cs =
     (case cs of Some xs \<Rightarrow> map (\<lambda>c. (RegisterCompressor c, True)) xs | None \<Rightarrow> [])"

definition or_option :: "'a option \<Rightarrow> 'a option \<Rightarrow> 'a option" where
  "or_option a b = (case a of Some x \<Rightarrow> Some x | None \<Rightarrow> b)"

text \<open>The calls \<^verbatim>\<open>TlsConnectorBuilder::build\<close> makes, up to the key log.\<close>

definition build_calls :: "nat option \<Rightarrow> tls_builder \<Rightarrow> tls_options \<Rightarrow> (ssl_call \<times> bool) list" where
  "build_calls bundled b opts =
     [(BareBuilder, True)] @
     set_identity (tb_identity b) @
     set_cert_store bundled (tb_cert_store b) @
     set_cert_verification (tb_cert_verification b) @
     set_cert_compressors (tls_certificate_compressors opts) @
     opt_call (tls_trust_anchors opts) RequestedTrustAnchors True @
     [(MinProto (or_option (tls_min_tls_version opts) (tb_min_version b)), True),
      (MaxProto (or_option (tls_max_tls_version opts) (tb_max_version b)), True)] @
     (if tls_enable_ocsp_stapling opts then [(OcspStapling, False)] else []) @
     (if tls_enable_signed_cert_timestamps opts then [(SignedCertTimestamps, False)] else []) @
     (if \<not> tls_session_ticket opts then [(OptNoTicket, False)] else []) @
     (if \<not> tls_psk_dhe_ke opts then [(OptNoPskDheKe, False)] else []) @
     (if \<not> tls_renegotiation opts then [(OptNoRenegotiation, False)] else []) @
     opt_call (tls_grease_enabled opts) GreaseEnabled False @
     opt_call (tls_grease_sigalgs_enabled opts) GreaseSigalgs False @
     opt_call (tls_permute_extensions opts) PermuteExtensions False @
     opt_call (tls_curves_list opts) CurvesList True @
     opt_call (tls_sigalgs_list opts) SigalgsList True @
     opt_call (tls_cipher_list opts) CipherList True @
     opt_call (tls_tls13_cipher_list opts) Tls13Ciphers True @
     opt_call (tls_delegated_credentials opts) DelegatedCredentials True @
     opt_call (tls_record_size_limit opts) RecordSizeLimit False @
     opt_call (tls_extension_permutation opts) ExtensionPermutation True @
     (case tls_ech_grease opts of
        Some p \<Rightarrow> if p \<noteq> EchDefault then [(EchGreaseCallback p, False)] else []
      | None \<Rightarrow> [])"

definition first_failure :: "(ssl_call \<Rightarrow> error option) \<Rightarrow> (ssl_call \<times> bool) list \<Rightarrow> error option" where
  "first_failure fails calls =
     (case find (\<lambda>(c, fallible). fallible \<and> fails c \<noteq> None) calls of
        Some (c, _) \<Rightarrow> fails c
      | None \<Rightarrow> None)"

record handshake_settings =
  hs_no_ticket :: bool
  hs_ech_grease :: "ech_policy option"
  hs_verify_hostname :: bool
  hs_tls_sni :: bool
  hs_alpn :: "string list option"
  hs_alps :: "string list option"
  hs_alps_new_codepoint :: bool
  hs_key_shares :: "nat list option"
  hs_server_padding :: "16 word option"

record tls_connector =
  tlc_context :: "ssl_call list"
  tlc_cache :: bool
  tlc_settings :: handshake_settings

definition tls_build ::
  "(ssl_call \<Rightarrow> error option) \<Rightarrow> nat option \<Rightarrow> tls_builder \<Rightarrow> tls_options \<Rightarrow> (error, tls_connector) result"
where
  "tls_build fails bundled b opts =
     (let calls = build_calls bundled b opts
      in case first_failure fails calls of
           Some e \<Rightarrow> Inl (err_tls e)
         | None \<Rightarrow>
             (case tb_keylog b of
                Some (Inl e) \<Rightarrow> Inl (err_tls e)
              | keylog \<Rightarrow>
                  Inr \<lparr>tlc_context = map fst calls @
                         (case keylog of Some (Inr h) \<Rightarrow> [KeylogCallback h] | _ \<Rightarrow> []) @
                         (if tls_pre_shared_key opts then [SessionCallback] else []),
                       tlc_cache = tls_pre_shared_key opts,
                       tlc_settings =
                         \<lparr>hs_no_ticket = tls_psk_skip_session_ticket opts, hs_ech_grease = tls_ech_grease opts,
                          hs_verify_hostname = tb_verify_hostname b, hs_tls_sni = tb_sni b,
                          hs_alpn = (case tb_alpn b of Some p \<Rightarrow> Some [p] | None \<Rightarrow> tls_alpn_protocols opts),
                          hs_alps = tls_alps_protocols opts,
                          hs_alps_new_codepoint = tls_alps_use_new_codepoint opts,
                          hs_key_shares = tls_key_shares opts, hs_server_padding = tls_server_padding opts\<rparr>\<rparr>))"

section \<open>The configuration of a handshake\<close>

record 'k ssl_conf =
  ssl_context :: "ssl_call list"
  ssl_sni :: bool
  ssl_verify_hostname :: bool
  ssl_alpn :: "string option"
  ssl_alps :: "string list"
  ssl_alps_new_codepoint :: "bool option"
  ssl_key_shares :: "nat list option"
  ssl_ech_host_length :: "nat option"
  ssl_session :: "tls_session option"
  ssl_no_ticket :: bool
  ssl_key :: "'k option"
  ssl_host :: string
  ssl_padding :: "16 word option"

datatype conf_call =
    Configure | AlpnProtos string | ApplicationSettings string | ClientKeyShares "nat list"
  | UseSession tls_session | IntoSsl string

definition conf_failure :: "(conf_call \<Rightarrow> error option) \<Rightarrow> conf_call list \<Rightarrow> error option" where
  "conf_failure fails calls = Option.bind (find (\<lambda>c. fails c \<noteq> None) calls) fails"

definition normalize_host :: "string \<Rightarrow> string" where
  "normalize_host host =
     (let normalized = strip_ipv6_brackets host
      in if length normalized \<noteq> length host \<and> (case read_ipv6 normalized of Some (_, []) \<Rightarrow> True | _ \<Rightarrow> False)
         then normalized else host)"

text \<open>A configuration starts with server name indication and host name verification on.\<close>

definition setup_ssl :: "(conf_call \<Rightarrow> error option) \<Rightarrow> tls_connector \<Rightarrow> uri \<Rightarrow> (error, 'k ssl_conf) result" where
  "setup_ssl fails tls uri =
     (case conf_failure fails [Configure] of
        Some e \<Rightarrow> Inl e
      | None \<Rightarrow>
          (case uri_host uri of
             None \<Rightarrow> Inl (Other ''URI missing host'' None)
           | Some host0 \<Rightarrow>
               (let host = normalize_host host0
                in case conf_failure fails [IntoSsl host] of
                     Some e \<Rightarrow> Inl e
                   | None \<Rightarrow>
                       Inr \<lparr>ssl_context = tlc_context tls, ssl_sni = True, ssl_verify_hostname = True, ssl_alpn = None,
                            ssl_alps = [], ssl_alps_new_codepoint = None, ssl_key_shares = None,
                            ssl_ech_host_length = None, ssl_session = None, ssl_no_ticket = False, ssl_key = None,
                            ssl_host = host, ssl_padding = None\<rparr>)))"

definition alpn_of :: "handshake_settings \<Rightarrow> version option \<Rightarrow> string option" where
  "alpn_of hs version =
     (case version of
        Some HTTP_2 \<Rightarrow> Some (alpn_encode alpn_http2)
      | Some HTTP_3 \<Rightarrow> Some (alpn_encode alpn_http3)
      | Some _ \<Rightarrow> Some (alpn_encode alpn_http1)
      | None \<Rightarrow> map_option encode_sequence (hs_alpn hs))"

text \<open>\<open>pop\<close> is the answer of the session cache to a retrieval.\<close>

definition ssl2_calls :: "handshake_settings \<Rightarrow> version option \<Rightarrow> conf_call list" where
  "ssl2_calls hs version =
     [Configure] @ (case alpn_of hs version of Some p \<Rightarrow> [AlpnProtos p] | None \<Rightarrow> []) @
     (case hs_alps hs of Some alps \<Rightarrow> map ApplicationSettings alps | None \<Rightarrow> []) @
     (case hs_key_shares hs of Some ks \<Rightarrow> [ClientKeyShares ks] | None \<Rightarrow> [])"

definition ssl2_conf :: "tls_connector \<Rightarrow> version option \<Rightarrow> 'k \<Rightarrow> string \<Rightarrow> tls_session option \<Rightarrow> 'k ssl_conf" where
  "ssl2_conf tls version key host session =
     (let hs = tlc_settings tls; alps = (case hs_alps hs of Some xs \<Rightarrow> xs | None \<Rightarrow> [])
      in \<lparr>ssl_context = tlc_context tls, ssl_sni = hs_tls_sni hs, ssl_verify_hostname = hs_verify_hostname hs,
          ssl_alpn = alpn_of hs version, ssl_alps = alps,
          ssl_alps_new_codepoint = (if alps = [] then None else Some (hs_alps_new_codepoint hs)),
          ssl_key_shares = hs_key_shares hs,
          ssl_ech_host_length = (if hs_ech_grease hs = None then None else Some (length host)),
          ssl_session = session, ssl_no_ticket = (session \<noteq> None \<and> hs_no_ticket hs),
          ssl_key = (if tlc_cache tls then Some key else None),
          ssl_host = host, ssl_padding = hs_server_padding hs\<rparr>)"

definition setup_ssl2 ::
  "(conf_call \<Rightarrow> error option) \<Rightarrow> (('u, 'm) group \<Rightarrow> tls_session option) \<Rightarrow> tls_connector \<Rightarrow>
   ('u, 'm, 'n, 't) descriptor \<Rightarrow> (error, ('u, 'm) group ssl_conf) result"
where
  "setup_ssl2 fails pop tls d =
     (case conf_failure fails (ssl2_calls (tlc_settings tls) (cd_version d)) of
        Some e \<Rightarrow> Inl e
      | None \<Rightarrow>
          (case uri_host (cd_uri d) of
             None \<Rightarrow> Inl (Other ''URI missing host'' None)
           | Some host0 \<Rightarrow>
               (let host = normalize_host host0;
                    session = (if tlc_cache tls then pop (cd_id d) else None)
                in case conf_failure fails
                          ((case session of Some s \<Rightarrow> [UseSession s] | None \<Rightarrow> []) @ [IntoSsl host]) of
                     Some e \<Rightarrow> Inl e
                   | None \<Rightarrow> Inr (ssl2_conf tls (cd_version d) (cd_id d) host session))))"

section \<open>What is verified\<close>

lemma setup_ssl_ok:
  assumes "setup_ssl fails tls u = Inr ssl"
  shows "\<exists>host. uri_host u = Some host \<and> ssl_host ssl = normalize_host host"
    "ssl_verify_hostname ssl" "ssl_sni ssl" "ssl_context ssl = tlc_context tls" "ssl_alpn ssl = None"
  using assms by (auto simp: setup_ssl_def Let_def split: option.splits)

lemma setup_ssl2_ok:
  assumes "setup_ssl2 fails pop tls d = Inr ssl"
  obtains host where "uri_host (cd_uri d) = Some host"
    "ssl = ssl2_conf tls (cd_version d) (cd_id d) (normalize_host host) (if tlc_cache tls then pop (cd_id d) else None)"
proof (cases "uri_host (cd_uri d)")
  case None
  with assms show thesis by (simp add: setup_ssl2_def split: option.splits)
next
  case (Some host)
  with assms that show thesis
    by (cases "conf_failure fails (ssl2_calls (tlc_settings tls) (cd_version d))")
      (simp_all add: setup_ssl2_def Let_def del: not_None_eq split: option.split_asm)
qed

text \<open>The verification mode of a context is the one of the builder, whatever options a caller gives.\<close>

definition verify_mode :: "ssl_call list \<Rightarrow> bool list" where
  "verify_mode calls = concat (map (\<lambda>c. case c of SetVerify b \<Rightarrow> [b] | _ \<Rightarrow> []) calls)"

lemma verify_mode_simps [simp]:
  "verify_mode [] = []" "verify_mode (c # cs) = (case c of SetVerify b \<Rightarrow> [b] | _ \<Rightarrow> []) @ verify_mode cs"
  "verify_mode (a @ b) = verify_mode a @ verify_mode b"
  by (simp_all add: verify_mode_def)

lemma verify_mode_map: "(\<And>y. verify_mode [fst (f y)] = []) \<Longrightarrow> verify_mode (map (fst \<circ> f) xs) = []"
  by (induction xs) auto

lemma verify_mode_opt: "(\<And>y. verify_mode [f y] = []) \<Longrightarrow> verify_mode (map fst (opt_call v f x)) = []"
  by (cases v) (simp_all add: opt_call_def)

lemma verify_mode_if: "verify_mode [c] = [] \<Longrightarrow> verify_mode (map fst (if P then [(c, x)] else [])) = []"
  by simp

lemma verify_mode_parts:
  "verify_mode (map fst (set_identity i)) = []" "verify_mode (map fst (set_cert_store bundled s)) = []"
  "verify_mode (map fst (set_cert_verification v)) = [v]" "verify_mode (map fst (set_cert_compressors cs)) = []"
  "verify_mode (map fst (case e of Some p \<Rightarrow> if p \<noteq> EchDefault then [(EchGreaseCallback p, False)] else [] | None \<Rightarrow> [])) = []"
  by (auto simp: set_identity_def set_cert_store_def set_cert_verification_def set_cert_compressors_def
      intro!: verify_mode_map split: option.split)

lemma build_calls_verify: "verify_mode (map fst (build_calls bundled b opts)) = [tb_cert_verification b]"
  unfolding build_calls_def map_append verify_mode_simps(3) verify_mode_parts
  by (simp add: verify_mode_opt verify_mode_if del: if_split)

lemma tls_build_ok:
  assumes "tls_build fails bundled b opts = Inr tls"
  shows "verify_mode (tlc_context tls) = [tb_cert_verification b]"
    "hs_verify_hostname (tlc_settings tls) = tb_verify_hostname b" "hs_tls_sni (tlc_settings tls) = tb_sni b"
    "tlc_cache tls = tls_pre_shared_key opts"
  using assms build_calls_verify [of bundled b opts]
  by (auto simp: tls_build_def Let_def split: option.splits sum.splits)

end
