(* ===== verification/Transport.thy ===== *)
theory Transport
  imports Http_Client Tcp_Connect Tls_Conn
begin

text \<open>
  Establishing the transport of a connection (\<^verbatim>\<open>conn/connector.rs\<close>, \<^verbatim>\<open>conn/proxy/tunnel.rs\<close>, \<^verbatim>\<open>conn/proxy/socks.rs\<close>,
  \<^verbatim>\<open>conn/timeout.rs\<close>, \<^verbatim>\<open>tls/conn/service.rs\<close>): directly, through an HTTP proxy, a CONNECT tunnel, a SOCKS proxy or a Unix
  socket, with TLS where the scheme asks for it.

  A stream is the value that says how it was made: the socket and the layers on it.  What the network, the TLS
  library, the parser of HTTP responses and the SOCKS client answer is the parameter \<open>transport_env\<close>.  \<open>None\<close> is
  an operation that has not finished.  Shown: what lies between the client and the origin on every path, that a
  connection for \<^verbatim>\<open>https\<close> is TLS to its host with the configured verification, and what a proxy is sent.
\<close>

section \<open>Pending results\<close>

type_synonym 'a awaited = "(error, 'a) result option"

definition and_then :: "'a awaited \<Rightarrow> ('a \<Rightarrow> 'b awaited) \<Rightarrow> 'b awaited" where
  "and_then m f = (case m of None \<Rightarrow> None | Some (Inl e) \<Rightarrow> Some (Inl e) | Some (Inr x) \<Rightarrow> f x)"

definition map_err :: "(error \<Rightarrow> error) \<Rightarrow> 'a awaited \<Rightarrow> 'a awaited" where
  "map_err f m = map_option (map_sum f id) m"

lemma and_then_ok [simp]: "and_then m f = Some (Inr y) \<longleftrightarrow> (\<exists>x. m = Some (Inr x) \<and> f x = Some (Inr y))"
  by (auto simp: and_then_def split: option.split sum.split)

lemma map_err_ok [simp]: "map_err f m = Some (Inr y) \<longleftrightarrow> m = Some (Inr y)"
proof (cases m)
  case (Some r)
  then show ?thesis by (cases r) (auto simp: map_err_def)
qed (simp add: map_err_def)

definition immediately :: "(error, 'a) result \<Rightarrow> 'a awaited" where
  "immediately r = Some r"

lemma immediately_ok [simp]: "immediately r = Some (Inr y) \<longleftrightarrow> r = Inr y"
  by (simp add: immediately_def)

section \<open>Streams\<close>

datatype socks_version = SocksV4 | SocksV5

datatype dns_resolve = LocalDns | RemoteDns

datatype target_addr = TargetIp socket_addr | TargetDomain string "16 word"

record socks_request =
  sr_version :: socks_version
  sr_target :: target_addr
  sr_auth :: "(string \<times> string) option"

datatype ('c, 'k) io =
    TcpIo tcp_options uri 'c
  | UnixIo string
  | TlsIo "'k ssl_conf" "('c, 'k) io"
  | Tunneled string "('c, 'k) io"
  | Socksed socks_request "('c, 'k) io"

text \<open>\<^verbatim>\<open>MaybeHttpsStream\<close>.\<close>

datatype ('c, 'k) maybe_https = HttpStream "('c, 'k) io" | HttpsStream "'k ssl_conf" "('c, 'k) io"

fun stream_io :: "('c, 'k) maybe_https \<Rightarrow> ('c, 'k) io" where
  "stream_io (HttpStream s) = s"
| "stream_io (HttpsStream ssl s) = TlsIo ssl s"

text \<open>\<^verbatim>\<open>AsRef\<close>: the stream below TLS.\<close>

fun stream_as_ref :: "('c, 'k) maybe_https \<Rightarrow> ('c, 'k) io" where
  "stream_as_ref (HttpStream s) = s"
| "stream_as_ref (HttpsStream ssl s) = s"

datatype response_parse = ParseFailed error | ParsePartial | ParseComplete "nat option"

record ('c, 'u, 'm) transport_env =
  nv_dial :: "tcp_options \<Rightarrow> uri \<Rightarrow> 'c awaited"
  nv_unix :: "string \<Rightarrow> unit awaited"
  nv_context :: "ssl_call \<Rightarrow> error option"
  nv_bundled :: "nat option"
  nv_conf :: "conf_call \<Rightarrow> error option"
  nv_session :: "('u, 'm) group \<Rightarrow> tls_session option"
  nv_handshake :: "('u, 'm) group ssl_conf \<Rightarrow> ('c, ('u, 'm) group) io \<Rightarrow> unit awaited"
  nv_write :: "('c, ('u, 'm) group) io \<Rightarrow> string \<Rightarrow> unit awaited"
  nv_read :: "('c, ('u, 'm) group) io \<Rightarrow> (error, string) result list"
  nv_parse :: "string \<Rightarrow> response_parse"
  nv_resolver :: resolver
  nv_socks :: "socks_request \<Rightarrow> ('c, ('u, 'm) group) io \<Rightarrow> unit awaited"
  nv_set_nodelay :: "('c, ('u, 'm) group) io \<Rightarrow> error option"

section \<open>The connector for both schemes\<close>

datatype dialer = DialTcp tcp_options | DialUnix string

record https_connector =
  htc_http :: dialer
  htc_tls :: tls_connector

definition no_alpn :: "https_connector \<Rightarrow> https_connector" where
  "no_alpn c = c\<lparr>htc_tls := (htc_tls c)\<lparr>tlc_settings := (tlc_settings (htc_tls c))\<lparr>hs_alpn := None\<rparr>\<rparr>\<rparr>"

definition dial :: "('c, 'u, 'm) transport_env \<Rightarrow> dialer \<Rightarrow> uri \<Rightarrow> ('c, ('u, 'm) group) io awaited" where
  "dial env d u =
     (case d of
        DialTcp opts \<Rightarrow> and_then (nv_dial env opts u) (\<lambda>c. Some (Inr (TcpIo opts u c)))
      | DialUnix path \<Rightarrow> and_then (nv_unix env path) (\<lambda>_. Some (Inr (UnixIo path))))"

definition perform_handshake ::
  "('c, 'u, 'm) transport_env \<Rightarrow> ('u, 'm) group ssl_conf \<Rightarrow> ('c, ('u, 'm) group) io \<Rightarrow>
   ('c, ('u, 'm) group) maybe_https awaited"
where
  "perform_handshake env ssl conn = and_then (nv_handshake env ssl conn) (\<lambda>_. Some (Inr (HttpsStream ssl conn)))"

definition https_call_uri ::
  "('c, 'u, 'm) transport_env \<Rightarrow> https_connector \<Rightarrow> uri \<Rightarrow> ('c, ('u, 'm) group) maybe_https awaited"
where
  "https_call_uri env c u =
     and_then (dial env (htc_http c) u) (\<lambda>conn.
       if uri_scheme u \<noteq> Some ''https'' then Some (Inr (HttpStream conn))
       else and_then (immediately (setup_ssl (nv_conf env) (htc_tls c) u)) (\<lambda>ssl. perform_handshake env ssl conn))"

definition https_call_established ::
  "('c, 'u, 'm) transport_env \<Rightarrow> https_connector \<Rightarrow> ('c, ('u, 'm) group) io \<Rightarrow> ('u, 'm, 'n, 't) descriptor \<Rightarrow>
   ('c, ('u, 'm) group) maybe_https awaited"
where
  "https_call_established env c conn d =
     (if is_http (cd_uri d) then Some (Inr (HttpStream conn))
      else and_then (immediately (setup_ssl2 (nv_conf env) (nv_session env) (htc_tls c) d))
             (\<lambda>ssl. perform_handshake env ssl conn))"

definition https_call_descriptor ::
  "('c, 'u, 'm) transport_env \<Rightarrow> https_connector \<Rightarrow> ('u, 'm, 'n, 't) descriptor \<Rightarrow>
   ('c, ('u, 'm) group) maybe_https awaited"
where
  "https_call_descriptor env c d =
     and_then (dial env (htc_http c) (cd_uri d)) (\<lambda>conn. https_call_established env c conn d)"

section \<open>CONNECT tunnels\<close>

datatype tunnel_headers = TunnelEmpty | TunnelAuth header_value | TunnelExtra header_map

definition tunnel_with_auth :: "header_value \<Rightarrow> tunnel_headers \<Rightarrow> tunnel_headers" where
  "tunnel_with_auth auth0 hs =
     (let auth = auth0\<lparr>hv_sensitive := True\<rparr>
      in case hs of
           TunnelEmpty \<Rightarrow> TunnelAuth auth
         | TunnelAuth _ \<Rightarrow> TunnelAuth auth
         | TunnelExtra extra \<Rightarrow> TunnelExtra (hdr_insert ''proxy-authorization'' auth extra))"

text \<open>\<^verbatim>\<open>HeaderMap::extend\<close> replaces the values of every name it brings.\<close>

definition tunnel_with_headers :: "header_map \<Rightarrow> tunnel_headers \<Rightarrow> tunnel_headers" where
  "tunnel_with_headers headers hs =
     (case hs of
        TunnelEmpty \<Rightarrow> TunnelExtra headers
      | TunnelAuth auth \<Rightarrow>
          TunnelExtra (if hdr_contains headers ''proxy-authorization'' then headers
                       else hdr_insert ''proxy-authorization'' auth headers)
      | TunnelExtra extra \<Rightarrow> TunnelExtra (fold (\<lambda>(n, vs). hm_insert n vs) headers extra))"

definition header_line :: "string \<Rightarrow> string \<Rightarrow> string" where
  "header_line name value = name @ '': '' @ value @ crlf"

definition tunnel_text :: "string \<Rightarrow> 16 word \<Rightarrow> tunnel_headers \<Rightarrow> string" where
  "tunnel_text host port hs =
     (let dst = host @ '':'' @ nat_decimal (unat port)
      in ''CONNECT '' @ dst @ '' HTTP/1.1'' @ crlf @ header_line ''Host'' dst @
         (case hs of
            TunnelAuth auth \<Rightarrow> header_line ''Proxy-Authorization'' (hv_bytes auth)
          | TunnelExtra extra \<Rightarrow> concat (map (\<lambda>(n, v). header_line n (hv_bytes v)) (hdr_iter extra))
          | TunnelEmpty \<Rightarrow> []) @
         crlf)"

text \<open>The loop that reads the answer.  A chunk is what one read returns; an empty one is the end of the stream.\<close>

fun tunnel_read :: "(string \<Rightarrow> response_parse) \<Rightarrow> string \<Rightarrow> (error, string) result list \<Rightarrow> unit awaited" where
  "tunnel_read parse buf [] = None"
| "tunnel_read parse buf (Inl e # chunks) = Some (Inl (TunnelIo e))"
| "tunnel_read parse buf (Inr chunk # chunks) =
     (if chunk = [] then Some (Inl TunnelUnexpectedEof)
      else (case parse (buf @ chunk) of
              ParseFailed e \<Rightarrow> Some (Inl (TunnelParse e))
            | ParsePartial \<Rightarrow> tunnel_read parse (buf @ chunk) chunks
            | ParseComplete code \<Rightarrow>
                if code = Some 200 then Some (Inr ())
                else if code = Some 407 then Some (Inl TunnelProxyAuthRequired)
                else Some (Inl TunnelUnsuccessful)))"

definition tunnel ::
  "('c, 'u, 'm) transport_env \<Rightarrow> ('c, ('u, 'm) group) io \<Rightarrow> string \<Rightarrow> 16 word \<Rightarrow> tunnel_headers \<Rightarrow>
   ('c, ('u, 'm) group) io awaited"
where
  "tunnel env conn host port hs =
     and_then (map_err TunnelIo (nv_write env conn (tunnel_text host port hs))) (\<lambda>_.
     and_then (tunnel_read (nv_parse env) [] (nv_read env conn)) (\<lambda>_.
     Some (Inr (Tunneled (tunnel_text host port hs) conn))))"

definition tunnel_call ::
  "('c, 'u, 'm) transport_env \<Rightarrow> https_connector \<Rightarrow> uri \<Rightarrow> tunnel_headers \<Rightarrow> uri \<Rightarrow> ('c, ('u, 'm) group) io awaited"
where
  "tunnel_call env c proxy_dst hs dst =
     and_then (map_err TunnelConnectFailed (https_call_uri env c proxy_dst)) (\<lambda>conn.
       case uri_host dst of
         None \<Rightarrow> Some (Inl TunnelMissingHost)
       | Some host \<Rightarrow> tunnel env (stream_io conn) host (port_or_default dst) hs)"

section \<open>SOCKS\<close>

definition socks_target :: "resolver \<Rightarrow> dns_resolve \<Rightarrow> string \<Rightarrow> 16 word \<Rightarrow> (error, target_addr) result" where
  "socks_target resolver mode host port =
     (case mode of
        LocalDns \<Rightarrow>
          (case resolver host of
             Inl e \<Rightarrow> Inl (SocksDnsResolveFailure e)
           | Inr [] \<Rightarrow> Inl SocksDnsFailure
           | Inr (a # _) \<Rightarrow> Inr (TargetIp (sock_set_port a port)))
      | RemoteDns \<Rightarrow> Inr (TargetDomain host port))"

definition socks_call ::
  "('c, 'u, 'm) transport_env \<Rightarrow> tcp_options \<Rightarrow> uri \<Rightarrow> (string \<times> string) option \<Rightarrow> socks_version \<Rightarrow> dns_resolve \<Rightarrow>
   uri \<Rightarrow> ('c, ('u, 'm) group) io awaited"
where
  "socks_call env http proxy_dst auth version mode dst =
     (case uri_host dst of
        None \<Rightarrow> Some (Inl SocksMissingHost)
      | Some host0 \<Rightarrow>
          (let host = strip_ipv6_brackets host0; port = port_or_default dst
           in and_then (map_err SocksConnectFailed (dial env (DialTcp http) proxy_dst)) (\<lambda>socket.
              and_then (immediately (socks_target (nv_resolver env) mode host port)) (\<lambda>target.
                let auth1 = (case version of SocksV4 \<Rightarrow> None | SocksV5 \<Rightarrow> auth)
                in if (case auth1 of Some (u, p) \<Rightarrow> \<not> (utf8_valid u \<and> utf8_valid p) | None \<Rightarrow> False)
                   then Some (Inl SocksUtf8)
                   else
                     (let req = \<lparr>sr_version = version, sr_target = target, sr_auth = auth1\<rparr>
                      in and_then (map_err SocksSocks (nv_socks env req socket))
                           (\<lambda>_. Some (Inr (Socksed req socket))))))))"

definition socks_mode :: "uri \<Rightarrow> (socks_version \<times> dns_resolve) option" where
  "socks_mode u =
     (if uri_scheme u = Some ''socks4'' then Some (SocksV4, LocalDns)
      else if uri_scheme u = Some ''socks4a'' then Some (SocksV4, RemoteDns)
      else if uri_scheme u = Some ''socks5'' then Some (SocksV5, LocalDns)
      else if uri_scheme u = Some ''socks5h'' then Some (SocksV5, RemoteDns)
      else None)"

section \<open>The transport connector\<close>

record 'n transport =
  tp_proxies :: "'n matcher list"
  tp_nodelay :: bool
  tp_tls_info :: bool
  tp_tls :: tls_connector
  tp_http :: tcp_options
  tp_builder :: tls_builder

text \<open>\<^verbatim>\<open>ConnectorBuilder\<close>: \<open>cb_http\<close> and \<open>cb_tls\<close> are what its closures change.\<close>

record 'n connector_builder =
  cb_proxies :: "'n matcher list"
  cb_nodelay :: bool
  cb_tls_info :: bool
  cb_timeout :: "nat option"
  cb_http :: tcp_options
  cb_tls :: tls_builder

definition connector_builder_new :: "'n matcher list \<Rightarrow> 'n connector_builder" where
  "connector_builder_new proxies =
     \<lparr>cb_proxies = proxies, cb_nodelay = True, cb_tls_info = False, cb_timeout = None,
      cb_http = tcp_options_default, cb_tls = tls_builder_new\<rparr>"

definition with_http :: "(tcp_options \<Rightarrow> tcp_options) \<Rightarrow> 'n connector_builder \<Rightarrow> 'n connector_builder" where
  "with_http f b = b\<lparr>cb_http := f (cb_http b)\<rparr>"

definition with_tls :: "(tls_builder \<Rightarrow> tls_builder) \<Rightarrow> 'n connector_builder \<Rightarrow> 'n connector_builder" where
  "with_tls f b = b\<lparr>cb_tls := f (cb_tls b)\<rparr>"

definition connector_timeout :: "nat option \<Rightarrow> 'n connector_builder \<Rightarrow> 'n connector_builder" where
  "connector_timeout t b = b\<lparr>cb_timeout := t\<rparr>"

definition connector_tls_info :: "bool \<Rightarrow> 'n connector_builder \<Rightarrow> 'n connector_builder" where
  "connector_tls_info v b = b\<lparr>cb_tls_info := v\<rparr>"

definition connector_tcp_nodelay :: "bool \<Rightarrow> 'n connector_builder \<Rightarrow> 'n connector_builder" where
  "connector_tcp_nodelay v b = b\<lparr>cb_nodelay := v\<rparr>"

text \<open>\<^verbatim>\<open>ConnectorBuilder::build\<close>: the transport and the timeout around it.\<close>

definition connector_build ::
  "('c, 'u, 'm) transport_env \<Rightarrow> 'n connector_builder \<Rightarrow> tls_options option \<Rightarrow>
   (error, 'n transport \<times> nat option) result"
where
  "connector_build env b tls_opts =
     (case tls_build (nv_context env) (nv_bundled env) (cb_tls b)
             (case tls_opts of Some o1 \<Rightarrow> o1 | None \<Rightarrow> tls_options_default) of
        Inl e \<Rightarrow> Inl e
      | Inr tls \<Rightarrow>
          Inr (\<lparr>tp_proxies = cb_proxies b, tp_nodelay = cb_nodelay b, tp_tls_info = cb_tls_info b, tp_tls = tls,
                tp_http = cb_http b, tp_builder = cb_tls b\<rparr>, cb_timeout b))"

record ('c, 'k) conn =
  co_stream :: "('c, 'k) io"
  co_tls_info :: bool
  co_proxy :: "intercept option"

definition apply_bind :: "socket_bind option \<Rightarrow> tcp_options \<Rightarrow> tcp_options" where
  "apply_bind sb http =
     (case sb of
        None \<Rightarrow> http
      | Some o1 \<Rightarrow>
          (let http1 = connector_set_local_addresses (sb_ipv4 o1) (sb_ipv6 o1) http
           in case sb_interface o1 of Some i \<Rightarrow> connector_set_interface i http1 | None \<Rightarrow> http1))"

definition build_https_connector ::
  "('c, 'u, 'm) transport_env \<Rightarrow> 'n transport \<Rightarrow> bool \<Rightarrow> ('u, 'm, 'n, tls_options) descriptor \<Rightarrow>
   (error, https_connector) result"
where
  "build_https_connector env t https d =
     (let http0 = (if https \<and> \<not> tp_nodelay t then set_nodelay True (tp_http t) else tp_http t);
          http1 = apply_bind (cd_bind d) http0
      in case cd_tls d of
           None \<Rightarrow> Inr \<lparr>htc_http = DialTcp http1, htc_tls = tp_tls t\<rparr>
         | Some opts \<Rightarrow>
             (case tls_build (nv_context env) (nv_bundled env) (tp_builder t) opts of
                Inl e \<Rightarrow> Inl e
              | Inr tls \<Rightarrow> Inr \<lparr>htc_http = DialTcp http1, htc_tls = tls\<rparr>))"

text \<open>Nagle's algorithm is turned on again after a handshake if the configuration wants it.\<close>

definition restore_nagle ::
  "('c, 'u, 'm) transport_env \<Rightarrow> bool \<Rightarrow> ('c, ('u, 'm) group) io \<Rightarrow> unit awaited"
where
  "restore_nagle env enabled s =
     (case (if enabled then nv_set_nodelay env s else None) of
        Some e \<Rightarrow> Some (Inl e)
      | None \<Rightarrow> Some (Inr ()))"

definition tunnel_conn_from_stream ::
  "'n transport \<Rightarrow> ('c, 'k) maybe_https \<Rightarrow> ('c, 'k) conn"
where
  "tunnel_conn_from_stream t s =
     \<lparr>co_stream = stream_io s,
      co_tls_info = (case s of HttpStream _ \<Rightarrow> False | HttpsStream _ _ \<Rightarrow> tp_tls_info t),
      co_proxy = None\<rparr>"

definition conn_from_stream :: "'n transport \<Rightarrow> ('c, 'k) maybe_https \<Rightarrow> intercept option \<Rightarrow> ('c, 'k) conn" where
  "conn_from_stream t s proxy = \<lparr>co_stream = stream_io s, co_tls_info = tp_tls_info t, co_proxy = proxy\<rparr>"

definition connect_auto_proxy ::
  "('c, 'u, 'm) transport_env \<Rightarrow> 'n transport \<Rightarrow> ('u, 'm, 'n, tls_options) descriptor \<Rightarrow> intercept option \<Rightarrow>
   ('c, ('u, 'm) group) conn awaited"
where
  "connect_auto_proxy env t d proxy =
     (let https = is_https (cd_uri d)
      in and_then (immediately (build_https_connector env t https d)) (\<lambda>c0.
           let c = (if proxy \<noteq> None \<and> https then no_alpn c0 else c0)
           in and_then (https_call_descriptor env c d) (\<lambda>s.
              and_then (restore_nagle env (https \<and> \<not> tp_nodelay t) (stream_as_ref s)) (\<lambda>_.
              Some (Inr (conn_from_stream t s proxy))))))"

definition tunnel_headers_for :: "intercept \<Rightarrow> tunnel_headers" where
  "tunnel_headers_for ic =
     (let h1 = (case intercept_basic_auth ic of Some a \<Rightarrow> tunnel_with_auth a TunnelEmpty | None \<Rightarrow> TunnelEmpty)
      in case custom_headers ic of Some hs \<Rightarrow> tunnel_with_headers hs h1 | None \<Rightarrow> h1)"

definition connect_via_socks ::
  "('c, 'u, 'm) transport_env \<Rightarrow> 'n transport \<Rightarrow> ('u, 'm, 'n, tls_options) descriptor \<Rightarrow> intercept \<Rightarrow>
   socks_version \<Rightarrow> dns_resolve \<Rightarrow> ('c, ('u, 'm) group) conn awaited"
where
  "connect_via_socks env t d ic version mode =
     (let https = is_https (cd_uri d)
      in and_then (socks_call env (tp_http t) (ic_uri ic) (raw_auth ic) version mode (cd_uri d)) (\<lambda>conn.
         and_then (immediately (build_https_connector env t https d)) (\<lambda>c.
         and_then (https_call_established env c conn d) (\<lambda>s.
         and_then (restore_nagle env (https \<and> \<not> tp_nodelay t) (stream_as_ref s)) (\<lambda>_.
         Some (Inr (tunnel_conn_from_stream t s)))))))"

definition connect_via_tunnel ::
  "('c, 'u, 'm) transport_env \<Rightarrow> 'n transport \<Rightarrow> ('u, 'm, 'n, tls_options) descriptor \<Rightarrow> intercept \<Rightarrow>
   ('c, ('u, 'm) group) conn awaited"
where
  "connect_via_tunnel env t d ic =
     and_then (immediately (build_https_connector env t True d)) (\<lambda>c.
     and_then (tunnel_call env c (ic_uri ic) (tunnel_headers_for ic) (cd_uri d)) (\<lambda>tunneled.
     and_then (https_call_established env c tunneled d) (\<lambda>s.
     and_then (restore_nagle env (\<not> tp_nodelay t) (stream_as_ref s)) (\<lambda>_.
     Some (Inr (tunnel_conn_from_stream t s))))))"

text \<open>The constant URI \<^verbatim>\<open>http://localhost\<close>.\<close>

definition localhost_uri :: uri where
  "localhost_uri =
     \<lparr>uri_scheme = Some ''http'',
      uri_authority = Some \<lparr>auth_str = ''localhost'', auth_host = ''localhost'', auth_port = None\<rparr>,
      uri_pq = Some (''/'', None)\<rparr>"

definition connect_via_unix ::
  "('c, 'u, 'm) transport_env \<Rightarrow> 'n transport \<Rightarrow> ('u, 'm, 'n, tls_options) descriptor \<Rightarrow> string \<Rightarrow>
   ('c, ('u, 'm) group) conn awaited"
where
  "connect_via_unix env t d path =
     (let c = \<lparr>htc_http = DialUnix path, htc_tls = tp_tls t\<rparr>
      in if is_https (cd_uri d)
         then and_then (tunnel_call env c localhost_uri TunnelEmpty (cd_uri d)) (\<lambda>tunneled.
              and_then (https_call_established env c tunneled d) (\<lambda>s. Some (Inr (tunnel_conn_from_stream t s))))
         else and_then (https_call_descriptor env c d) (\<lambda>s. Some (Inr (conn_from_stream t s None))))"

definition connect_via_proxy ::
  "('c, 'u, 'm) transport_env \<Rightarrow> 'n transport \<Rightarrow> ('u, 'm, 'n, tls_options) descriptor \<Rightarrow> intercepted \<Rightarrow>
   ('c, ('u, 'm) group) conn awaited"
where
  "connect_via_proxy env t d i =
     (case i of
        Proxied ic \<Rightarrow>
          (case socks_mode (ic_uri ic) of
             Some (version, mode) \<Rightarrow> connect_via_socks env t d ic version mode
           | None \<Rightarrow>
               if is_https (cd_uri d) then connect_via_tunnel env t d ic
               else map_err ProxyConnect (connect_auto_proxy env t (d\<lparr>cd_uri := ic_uri ic\<rparr>) (Some ic)))
      | UnixSocket path \<Rightarrow> connect_via_unix env t d path)"

text \<open>The proxy of the request comes first, then the proxies of the client in their order.\<close>

fun first_intercept :: "'n proxy_lib \<Rightarrow> uri \<Rightarrow> 'n matcher list \<Rightarrow> intercepted option" where
  "first_intercept L u [] = None"
| "first_intercept L u (m # ms) =
     (case matcher_intercept L m u of Some i \<Rightarrow> Some i | None \<Rightarrow> first_intercept L u ms)"

definition intercepted_by :: "'n proxy_lib \<Rightarrow> 'n transport \<Rightarrow> ('u, 'm, 'n, tls_options) descriptor \<Rightarrow> intercepted option" where
  "intercepted_by L t d =
     (case Option.bind (cd_proxy d) (\<lambda>m. matcher_intercept L m (cd_uri d)) of
        Some i \<Rightarrow> Some i
      | None \<Rightarrow> first_intercept L (cd_uri d) (tp_proxies t))"

definition connect_auto ::
  "'n proxy_lib \<Rightarrow> ('c, 'u, 'm) transport_env \<Rightarrow> 'n transport \<Rightarrow> ('u, 'm, 'n, tls_options) descriptor \<Rightarrow>
   ('c, ('u, 'm) group) conn awaited"
where
  "connect_auto L env t d =
     (case intercepted_by L t d of
        Some i \<Rightarrow> connect_via_proxy env t d i
      | None \<Rightarrow> connect_auto_proxy env t d None)"

text \<open>The timeout around the connector (\<^verbatim>\<open>conn/timeout.rs\<close>): one poll of an attempt started at \<open>start\<close>; a result that is
  ready wins over the deadline.\<close>

definition connector_timeout_poll :: "nat option \<Rightarrow> nat \<Rightarrow> nat \<Rightarrow> 'a awaited \<Rightarrow> 'a awaited" where
  "connector_timeout_poll timeout start now inner =
     (case inner of
        Some r \<Rightarrow> Some r
      | None \<Rightarrow> if sleep_ready (map_option (\<lambda>t. start + t) timeout) now then Some (Inl TimedOut) else None)"

section \<open>What lies between the client and the origin\<close>

text \<open>A TLS configuration that verifies the host of a URI as the builder asks.\<close>

definition verifies :: "tls_builder \<Rightarrow> uri \<Rightarrow> 'k ssl_conf \<Rightarrow> bool" where
  "verifies b u ssl \<longleftrightarrow>
     (\<exists>host. uri_host u = Some host \<and> ssl_host ssl = normalize_host host) \<and>
     verify_mode (ssl_context ssl) = [tb_cert_verification b] \<and>
     (tb_verify_hostname b \<longrightarrow> ssl_verify_hostname ssl)"

text \<open>A stream to a server, or to an HTTP proxy.\<close>

definition hop :: "tls_builder \<Rightarrow> uri \<Rightarrow> ('c, 'k) io \<Rightarrow> bool" where
  "hop b u s \<longleftrightarrow>
     (if is_https u then \<exists>ssl opts c. s = TlsIo ssl (TcpIo opts u c) \<and> verifies b u ssl
      else \<exists>opts c. s = TcpIo opts u c)"

definition built_by :: "tls_builder \<Rightarrow> tls_connector \<Rightarrow> bool" where
  "built_by b tls \<longleftrightarrow>
     verify_mode (tlc_context tls) = [tb_cert_verification b] \<and>
     hs_verify_hostname (tlc_settings tls) = tb_verify_hostname b"

lemma tls_build_built: "tls_build fails bundled b opts = Inr tls \<Longrightarrow> built_by b tls"
  using tls_build_ok by (auto simp: built_by_def)

lemma built_no_alpn: "built_by b (htc_tls (no_alpn c)) = built_by b (htc_tls c)"
  by (simp add: built_by_def no_alpn_def)

lemma setup_ssl_verifies: "setup_ssl fails tls u = Inr ssl \<Longrightarrow> built_by b tls \<Longrightarrow> verifies b u ssl"
  using setup_ssl_ok [of fails tls u ssl] by (auto simp: verifies_def built_by_def)

lemma setup_ssl2_verifies: "setup_ssl2 fails pop tls d = Inr ssl \<Longrightarrow> built_by b tls \<Longrightarrow> verifies b (cd_uri d) ssl"
  by (erule setup_ssl2_ok) (auto simp: verifies_def built_by_def ssl2_conf_def Let_def)

lemma dial_ok:
  "dial env (DialTcp opts) u = Some (Inr s) \<longleftrightarrow> (\<exists>c. nv_dial env opts u = Some (Inr c) \<and> s = TcpIo opts u c)"
  "dial env (DialUnix path) u = Some (Inr s) \<longleftrightarrow> nv_unix env path = Some (Inr ()) \<and> s = UnixIo path"
  by (auto simp: dial_def)

lemma https_call_uri_ok:
  assumes "https_call_uri env c u = Some (Inr s)" "built_by b (htc_tls c)"
  obtains "\<not> is_https u" "dial env (htc_http c) u = Some (Inr (stream_io s))"
  | ssl conn where "is_https u" "s = HttpsStream ssl conn" "dial env (htc_http c) u = Some (Inr conn)" "verifies b u ssl"
  using assms
  by (auto simp: https_call_uri_def perform_handshake_def is_https_def intro: setup_ssl_verifies split: if_splits)

lemma established_ok:
  assumes "https_call_established env c conn d = Some (Inr s)" "built_by b (htc_tls c)"
  shows "if is_http (cd_uri d) then s = HttpStream conn else \<exists>ssl. s = HttpsStream ssl conn \<and> verifies b (cd_uri d) ssl"
  using assms
  by (auto simp: https_call_established_def perform_handshake_def intro: setup_ssl2_verifies split: if_splits)

lemma build_https_ok:
  assumes "build_https_connector env t https d = Inr c" "built_by (tp_builder t) (tp_tls t)"
  shows "built_by (tp_builder t) (htc_tls c) \<and> (\<exists>opts. htc_http c = DialTcp opts \<and> tcp_bind opts = tcp_bind (apply_bind (cd_bind d) (tp_http t)))"
proof -
  have "tcp_bind (apply_bind sb (set_nodelay v o1)) = tcp_bind (apply_bind sb o1)" for sb v o1
    by (simp add: apply_bind_def set_nodelay_def connector_set_local_addresses_def connector_set_interface_def Let_def
        split: option.split)
  then show ?thesis
    using assms tls_build_built
    by (auto simp: build_https_connector_def Let_def split: option.splits sum.splits if_splits)
qed

lemma auto_proxy_ok:
  assumes "connect_auto_proxy env t d p = Some (Inr co)" "built_by (tp_builder t) (tp_tls t)"
    "is_http (cd_uri d) \<or> is_https (cd_uri d)"
  shows "hop (tp_builder t) (cd_uri d) (co_stream co) \<and> co_proxy co = p"
proof -
  obtain c0 c s where c0: "build_https_connector env t (is_https (cd_uri d)) d = Inr c0"
    and c: "c = (if p \<noteq> None \<and> is_https (cd_uri d) then no_alpn c0 else c0)"
    and s: "https_call_descriptor env c d = Some (Inr s)" and co: "co = conn_from_stream t s p"
    using assms(1) by (auto simp: connect_auto_proxy_def Let_def)
  have b: "built_by (tp_builder t) (htc_tls c)" and http: "htc_http c = htc_http c0"
    using build_https_ok [OF c0 assms(2)] by (auto simp: c built_no_alpn) (auto simp: no_alpn_def)
  obtain opts where opts: "htc_http c = DialTcp opts" using build_https_ok [OF c0 assms(2)] http by auto
  obtain conn where conn: "dial env (htc_http c) (cd_uri d) = Some (Inr conn)"
    and e: "https_call_established env c conn d = Some (Inr s)"
    using s by (auto simp: https_call_descriptor_def)
  have "is_http (cd_uri d) = (\<not> is_https (cd_uri d))" using assms(3) by (auto simp: is_http_def is_https_def)
  with established_ok [OF e b] conn opts show ?thesis
    by (auto simp: co conn_from_stream_def hop_def dial_ok)
qed

text \<open>The stream on which the client speaks to the origin: to the origin itself, or through the proxy.\<close>

definition origin_path :: "tls_builder \<Rightarrow> tcp_options \<Rightarrow> uri \<Rightarrow> intercepted option \<Rightarrow> ('c, 'k) io \<Rightarrow> bool" where
  "origin_path b http u i s \<longleftrightarrow>
     (case i of
        None \<Rightarrow> \<exists>opts c. s = TcpIo opts u c
      | Some (UnixSocket path) \<Rightarrow>
          if is_https u
          then \<exists>host. uri_host u = Some host \<and> s = Tunneled (tunnel_text host (port_or_default u) TunnelEmpty) (UnixIo path)
          else s = UnixIo path
      | Some (Proxied ic) \<Rightarrow>
          (case socks_mode (ic_uri ic) of
             Some (v, m) \<Rightarrow>
               \<exists>req c. s = Socksed req (TcpIo http (ic_uri ic) c) \<and> sr_version req = v \<and>
                 sr_auth req = (if v = SocksV5 then raw_auth ic else None) \<and>
                 (m = RemoteDns \<longrightarrow> (\<exists>host. uri_host u = Some host \<and>
                    sr_target req = TargetDomain (strip_ipv6_brackets host) (port_or_default u)))
           | None \<Rightarrow>
               if is_https u
               then \<exists>host base. uri_host u = Some host \<and> hop b (ic_uri ic) base \<and>
                 s = Tunneled (tunnel_text host (port_or_default u) (tunnel_headers_for ic)) base
               else hop b (ic_uri ic) s))"

lemma tunnel_call_ok:
  assumes "tunnel_call env c p hs u = Some (Inr s)" "built_by b (htc_tls c)"
  obtains host conn where "uri_host u = Some host" "https_call_uri env c p = Some (Inr conn)"
    "s = Tunneled (tunnel_text host (port_or_default u) hs) (stream_io conn)"
  using assms by (auto simp: tunnel_call_def tunnel_def split: option.splits)

lemma socks_call_ok:
  assumes "socks_call env http p auth v m u = Some (Inr s)"
  obtains host req c where "uri_host u = Some host" "s = Socksed req (TcpIo http p c)" "sr_version req = v"
    "sr_auth req = (if v = SocksV5 then auth else None)"
    "m = RemoteDns \<longrightarrow> sr_target req = TargetDomain (strip_ipv6_brackets host) (port_or_default u)"
proof (cases "uri_host u")
  case None
  with assms show thesis by (simp add: socks_call_def)
next
  case (Some host)
  with assms obtain target c where t: "socks_target (nv_resolver env) m (strip_ipv6_brackets host) (port_or_default u) = Inr target"
    and s: "s = Socksed \<lparr>sr_version = v, sr_target = target, sr_auth = (case v of SocksV4 \<Rightarrow> None | SocksV5 \<Rightarrow> auth)\<rparr> (TcpIo http p c)"
    by (auto simp: socks_call_def Let_def dial_ok split: if_splits)
  show thesis
    by (rule that [OF Some s]) (use t in \<open>auto simp: socks_target_def split: socks_version.split\<close>)
qed

lemma hop_call_uri:
  assumes "https_call_uri env c u = Some (Inr s)" "built_by b (htc_tls c)" "htc_http c = DialTcp opts"
  shows "hop b u (stream_io s)"
  using assms(1,2) by (rule https_call_uri_ok) (auto simp: hop_def assms(3) dial_ok)

definition secured :: "tls_builder \<Rightarrow> tcp_options \<Rightarrow> uri \<Rightarrow> intercepted option \<Rightarrow> ('c, 'k) io \<Rightarrow> bool" where
  "secured b http u i s \<longleftrightarrow> (\<exists>ssl inner. s = TlsIo ssl inner \<and> verifies b u ssl \<and> origin_path b http u i inner)"

lemma connect_via_socks_path:
  assumes "connect_via_socks env t d ic v m = Some (Inr co)" "built_by (tp_builder t) (tp_tls t)"
    "socks_mode (ic_uri ic) = Some (v, m)" "is_http (cd_uri d) = (\<not> is_https (cd_uri d))"
  shows "co_proxy co = None \<and>
    (if is_https (cd_uri d) then secured else origin_path) (tp_builder t) (tp_http t) (cd_uri d) (Some (Proxied ic)) (co_stream co)"
proof -
  obtain conn c s where conn: "socks_call env (tp_http t) (ic_uri ic) (raw_auth ic) v m (cd_uri d) = Some (Inr conn)"
    and c: "build_https_connector env t (is_https (cd_uri d)) d = Inr c"
    and s: "https_call_established env c conn d = Some (Inr s)" and co: "co = tunnel_conn_from_stream t s"
    using assms(1) by (auto simp: connect_via_socks_def Let_def)
  have path: "origin_path (tp_builder t) (tp_http t) (cd_uri d) (Some (Proxied ic)) conn"
    using conn by (rule socks_call_ok) (auto simp: origin_path_def assms(3))
  have "built_by (tp_builder t) (htc_tls c)" using build_https_ok [OF c assms(2)] by simp
  from established_ok [OF s this] path show ?thesis
    by (auto simp: co tunnel_conn_from_stream_def secured_def assms(4) split: if_splits)
qed

lemma connect_via_tunnel_path:
  assumes "connect_via_tunnel env t d ic = Some (Inr co)" "built_by (tp_builder t) (tp_tls t)"
    "socks_mode (ic_uri ic) = None" "is_https (cd_uri d)"
  shows "co_proxy co = None \<and> secured (tp_builder t) (tp_http t) (cd_uri d) (Some (Proxied ic)) (co_stream co)"
proof -
  obtain c conn s where c: "build_https_connector env t True d = Inr c"
    and conn: "tunnel_call env c (ic_uri ic) (tunnel_headers_for ic) (cd_uri d) = Some (Inr conn)"
    and s: "https_call_established env c conn d = Some (Inr s)" and co: "co = tunnel_conn_from_stream t s"
    using assms(1) by (auto simp: connect_via_tunnel_def)
  obtain opts where b: "built_by (tp_builder t) (htc_tls c)" and o: "htc_http c = DialTcp opts"
    using build_https_ok [OF c assms(2)] by blast
  have path: "origin_path (tp_builder t) (tp_http t) (cd_uri d) (Some (Proxied ic)) conn"
    using conn b by (rule tunnel_call_ok) (auto simp: origin_path_def assms(3,4) intro: hop_call_uri [OF _ b o])
  have "\<not> is_http (cd_uri d)" using assms(4) by (auto simp: is_http_def is_https_def)
  with established_ok [OF s b] path show ?thesis by (auto simp: co tunnel_conn_from_stream_def secured_def)
qed

lemma connect_via_unix_path:
  assumes "connect_via_unix env t d path = Some (Inr co)" "built_by (tp_builder t) (tp_tls t)"
    "is_http (cd_uri d) = (\<not> is_https (cd_uri d))"
  shows "co_proxy co = None \<and>
    (if is_https (cd_uri d) then secured else origin_path) (tp_builder t) (tp_http t) (cd_uri d) (Some (UnixSocket path)) (co_stream co)"
proof (cases "is_https (cd_uri d)")
  case True
  let ?c = "\<lparr>htc_http = DialUnix path, htc_tls = tp_tls t\<rparr>"
  obtain conn s where conn: "tunnel_call env ?c localhost_uri TunnelEmpty (cd_uri d) = Some (Inr conn)"
    and s: "https_call_established env ?c conn d = Some (Inr s)" and co: "co = tunnel_conn_from_stream t s"
    using assms(1) True by (auto simp: connect_via_unix_def Let_def)
  have b: "built_by (tp_builder t) (htc_tls ?c)" using assms(2) by simp
  have "origin_path (tp_builder t) (tp_http t) (cd_uri d) (Some (UnixSocket path)) conn"
    using conn b
  proof (rule tunnel_call_ok)
    fix host st
    assume st: "uri_host (cd_uri d) = Some host" "https_call_uri env ?c localhost_uri = Some (Inr st)"
      "conn = Tunneled (tunnel_text host (port_or_default (cd_uri d)) TunnelEmpty) (stream_io st)"
    have "stream_io st = UnixIo path"
      using st(2) by (auto simp: https_call_uri_def localhost_uri_def dial_ok)
    with st show ?thesis by (simp add: origin_path_def True)
  qed
  with established_ok [OF s b] True assms(3) show ?thesis by (auto simp: co tunnel_conn_from_stream_def secured_def)
next
  case False
  with assms show ?thesis
    by (auto simp: connect_via_unix_def https_call_descriptor_def https_call_established_def conn_from_stream_def
        origin_path_def dial_ok Let_def)
qed

lemma connect_auto_path:
  assumes "connector_build env0 b opts = Inr (t, timeout)" "connect_auto L env t d = Some (Inr co)"
    "is_http (cd_uri d) \<or> is_https (cd_uri d)"
    "\<And>ic. intercepted_by L t d = Some (Proxied ic) \<Longrightarrow> socks_mode (ic_uri ic) = None \<Longrightarrow>
       is_http (ic_uri ic) \<or> is_https (ic_uri ic)"
  shows "(if is_https (cd_uri d) then secured else origin_path) (cb_tls b) (tp_http t) (cd_uri d) (intercepted_by L t d) (co_stream co) \<and>
    co_proxy co =
      (case intercepted_by L t d of
         Some (Proxied ic) \<Rightarrow> if is_http (cd_uri d) \<and> socks_mode (ic_uri ic) = None then Some ic else None
       | _ \<Rightarrow> None)"
proof -
  have tb: "tp_builder t = cb_tls b" and built: "built_by (tp_builder t) (tp_tls t)"
    using assms(1) tls_build_built by (auto simp: connector_build_def split: sum.splits)
  have sch: "is_http (cd_uri d) = (\<not> is_https (cd_uri d))" using assms(3) by (auto simp: is_http_def is_https_def)
  show ?thesis
  proof (cases "intercepted_by L t d")
    case None
    then have "connect_auto_proxy env t d None = Some (Inr co)" using assms(2) by (simp add: connect_auto_def)
    from auto_proxy_ok [OF this built assms(3)] show ?thesis
      by (auto simp: None hop_def secured_def origin_path_def tb)
  next
    case (Some i)
    then have via: "connect_via_proxy env t d i = Some (Inr co)" using assms(2) by (simp add: connect_auto_def)
    show ?thesis
    proof (cases i)
      case (UnixSocket path)
      then have "connect_via_unix env t d path = Some (Inr co)" using via by (simp add: connect_via_proxy_def)
      from connect_via_unix_path [OF this built sch] show ?thesis by (simp add: Some UnixSocket tb)
    next
      case (Proxied ic)
      show ?thesis
      proof (cases "socks_mode (ic_uri ic)")
        case None
        show ?thesis
        proof (cases "is_https (cd_uri d)")
          case True
          then have "connect_via_tunnel env t d ic = Some (Inr co)"
            using via by (simp add: connect_via_proxy_def Proxied None)
          from connect_via_tunnel_path [OF this built None True] True sch show ?thesis by (simp add: Some Proxied tb)
        next
          case False
          then have "connect_auto_proxy env t (d\<lparr>cd_uri := ic_uri ic\<rparr>) (Some ic) = Some (Inr co)"
            using via by (simp add: connect_via_proxy_def Proxied None)
          from auto_proxy_ok [OF this built] assms(4) [of ic] False sch None show ?thesis
            by (simp add: Some Proxied origin_path_def tb)
        qed
      next
        case (Some vm)
        then obtain v m where vm: "socks_mode (ic_uri ic) = Some (v, m)" by (cases vm) auto
        then have "connect_via_socks env t d ic v m = Some (Inr co)"
          using via by (simp add: connect_via_proxy_def Proxied)
        from connect_via_socks_path [OF this built vm sch] show ?thesis
          by (simp add: \<open>intercepted_by L t d = Some i\<close> Proxied vm tb)
      qed
    qed
  qed
qed

text \<open>C8: What a new connection is.  For \<^verbatim>\<open>https\<close> it is TLS to the host of the URI with the verification the
  client is configured with, whatever options a request brings, and it runs on a socket to the origin, or on a
  SOCKS connection or a CONNECT tunnel through the proxy that matches; no credentials of the proxy go to the
  origin.  For \<^verbatim>\<open>http\<close> it is that socket, or the connection to the proxy, which is then marked as one.\<close>

theorem transport_path:
  assumes "connector_build env0 b opts = Inr (t, timeout)" "connect_auto L env t d = Some (Inr co)"
    "is_http (cd_uri d) \<or> is_https (cd_uri d)"
    "\<And>ic. intercepted_by L t d = Some (Proxied ic) \<Longrightarrow> socks_mode (ic_uri ic) = None \<Longrightarrow>
       is_http (ic_uri ic) \<or> is_https (ic_uri ic)"
  shows "(if is_https (cd_uri d) then secured else origin_path) (cb_tls b) (tp_http t) (cd_uri d) (intercepted_by L t d) (co_stream co) \<and>
    co_proxy co =
      (case intercepted_by L t d of
         Some (Proxied ic) \<Rightarrow> if is_http (cd_uri d) \<and> socks_mode (ic_uri ic) = None then Some ic else None
       | _ \<Rightarrow> None)"
  using assms by (rule connect_auto_path)

definition sample_transport_env :: "(unit, uri, unit matcher) transport_env" where
  "sample_transport_env =
     \<lparr>nv_dial = (\<lambda>_ _. Some (Inr ())), nv_unix = (\<lambda>_. Some (Inr ())), nv_context = (\<lambda>_. None), nv_bundled = None,
      nv_conf = (\<lambda>_. None), nv_session = (\<lambda>_. None), nv_handshake = (\<lambda>_ _. Some (Inr ())),
      nv_write = (\<lambda>_ _. Some (Inr ())), nv_read = (\<lambda>_. [Inr ''HTTP/1.1 200 '']),
      nv_parse = (\<lambda>_. ParseComplete (Some 200)), nv_resolver = (\<lambda>_. Inr []), nv_socks = (\<lambda>_ _. Some (Inr ())),
      nv_set_nodelay = (\<lambda>_. None)\<rparr>"

definition sample_http_proxy :: intercept where
  "sample_http_proxy = \<lparr>ic_uri = localhost_uri, ic_auth = AuthEmpty, ic_extra = extra_default\<rparr>"

definition sample_proxy_matcher :: "unit matcher" where
  "sample_proxy_matcher =
     \<lparr>mt_http = None, mt_https = Some sample_http_proxy, mt_no = no_proxy_empty, mt_unix = None\<rparr>"

definition sample_https :: uri where
  "sample_https = localhost_uri\<lparr>uri_scheme := Some ''https''\<rparr>"

definition sample_descriptor :: "(uri, unit matcher, unit, tls_options) descriptor" where
  "sample_descriptor = descriptor_new id id sample_https group_default None None None None"

lemma sample_connector:
  "\<exists>t. connector_build sample_transport_env (connector_builder_new [sample_proxy_matcher]) None = Inr (t, None) \<and>
     tp_proxies t = [sample_proxy_matcher] \<and> tp_nodelay t"
proof -
  have "first_failure (\<lambda>_. None) calls = None" for calls by (auto simp: first_failure_def split: option.split prod.split)
  then show ?thesis
    by (simp add: connector_build_def tls_build_def connector_builder_new_def sample_transport_env_def tls_builder_new_def)
qed

theorem transport_path_witness:
  "\<exists>t co. connector_build sample_transport_env (connector_builder_new [sample_proxy_matcher]) None = Inr (t, None) \<and>
     connect_auto sample_proxy_lib sample_transport_env t sample_descriptor = Some (Inr co) \<and>
     secured tls_builder_new (tp_http t) sample_https (Some (Proxied sample_http_proxy)) (co_stream co)"
proof -
  obtain t where t: "connector_build sample_transport_env (connector_builder_new [sample_proxy_matcher]) None = Inr (t, None)"
    "tp_proxies t = [sample_proxy_matcher]" "tp_nodelay t"
    using sample_connector by blast
  have schemes: "is_https sample_https" "\<not> is_http sample_https" "is_http localhost_uri" "\<not> is_https localhost_uri"
    "socks_mode localhost_uri = None" "uri_host sample_https = Some ''localhost''" "cd_uri sample_descriptor = sample_https"
    "cd_bind sample_descriptor = None" "cd_tls sample_descriptor = None" "cd_proxy sample_descriptor = None"
    by (simp_all add: sample_https_def localhost_uri_def is_https_def is_http_def socks_mode_def uri_host_def
        sample_descriptor_def descriptor_new_def)
  have "no_proxy_contains sample_proxy_lib no_proxy_empty ''localhost'' = False" by code_simp
  then have i: "intercepted_by sample_proxy_lib t sample_descriptor = Some (Proxied sample_http_proxy)"
    by (simp add: intercepted_by_def schemes t(2) matcher_intercept_def sample_proxy_matcher_def)
  have free: "conf_failure (\<lambda>_. None) calls = None" for calls by (simp add: conf_failure_def)
  have "\<exists>co. connect_auto sample_proxy_lib sample_transport_env t sample_descriptor = Some (Inr co)"
    using schemes t(3)
    by (simp add: connect_auto_def i connect_via_proxy_def connect_via_tunnel_def build_https_connector_def
        sample_http_proxy_def tunnel_call_def https_call_uri_def dial_def https_call_established_def setup_ssl2_def
        perform_handshake_def restore_nagle_def tunnel_def sample_transport_env_def free and_then_def map_err_def
        immediately_def localhost_uri_def Let_def)
  then obtain co where co: "connect_auto sample_proxy_lib sample_transport_env t sample_descriptor = Some (Inr co)" by blast
  have "secured tls_builder_new (tp_http t) sample_https (Some (Proxied sample_http_proxy)) (co_stream co)"
    using transport_path [OF t(1) co] schemes i by (simp add: connector_builder_new_def sample_http_proxy_def)
  with t(1) co show ?thesis by blast
qed

section \<open>Tunnels\<close>

text \<open>The answer the loop accepts: a complete response with status 200, after chunks that do not complete one.\<close>

definition accepting :: "(string \<Rightarrow> response_parse) \<Rightarrow> string \<Rightarrow> string list \<Rightarrow> string \<Rightarrow> bool" where
  "accepting parse buf cs c \<longleftrightarrow>
     c \<noteq> [] \<and> [] \<notin> set cs \<and> (\<forall>j<length cs. parse (buf @ concat (take (Suc j) cs)) = ParsePartial) \<and>
     parse (buf @ concat cs @ c) = ParseComplete (Some 200)"

lemma accepting_Cons:
  "accepting parse buf (x # cs) c \<longleftrightarrow> x \<noteq> [] \<and> parse (buf @ x) = ParsePartial \<and> accepting parse (buf @ x) cs c"
  by (auto simp: accepting_def All_less_Suc2)

lemma tunnel_read_accepts:
  "accepting parse buf cs c \<Longrightarrow> tunnel_read parse buf (map Inr cs @ Inr c # post) = Some (Inr ())"
proof (induction cs arbitrary: buf)
  case Nil
  then show ?case by (simp add: accepting_def)
next
  case (Cons x cs)
  then show ?case by (simp add: accepting_Cons)
qed

lemma tunnel_read_accepted:
  "tunnel_read parse buf chunks = Some (Inr ()) \<Longrightarrow> \<exists>cs c post. chunks = map Inr cs @ Inr c # post \<and> accepting parse buf cs c"
proof (induction parse buf chunks rule: tunnel_read.induct)
  case (3 parse buf chunk chunks)
  show ?case
  proof (cases "parse (buf @ chunk)")
    case (ParseComplete code)
    with "3.prems" have "Inr chunk # chunks = map Inr [] @ Inr chunk # chunks \<and> accepting parse buf [] chunk"
      by (auto simp: accepting_def split: if_splits)
    then show ?thesis by blast
  next
    case ParsePartial
    with "3.prems" have ne: "chunk \<noteq> []" and "tunnel_read parse (buf @ chunk) chunks = Some (Inr ())"
      by (auto split: if_splits)
    with "3.IH" ParsePartial obtain cs c post where "chunks = map Inr cs @ Inr c # post" "accepting parse (buf @ chunk) cs c"
      by blast
    then have "Inr chunk # chunks = map Inr (chunk # cs) @ Inr c # post \<and> accepting parse buf (chunk # cs) c"
      using ne ParsePartial by (simp add: accepting_Cons)
    then show ?thesis by blast
  qed (use "3.prems" in \<open>simp split: if_splits\<close>)
qed auto

text \<open>A tunnel is used exactly when the request was written and the proxy answered it with a complete response of
  status 200; the request names the destination, and carries the credentials of the proxy unless a header of the
  caller replaces them.\<close>

theorem tunnel_spec:
  "(tunnel env conn host port hs = Some (Inr s) \<longleftrightarrow>
     nv_write env conn (tunnel_text host port hs) = Some (Inr ()) \<and>
     (\<exists>cs c post. nv_read env conn = map Inr cs @ Inr c # post \<and> accepting (nv_parse env) [] cs c) \<and>
     s = Tunneled (tunnel_text host port hs) conn) \<and>
   tunnel_text host port (tunnel_headers_for ic) =
     ''CONNECT '' @ host @ '':'' @ nat_decimal (unat port) @ '' HTTP/1.1'' @ crlf @
     header_line ''Host'' (host @ '':'' @ nat_decimal (unat port)) @
     (case (custom_headers ic, intercept_basic_auth ic) of
        (None, None) \<Rightarrow> []
      | (None, Some a) \<Rightarrow> header_line ''Proxy-Authorization'' (hv_bytes a)
      | (Some h, None) \<Rightarrow> concat (map (\<lambda>(n, v). header_line n (hv_bytes v)) (hdr_iter h))
      | (Some h, Some a) \<Rightarrow>
          concat (map (\<lambda>(n, v). header_line n (hv_bytes v))
            (hdr_iter (if hdr_contains h ''proxy-authorization'' then h
                       else hdr_insert ''proxy-authorization'' (a\<lparr>hv_sensitive := True\<rparr>) h)))) @
     crlf"
proof (rule conjI)
  have "tunnel_read (nv_parse env) [] (nv_read env conn) = Some (Inr ()) \<longleftrightarrow>
      (\<exists>cs c post. nv_read env conn = map Inr cs @ Inr c # post \<and> accepting (nv_parse env) [] cs c)"
    using tunnel_read_accepted tunnel_read_accepts by metis
  then show "tunnel env conn host port hs = Some (Inr s) \<longleftrightarrow>
     nv_write env conn (tunnel_text host port hs) = Some (Inr ()) \<and>
     (\<exists>cs c post. nv_read env conn = map Inr cs @ Inr c # post \<and> accepting (nv_parse env) [] cs c) \<and>
     s = Tunneled (tunnel_text host port hs) conn"
    unfolding tunnel_def by auto
qed (simp add: tunnel_text_def tunnel_headers_for_def tunnel_with_auth_def tunnel_with_headers_def Let_def
    split: option.split)

section \<open>Dialling over TCP\<close>

text \<open>The HTTP connector as the dialler: its errors are boxed.\<close>

definition http_dial :: "resolver \<Rightarrow> sys_calls \<Rightarrow> nat \<Rightarrow> 'c tcp_env list \<Rightarrow> tcp_options \<Rightarrow> uri \<Rightarrow> 'c awaited" where
  "http_dial resolver sys now es opts u =
     map_option (map_sum tcp_error_box id) (http_connector_call opts resolver u sys now es)"

lemma http_dial_address:
  assumes "http_dial resolver sys now es opts u = Some (Inr c)"
    "\<And>addrs. connector_addrs opts resolver u = Inr addrs \<Longrightarrow> length addrs \<le> u64_max"
  shows "\<exists>addrs env k. connector_addrs opts resolver u = Inr addrs \<and> env \<in> set es \<and> k < length (tcp_plan addrs opts) \<and>
    env_poll env k = Ready (Inr c)"
proof -
  obtain r where r: "http_connector_call opts resolver u sys now es = Some r" "map_sum tcp_error_box id r = Inr c"
    using assms(1) by (auto simp: http_dial_def)
  then have call: "http_connector_call opts resolver u sys now es = Some (Inr c)" by (cases r) auto
  then obtain addrs where addrs: "connector_addrs opts resolver u = Inr addrs"
    "connecting_connect opts (connecting_new addrs opts now) sys now es = Some (Inr c)"
    by (auto simp: http_connector_call_def split: sum.splits)
  with connecting_connect_result [OF assms(2) [OF addrs(1)], where config = opts and now = now and sys = sys and es = es]
  show ?thesis by (auto simp: machine_returns_def)
qed

section \<open>Options that are ignored\<close>

text \<open>The socket to a SOCKS proxy is not bound as the request asks, a direct one is.\<close>

theorem socks_ignores_binding:
  assumes "connect_via_socks env t d ic v m = Some (Inr co)" "is_http (cd_uri d)"
  shows "\<exists>req c. co_stream co = Socksed req (TcpIo (tp_http t) (ic_uri ic) c)"
proof -
  obtain conn where "socks_call env (tp_http t) (ic_uri ic) (raw_auth ic) v m (cd_uri d) = Some (Inr conn)"
    "co_stream co = conn"
    using assms by (auto simp: connect_via_socks_def https_call_established_def tunnel_conn_from_stream_def Let_def)
  then show ?thesis by (metis socks_call_ok)
qed

lemma direct_keeps_binding:
  assumes "connect_auto_proxy env t d None = Some (Inr co)" "is_http (cd_uri d)"
  shows "\<exists>opts c. co_stream co = TcpIo opts (cd_uri d) c \<and> tcp_bind opts = tcp_bind (apply_bind (cd_bind d) (tp_http t))"
proof -
  obtain c s where c: "build_https_connector env t (is_https (cd_uri d)) d = Inr c"
    and s: "https_call_descriptor env c d = Some (Inr s)" and co: "co = conn_from_stream t s None"
    using assms(1) by (auto simp: connect_auto_proxy_def Let_def)
  have "\<not> is_https (cd_uri d)" using assms(2) by (auto simp: is_http_def is_https_def)
  then have "htc_http c = DialTcp (apply_bind (cd_bind d) (tp_http t))"
    using c by (auto simp: build_https_connector_def Let_def split: option.splits sum.splits)
  then show ?thesis
    using s assms(2) by (auto simp: https_call_descriptor_def https_call_established_def dial_ok co conn_from_stream_def)
qed

text \<open>A request with a version offers that protocol to an HTTPS proxy although ALPN is disabled there.\<close>

theorem version_overrides_no_alpn:
  "alpn_of (tlc_settings (htc_tls (no_alpn c))) (Some HTTP_2) = Some (alpn_encode alpn_http2)"
  "alpn_of (tlc_settings (htc_tls (no_alpn c))) None = None"
  by (simp_all add: alpn_of_def no_alpn_def)

text \<open>TLS options of a request have no effect on a connection over a Unix socket.\<close>

theorem unix_ignores_tls_options:
  "connect_via_unix env t (d\<lparr>cd_tls := o1\<rparr>) path = connect_via_unix env t d path"
proof -
  have "setup_ssl2 fails pop tls (d\<lparr>cd_tls := o1\<rparr>) = setup_ssl2 fails pop tls d" for fails pop tls
    by (simp add: setup_ssl2_def Let_def split: option.split)
  then show ?thesis
    by (cases "is_http (cd_uri d)"; simp add: connect_via_unix_def https_call_established_def https_call_descriptor_def Let_def)
qed

end
