(* ===== verification/Client_Builder.thy ===== *)
theory Client_Builder
  imports Request_Builder Transport Redirect_Layer Config_Layer Timeouts Retry_Layer Connect_Race
begin

text \<open>
  The client and its builder (\<^verbatim>\<open>src/src/client.rs\<close>): the configuration, every method of \<^verbatim>\<open>ClientBuilder\<close>, and
  \<^verbatim>\<open>build\<close>, which composes the connector, the pooled client and the configuration of the layers around it.

  The methods are grouped as in the source, one equation for each method.  A method that merges headers returns an
  option: \<open>None\<close> is the \<^verbatim>\<open>unreachable!\<close> of \<^verbatim>\<open>replace_headers\<close>.  Cookie stores, certificate stores, session caches and
  middleware of the caller are named by numbers.  Durations have the unit of the component they configure:
  nanoseconds in the pool, milliseconds in the connector.
\<close>

section \<open>Configuration\<close>

datatype http_version_pref = PrefHttp1 | PrefHttp2 | PrefAll

record ('n, 'o, 'h1, 'h2) client_settings =
  cs_error :: "error option"
  cs_headers :: header_map
  cs_orig_headers :: orig_header_map
  cs_accept_encoding :: accept_encoding
  cs_connect_timeout :: "nat option"
  cs_connection_verbose :: bool
  cs_pool_idle_timeout :: "nat option"
  cs_pool_max_idle_per_host :: nat
  cs_pool_max_size :: "nat option"
  cs_tcp_nodelay :: bool
  cs_tcp_reuse_address :: bool
  cs_tcp_linger :: "nat option"
  cs_tcp_keepalive :: "nat option"
  cs_tcp_keepalive_interval :: "nat option"
  cs_tcp_keepalive_retries :: "nat option"
  cs_tcp_user_timeout :: "nat option"
  cs_tcp_send_buffer_size :: "nat option"
  cs_tcp_recv_buffer_size :: "nat option"
  cs_tcp_happy_eyeballs_timeout :: "nat option"
  cs_socket_bind :: socket_bind
  cs_proxies :: "'n matcher list"
  cs_auto_sys_proxy :: bool
  cs_retry_policy :: "(policy, 'o) retry_config"
  cs_redirect_policy :: policy
  cs_referer :: bool
  cs_timeout_options :: timeout_options
  cs_cookie_store :: "nat option"
  cs_hickory_dns :: bool
  cs_dns_overrides :: "(string, socket_addr list) hash_map"
  cs_dns_resolver :: "resolver option"
  cs_http_version_pref :: http_version_pref
  cs_https_only :: bool
  cs_layers :: "nat list"
  cs_connector_layers :: "nat list"
  cs_tls_sni :: bool
  cs_tls_info :: bool
  cs_tls_keylog :: "(error, nat) result option"
  cs_tls_identity :: "tls_identity option"
  cs_tls_cert_store :: "nat option"
  cs_tls_cert_verification :: bool
  cs_tls_verify_hostname :: bool
  cs_tls_min_version :: "tls_version option"
  cs_tls_max_version :: "tls_version option"
  cs_tls_session_cache :: "nat option"
  cs_tls_options :: "tls_options option"
  cs_http1_options :: "'h1 option"
  cs_http2_options :: "'h2 option"

definition client_builder_new :: "('n, 'o, 'h1, 'h2) client_settings" where
  "client_builder_new =
     \<lparr>cs_error = None, cs_headers = [], cs_orig_headers = [], cs_accept_encoding = accept_encoding_default,
      cs_connect_timeout = None, cs_connection_verbose = False, cs_pool_idle_timeout = Some (90 * 10 ^ 9),
      cs_pool_max_idle_per_host = u64_max, cs_pool_max_size = None, cs_tcp_nodelay = True,
      cs_tcp_reuse_address = False, cs_tcp_linger = None, cs_tcp_keepalive = Some 15000,
      cs_tcp_keepalive_interval = Some 15000, cs_tcp_keepalive_retries = Some 3, cs_tcp_user_timeout = Some 30000,
      cs_tcp_send_buffer_size = None, cs_tcp_recv_buffer_size = None, cs_tcp_happy_eyeballs_timeout = Some 300,
      cs_socket_bind = socket_bind_default, cs_proxies = [], cs_auto_sys_proxy = True,
      cs_retry_policy = retry_default, cs_redirect_policy = NoRedirect, cs_referer = True,
      cs_timeout_options = timeout_options_default, cs_cookie_store = None, cs_hickory_dns = True,
      cs_dns_overrides = [], cs_dns_resolver = None, cs_http_version_pref = PrefAll, cs_https_only = False,
      cs_layers = [], cs_connector_layers = [], cs_tls_sni = True, cs_tls_info = False, cs_tls_keylog = None,
      cs_tls_identity = None, cs_tls_cert_store = None, cs_tls_cert_verification = True,
      cs_tls_verify_hostname = True, cs_tls_min_version = None, cs_tls_max_version = None,
      cs_tls_session_cache = None, cs_tls_options = None, cs_http1_options = None, cs_http2_options = None\<rparr>"
section \<open>The methods of the builder\<close>

datatype header_op =
    UserAgent "(error, header_value) result"
  | DefaultHeaders header_map
  | OrigHeaders orig_header_map
  | CookieStoreOn bool nat
  | CookieProvider nat

fun set_headers :: "header_op \<Rightarrow> ('n, 'o, 'h1, 'h2) client_settings \<Rightarrow> ('n, 'o, 'h1, 'h2) client_settings option" where
  "set_headers (UserAgent (Inr v)) c = Some (c\<lparr>cs_headers := hdr_insert ''user-agent'' v (cs_headers c)\<rparr>)"
| "set_headers (UserAgent (Inl e)) c = Some (c\<lparr>cs_error := Some (err_builder e)\<rparr>)"
| "set_headers (DefaultHeaders h) c = map_option (\<lambda>x. c\<lparr>cs_headers := x\<rparr>) (replace_headers (cs_headers c) h)"
| "set_headers (OrigHeaders h) c = map_option (\<lambda>x. c\<lparr>cs_orig_headers := x\<rparr>) (orig_extend (cs_orig_headers c) h)"
| "set_headers (CookieStoreOn enable fresh) c = Some (c\<lparr>cs_cookie_store := (if enable then Some fresh else None)\<rparr>)"
| "set_headers (CookieProvider s) c = Some (c\<lparr>cs_cookie_store := Some s\<rparr>)"

datatype encoding_op =
    Gzip bool | Brotli bool | Zstd bool | Deflate bool | NoZstd | NoGzip | NoBrotli | NoDeflate

fun set_encoding :: "encoding_op \<Rightarrow> accept_encoding \<Rightarrow> accept_encoding" where
  "set_encoding (Gzip v) a = a\<lparr>ae_gzip := v\<rparr>"
| "set_encoding (Brotli v) a = a\<lparr>ae_brotli := v\<rparr>"
| "set_encoding (Zstd v) a = a\<lparr>ae_zstd := v\<rparr>"
| "set_encoding (Deflate v) a = a\<lparr>ae_deflate := v\<rparr>"
| "set_encoding NoZstd a = a\<lparr>ae_zstd := False\<rparr>"
| "set_encoding NoGzip a = a\<lparr>ae_gzip := False\<rparr>"
| "set_encoding NoBrotli a = a\<lparr>ae_brotli := False\<rparr>"
| "set_encoding NoDeflate a = a\<lparr>ae_deflate := False\<rparr>"

datatype ('n, 'o) route_op =
    RedirectBy policy
  | Referer bool
  | RetryBy "(policy, 'o) retry_config"
  | UseProxy proxy
  | NoProxies
  | TotalTimeoutOf nat
  | ReadTimeoutOf nat
  | ConnectTimeout nat
  | ConnectionVerbose bool

fun set_route ::
  "'n proxy_lib \<Rightarrow> ('n, 'o) route_op \<Rightarrow> ('n, 'o, 'h1, 'h2) client_settings \<Rightarrow> ('n, 'o, 'h1, 'h2) client_settings"
where
  "set_route P (RedirectBy p) c = c\<lparr>cs_redirect_policy := p\<rparr>"
| "set_route P (Referer v) c = c\<lparr>cs_referer := v\<rparr>"
| "set_route P (RetryBy p) c = c\<lparr>cs_retry_policy := p\<rparr>"
| "set_route P (UseProxy p) c = c\<lparr>cs_proxies := cs_proxies c @ [into_matcher P p], cs_auto_sys_proxy := False\<rparr>"
| "set_route P NoProxies c = c\<lparr>cs_proxies := [], cs_auto_sys_proxy := False\<rparr>"
| "set_route P (TotalTimeoutOf t) c = c\<lparr>cs_timeout_options := (cs_timeout_options c)\<lparr>to_total := Some t\<rparr>\<rparr>"
| "set_route P (ReadTimeoutOf t) c = c\<lparr>cs_timeout_options := (cs_timeout_options c)\<lparr>to_read := Some t\<rparr>\<rparr>"
| "set_route P (ConnectTimeout t) c = c\<lparr>cs_connect_timeout := Some t\<rparr>"
| "set_route P (ConnectionVerbose v) c = c\<lparr>cs_connection_verbose := v\<rparr>"

datatype ('h1, 'h2) http_op =
    PoolIdleTimeout "nat option"
  | PoolMaxIdlePerHost nat
  | PoolMaxSize nat
  | HttpsOnly bool
  | Http1Only
  | Http2OnlyPref
  | Http1Options "'h1 option"
  | Http2Options "'h2 option"

fun set_http :: "('h1, 'h2) http_op \<Rightarrow> ('n, 'o, 'h1, 'h2) client_settings \<Rightarrow> ('n, 'o, 'h1, 'h2) client_settings" where
  "set_http (PoolIdleTimeout t) c = c\<lparr>cs_pool_idle_timeout := t\<rparr>"
| "set_http (PoolMaxIdlePerHost n) c = c\<lparr>cs_pool_max_idle_per_host := n\<rparr>"
| "set_http (PoolMaxSize n) c = c\<lparr>cs_pool_max_size := (if n = 0 then None else Some n)\<rparr>"
| "set_http (HttpsOnly v) c = c\<lparr>cs_https_only := v\<rparr>"
| "set_http Http1Only c = c\<lparr>cs_http_version_pref := PrefHttp1\<rparr>"
| "set_http Http2OnlyPref c = c\<lparr>cs_http_version_pref := PrefHttp2\<rparr>"
| "set_http (Http1Options x) c = c\<lparr>cs_http1_options := x\<rparr>"
| "set_http (Http2Options x) c = c\<lparr>cs_http2_options := x\<rparr>"

datatype tcp_op =
    Nodelay bool
  | Keepalive "nat option"
  | KeepaliveInterval "nat option"
  | KeepaliveRetries "nat option"
  | UserTimeout "nat option"
  | ReuseAddress bool
  | Linger "nat option"
  | SendBufferSize "nat option"
  | RecvBufferSize "nat option"

fun set_tcp :: "tcp_op \<Rightarrow> ('n, 'o, 'h1, 'h2) client_settings \<Rightarrow> ('n, 'o, 'h1, 'h2) client_settings" where
  "set_tcp (Nodelay v) c = c\<lparr>cs_tcp_nodelay := v\<rparr>"
| "set_tcp (Keepalive t) c = c\<lparr>cs_tcp_keepalive := t\<rparr>"
| "set_tcp (KeepaliveInterval t) c = c\<lparr>cs_tcp_keepalive_interval := t\<rparr>"
| "set_tcp (KeepaliveRetries n) c = c\<lparr>cs_tcp_keepalive_retries := n\<rparr>"
| "set_tcp (UserTimeout t) c = c\<lparr>cs_tcp_user_timeout := t\<rparr>"
| "set_tcp (ReuseAddress v) c = c\<lparr>cs_tcp_reuse_address := v\<rparr>"
| "set_tcp (Linger t) c = c\<lparr>cs_tcp_linger := t\<rparr>"
| "set_tcp (SendBufferSize n) c = c\<lparr>cs_tcp_send_buffer_size := n\<rparr>"
| "set_tcp (RecvBufferSize n) c = c\<lparr>cs_tcp_recv_buffer_size := n\<rparr>"

datatype address_op =
    HappyEyeballsTimeout "nat option"
  | LocalAddress "ip_addr option"
  | LocalAddresses "32 word option" "128 word option"
  | Interface string

fun set_address :: "address_op \<Rightarrow> ('n, 'o, 'h1, 'h2) client_settings \<Rightarrow> ('n, 'o, 'h1, 'h2) client_settings" where
  "set_address (HappyEyeballsTimeout t) c = c\<lparr>cs_tcp_happy_eyeballs_timeout := t\<rparr>"
| "set_address (LocalAddress a) c = c\<lparr>cs_socket_bind := set_local_address a (cs_socket_bind c)\<rparr>"
| "set_address (LocalAddresses a4 a6) c = c\<lparr>cs_socket_bind := set_local_addresses a4 a6 (cs_socket_bind c)\<rparr>"
| "set_address (Interface i) c = c\<lparr>cs_socket_bind := set_interface i (cs_socket_bind c)\<rparr>"

datatype tls_op =
    TlsIdentity tls_identity
  | TlsCertStore nat
  | TlsCertVerification bool
  | TlsVerifyHostname bool
  | TlsSni bool
  | TlsKeylog "(error, nat) result"
  | TlsMinVersion tls_version
  | TlsMaxVersion tls_version
  | TlsInfoOn bool
  | TlsSessionCacheOf nat
  | TlsOptionsOf "tls_options option"

fun set_tls :: "tls_op \<Rightarrow> ('n, 'o, 'h1, 'h2) client_settings \<Rightarrow> ('n, 'o, 'h1, 'h2) client_settings" where
  "set_tls (TlsIdentity i) c = c\<lparr>cs_tls_identity := Some i\<rparr>"
| "set_tls (TlsCertStore s) c = c\<lparr>cs_tls_cert_store := Some s\<rparr>"
| "set_tls (TlsCertVerification v) c = c\<lparr>cs_tls_cert_verification := v\<rparr>"
| "set_tls (TlsVerifyHostname v) c = c\<lparr>cs_tls_verify_hostname := v\<rparr>"
| "set_tls (TlsSni v) c = c\<lparr>cs_tls_sni := v\<rparr>"
| "set_tls (TlsKeylog k) c = c\<lparr>cs_tls_keylog := Some k\<rparr>"
| "set_tls (TlsMinVersion v) c = c\<lparr>cs_tls_min_version := Some v\<rparr>"
| "set_tls (TlsMaxVersion v) c = c\<lparr>cs_tls_max_version := Some v\<rparr>"
| "set_tls (TlsInfoOn v) c = c\<lparr>cs_tls_info := v\<rparr>"
| "set_tls (TlsSessionCacheOf s) c = c\<lparr>cs_tls_session_cache := Some s\<rparr>"
| "set_tls (TlsOptionsOf x) c = c\<lparr>cs_tls_options := x\<rparr>"

datatype dns_op =
    NoHickoryDns
  | ResolveTo string socket_addr
  | ResolveToAddrs string "socket_addr list"
  | ResolveBy resolver

fun set_dns :: "dns_op \<Rightarrow> ('n, 'o, 'h1, 'h2) client_settings \<Rightarrow> ('n, 'o, 'h1, 'h2) client_settings" where
  "set_dns NoHickoryDns c = c\<lparr>cs_hickory_dns := False\<rparr>"
| "set_dns (ResolveToAddrs d addrs) c = c\<lparr>cs_dns_overrides := hm_insert d addrs (cs_dns_overrides c)\<rparr>"
| "set_dns (ResolveTo d addr) c = c\<lparr>cs_dns_overrides := hm_insert d [addr] (cs_dns_overrides c)\<rparr>"
| "set_dns (ResolveBy r) c = c\<lparr>cs_dns_resolver := Some r\<rparr>"

datatype layer_op = AddLayer nat | AddConnectorLayer nat

fun set_layer :: "layer_op \<Rightarrow> ('n, 'o, 'h1, 'h2) client_settings \<Rightarrow> ('n, 'o, 'h1, 'h2) client_settings" where
  "set_layer (AddLayer l) c = c\<lparr>cs_layers := cs_layers c @ [l]\<rparr>"
| "set_layer (AddConnectorLayer l) c = c\<lparr>cs_connector_layers := cs_connector_layers c @ [l]\<rparr>"

definition client_emulation ::
  "('u, 'm, tls_options, 'h1, 'h2) emulation \<Rightarrow> ('n, 'o, 'h1, 'h2) client_settings \<Rightarrow>
   ('n, 'o, 'h1, 'h2) client_settings option"
where
  "client_emulation em c =
     Option.bind (set_headers (DefaultHeaders (em_headers em)) (set_http (Http1Options (em_http1 em)) (set_tls (TlsOptionsOf (em_tls em)) c)))
       (\<lambda>c1. Option.bind (set_headers (OrigHeaders (em_orig_headers em)) c1)
         (\<lambda>c2. Some (set_http (Http2Options (em_http2 em)) c2)))"

datatype ('n, 'o, 'u, 'm, 'h1, 'h2) client_op =
    HeaderOp header_op
  | EncodingOp encoding_op
  | RouteOp "('n, 'o) route_op"
  | HttpOp "('h1, 'h2) http_op"
  | TcpOp tcp_op
  | AddressOp address_op
  | TlsOp tls_op
  | DnsOp dns_op
  | LayerOp layer_op
  | EmulationOp "('u, 'm, tls_options, 'h1, 'h2) emulation"

fun client_set ::
  "'n proxy_lib \<Rightarrow> ('n, 'o, 'u, 'm, 'h1, 'h2) client_op \<Rightarrow> ('n, 'o, 'h1, 'h2) client_settings \<Rightarrow>
   ('n, 'o, 'h1, 'h2) client_settings option"
where
  "client_set P (HeaderOp x) c = set_headers x c"
| "client_set P (EncodingOp x) c = Some (c\<lparr>cs_accept_encoding := set_encoding x (cs_accept_encoding c)\<rparr>)"
| "client_set P (RouteOp x) c = Some (set_route P x c)"
| "client_set P (HttpOp x) c = Some (set_http x c)"
| "client_set P (TcpOp x) c = Some (set_tcp x c)"
| "client_set P (AddressOp x) c = Some (set_address x c)"
| "client_set P (TlsOp x) c = Some (set_tls x c)"
| "client_set P (DnsOp x) c = Some (set_dns x c)"
| "client_set P (LayerOp x) c = Some (set_layer x c)"
| "client_set P (EmulationOp em) c = client_emulation em c"

fun client_configure ::
  "'n proxy_lib \<Rightarrow> ('n, 'o, 'u, 'm, 'h1, 'h2) client_op list \<Rightarrow> ('n, 'o, 'h1, 'h2) client_settings \<Rightarrow>
   ('n, 'o, 'h1, 'h2) client_settings option"
where
  "client_configure P [] c = Some c"
| "client_configure P (op # ops) c = Option.bind (client_set P op c) (client_configure P ops)"

section \<open>Building the client\<close>

text \<open>What the build takes from its surroundings: the TLS library and the network, the environment
  variables, the two resolvers, and the retry budget.\<close>

record ('c, 'u, 'm, 'b) build_env =
  be_transport :: "('c, 'u, 'm) transport_env"
  be_vars :: "string \<Rightarrow> string option"
  be_gai :: resolver
  be_hickory :: resolver
  be_retry :: "'b retry_lib"

record ('n, 'b, 'o, 'k, 'c, 'b1, 'b2, 'url) client =
  cn_timeout :: timeout_options
  cn_layers :: "nat list"
  cn_config :: config
  cn_accept :: accept_encoding
  cn_retry :: "('b, policy, 'o) retry_policy"
  cn_redirect :: "'url follow_policy"
  cn_http :: "('k, 'c, 'b1, 'b2) http_client"
  cn_transport :: "'n transport"
  cn_connect_timeout :: "nat option"
  cn_connector_layers :: "nat list"
  cn_resolver :: resolver

definition build_resolver :: "('c, 'u, 'm, 'b) build_env \<Rightarrow> ('n, 'o, 'h1, 'h2) client_settings \<Rightarrow> resolver" where
  "build_resolver E c =
     (let r = (case cs_dns_resolver c of
                 Some r \<Rightarrow> r
               | None \<Rightarrow> if cs_hickory_dns c then be_hickory E else be_gai E);
          r' = (if cs_dns_overrides c \<noteq> [] then resolve_with_overrides (cs_dns_overrides c) r else r)
      in dyn_resolve r')"

definition version_alpn :: "http_version_pref \<Rightarrow> string option" where
  "version_alpn p = (case p of PrefAll \<Rightarrow> None | PrefHttp2 \<Rightarrow> Some alpn_http2 | PrefHttp1 \<Rightarrow> Some alpn_http1)"

definition build_tls :: "('n, 'o, 'h1, 'h2) client_settings \<Rightarrow> tls_builder \<Rightarrow> tls_builder" where
  "build_tls c =
     tls_builder_session_store (cs_tls_session_cache c) \<circ>
     tls_builder_cert_verification (cs_tls_cert_verification c) \<circ>
     tls_builder_verify_hostname (cs_tls_verify_hostname c) \<circ>
     tls_builder_tls_sni (cs_tls_sni c) \<circ>
     tls_builder_min_version (cs_tls_min_version c) \<circ>
     tls_builder_max_version (cs_tls_max_version c) \<circ>
     tls_builder_identity (cs_tls_identity c) \<circ>
     tls_builder_cert_store (cs_tls_cert_store c) \<circ>
     tls_builder_keylog (cs_tls_keylog c) \<circ>
     tls_builder_alpn_protocol (version_alpn (cs_http_version_pref c))"

definition build_http :: "('n, 'o, 'h1, 'h2) client_settings \<Rightarrow> tcp_options \<Rightarrow> tcp_options" where
  "build_http c =
     connector_set_local_addresses (sb_ipv4 (cs_socket_bind c)) (sb_ipv6 (cs_socket_bind c)) \<circ>
     (case sb_interface (cs_socket_bind c) of Some i \<Rightarrow> connector_set_interface i | None \<Rightarrow> id) \<circ>
     set_tcp_user_timeout (cs_tcp_user_timeout c) \<circ>
     set_happy_eyeballs_timeout (cs_tcp_happy_eyeballs_timeout c) \<circ>
     set_recv_buffer_size (cs_tcp_recv_buffer_size c) \<circ>
     set_send_buffer_size (cs_tcp_send_buffer_size c) \<circ>
     set_nodelay (cs_tcp_nodelay c) \<circ>
     set_connect_timeout (cs_connect_timeout c) \<circ>
     set_linger (cs_tcp_linger c) \<circ>
     set_reuse_address (cs_tcp_reuse_address c) \<circ>
     set_keepalive_retries (cs_tcp_keepalive_retries c) \<circ>
     set_keepalive_interval (cs_tcp_keepalive_interval c) \<circ>
     set_keepalive (cs_tcp_keepalive c) \<circ>
     enforce_http False"

definition build_connector :: "('n, 'o, 'h1, 'h2) client_settings \<Rightarrow> 'n matcher list \<Rightarrow> 'n connector_builder" where
  "build_connector c proxies =
     with_http (build_http c) (with_tls (build_tls c)
       (connector_tcp_nodelay (cs_tcp_nodelay c) (connector_tls_info (cs_tls_info c)
         (connector_timeout (cs_connect_timeout c) (connector_builder_new proxies)))))"

text \<open>\<open>b1\<close> and \<open>b2\<close> are the default builders of the two protocols and \<open>opt1\<close>, \<open>opt2\<close> their \<^verbatim>\<open>options\<close>.\<close>

definition build_pooled ::
  "('k, 'c, 't idle list) lru_lib \<Rightarrow> 'b1 \<Rightarrow> 'b2 \<Rightarrow> ('h1 \<Rightarrow> 'b1 \<Rightarrow> 'b1) \<Rightarrow> ('h2 \<Rightarrow> 'b2 \<Rightarrow> 'b2) \<Rightarrow>
   ('n, 'o, 'h1, 'h2) client_settings \<Rightarrow> ('c, 'k, 'b1, 'b2) http_client"
where
  "build_pooled M b1 b2 opt1 opt2 c =
     builder_build M (builder_pool_max_size (cs_pool_max_size c)
       (builder_pool_max_idle (cs_pool_max_idle_per_host c)
         (builder_pool_idle_timeout (cs_pool_idle_timeout c)
           (builder_pool_timer True (builder_http1_options opt1 (cs_http1_options c)
             (builder_http2_only (cs_http_version_pref c = PrefHttp2)
               (builder_http2_options opt2 (cs_http2_options c)
                 (builder_cookie_store (cs_cookie_store c) (builder_new b1 b2)))))))))"

definition client_build ::
  "'n proxy_lib \<Rightarrow> ('c, 'u, 'm, 'b) build_env \<Rightarrow> ('v, 'k, 't idle list) lru_lib \<Rightarrow> 'b1 \<Rightarrow> 'b2 \<Rightarrow>
   ('h1 \<Rightarrow> 'b1 \<Rightarrow> 'b1) \<Rightarrow> ('h2 \<Rightarrow> 'b2 \<Rightarrow> 'b2) \<Rightarrow> ('n, 'o, 'h1, 'h2) client_settings \<Rightarrow>
   (error, ('n, 'b, 'o, 'k, 'v, 'b1, 'b2, 'url) client) result"
where
  "client_build P E M b1 b2 opt1 opt2 c =
     (case cs_error c of
        Some e \<Rightarrow> Inl e
      | None \<Rightarrow>
          (let proxies = cs_proxies c @ (if cs_auto_sys_proxy c then [matcher_system P (be_vars E)] else [])
           in case connector_build (be_transport E) (build_connector c proxies) (cs_tls_options c) of
                Inl e \<Rightarrow> Inl e
              | Inr (t, timeout) \<Rightarrow>
                  Inr \<lparr>cn_timeout = cs_timeout_options c, cn_layers = cs_layers c,
                       cn_config = config_new (cs_https_only c) (cs_headers c) (cs_orig_headers c),
                       cn_accept = cs_accept_encoding c,
                       cn_retry = retry_policy_new (be_retry E) (cs_retry_policy c),
                       cn_redirect = with_https_only (cs_https_only c) (with_referer (cs_referer c)
                         (follow_new (cs_redirect_policy c))),
                       cn_http = build_pooled M b1 b2 opt1 opt2 c, cn_transport = t, cn_connect_timeout = timeout,
                       cn_connector_layers = cs_connector_layers c, cn_resolver = build_resolver E c\<rparr>))"

section \<open>Well-formed configurations\<close>

definition settings_ok :: "('n, 'o, 'h1, 'h2) client_settings \<Rightarrow> bool" where
  "settings_ok c \<longleftrightarrow>
     hdr_wf (cs_headers c) \<and> hdr_wf (cs_orig_headers c) \<and> (\<forall>e. cs_error c = Some e \<longrightarrow> is_builder e)"

text \<open>What holds of the arguments because of their types.\<close>

fun client_op_ok :: "('n, 'o, 'u, 'm, 'h1, 'h2) client_op \<Rightarrow> bool" where
  "client_op_ok (HeaderOp (DefaultHeaders h)) \<longleftrightarrow> hdr_wf h"
| "client_op_ok (HeaderOp (OrigHeaders h)) \<longleftrightarrow> hdr_wf h"
| "client_op_ok (EmulationOp em) \<longleftrightarrow> hdr_wf (em_headers em) \<and> hdr_wf (em_orig_headers em)"
| "client_op_ok _ \<longleftrightarrow> True"

lemma settings_ok_new: "settings_ok client_builder_new"
  by (simp add: settings_ok_def client_builder_new_def hdr_wf_def)

lemma set_headers_ok:
  assumes "settings_ok c" "client_op_ok (HeaderOp x)"
  obtains c' where "set_headers x c = Some c'" "settings_ok c'"
proof (cases x)
  case (UserAgent v)
  with assms(1) that show thesis
    by (cases v) (auto simp: settings_ok_def is_builder_def err_builder_def err_new_def intro: hdr_wf_insert)
next
  case (DefaultHeaders h)
  then obtain h' where "replace_headers (cs_headers c) h = Some h'" "hdr_wf h'"
    using assms replace_headers_wf [of "cs_headers c" h] by (auto simp: settings_ok_def)
  with DefaultHeaders assms(1) that show thesis by (simp add: settings_ok_def)
next
  case (OrigHeaders h)
  then obtain h' where "replace_headers (cs_orig_headers c) h = Some h'" "hdr_wf h'"
    using assms replace_headers_wf [of "cs_orig_headers c" h] by (auto simp: settings_ok_def)
  with OrigHeaders assms(1) that show thesis by (simp add: settings_ok_def orig_extend_def)
qed (use assms that in \<open>simp_all add: settings_ok_def\<close>)

lemma set_simple_ok:
  "settings_ok c \<Longrightarrow> settings_ok (set_route P r c)" "settings_ok c \<Longrightarrow> settings_ok (set_http h c)"
  "settings_ok c \<Longrightarrow> settings_ok (set_tcp t c)" "settings_ok c \<Longrightarrow> settings_ok (set_address a c)"
  "settings_ok c \<Longrightarrow> settings_ok (set_tls s c)" "settings_ok c \<Longrightarrow> settings_ok (set_dns d c)"
  "settings_ok c \<Longrightarrow> settings_ok (set_layer l c)"
  unfolding settings_ok_def
  apply (cases r; simp)
  apply (cases h; simp)
  apply (cases t; simp)
  apply (cases a; simp)
  apply (cases s; simp)
  apply (cases d; simp)
  apply (cases l; simp)
  done

lemma client_set_ok:
  assumes "settings_ok c" "client_op_ok op"
  obtains c' where "client_set P op c = Some c'" "settings_ok c'"
proof (cases op)
  case (HeaderOp x)
  with assms that show thesis using set_headers_ok [of c x] by (metis client_set.simps(1))
next
  case (EncodingOp x)
  with assms that show thesis by (simp add: settings_ok_def)
next
  case (EmulationOp em)
  let ?c = "set_http (Http1Options (em_http1 em)) (set_tls (TlsOptionsOf (em_tls em)) c)"
  have "settings_ok ?c" using assms(1) by (intro set_simple_ok)
  then obtain c1 where c1: "set_headers (DefaultHeaders (em_headers em)) ?c = Some c1" "settings_ok c1"
    using set_headers_ok [of ?c "DefaultHeaders (em_headers em)"] assms(2) EmulationOp by auto
  then obtain c2 where c2: "set_headers (OrigHeaders (em_orig_headers em)) c1 = Some c2" "settings_ok c2"
    using set_headers_ok [of c1 "OrigHeaders (em_orig_headers em)"] assms(2) EmulationOp by auto
  show thesis
    by (rule that [of "set_http (Http2Options (em_http2 em)) c2"])
      (use EmulationOp c1 c2 in \<open>simp_all add: client_emulation_def set_simple_ok del: set_http.simps set_tls.simps set_headers.simps\<close>)
qed (use assms that in \<open>simp_all add: set_simple_ok\<close>)

lemma client_configure_ok:
  assumes "settings_ok c" "list_all client_op_ok ops"
  shows "\<exists>c'. client_configure P ops c = Some c' \<and> settings_ok c'"
  using assms
proof (induction ops arbitrary: c)
  case (Cons op ops)
  then obtain c1 where "client_set P op c = Some c1" "settings_ok c1"
    using client_set_ok [of c op P] by auto
  with Cons show ?case by simp
qed simp

section \<open>What a built client is\<close>

lemma build_tls_fields [simp]:
  "tb_alpn (build_tls c b) = version_alpn (cs_http_version_pref c)"
  "tb_max_version (build_tls c b) = cs_tls_max_version c" "tb_min_version (build_tls c b) = cs_tls_min_version c"
  "tb_sni (build_tls c b) = cs_tls_sni c" "tb_verify_hostname (build_tls c b) = cs_tls_verify_hostname c"
  "tb_identity (build_tls c b) = cs_tls_identity c" "tb_cert_store (build_tls c b) = cs_tls_cert_store c"
  "tb_cert_verification (build_tls c b) = cs_tls_cert_verification c" "tb_keylog (build_tls c b) = cs_tls_keylog c"
  by (simp_all add: build_tls_def tls_builder_session_store_def tls_builder_cert_verification_def
      tls_builder_verify_hostname_def tls_builder_tls_sni_def tls_builder_min_version_def tls_builder_max_version_def
      tls_builder_identity_def tls_builder_cert_store_def tls_builder_keylog_def tls_builder_alpn_protocol_def)

lemma build_http_default:
  "build_http c tcp_options_default =
     \<lparr>tcp_enforce_http = False, tcp_connect_timeout = cs_connect_timeout c,
      tcp_happy_eyeballs = cs_tcp_happy_eyeballs_timeout c, tcp_nodelay = cs_tcp_nodelay c,
      tcp_reuse_address = cs_tcp_reuse_address c, tcp_linger = cs_tcp_linger c,
      tcp_send_buffer = cs_tcp_send_buffer_size c, tcp_recv_buffer = cs_tcp_recv_buffer_size c,
      tcp_user_timeout = cs_tcp_user_timeout c,
      tcp_keepalive = \<lparr>ka_time = cs_tcp_keepalive c, ka_interval = cs_tcp_keepalive_interval c,
                       ka_retries = cs_tcp_keepalive_retries c\<rparr>,
      tcp_bind = cs_socket_bind c\<rparr>"
proof -
  obtain i a4 a6 where b: "cs_socket_bind c = \<lparr>sb_interface = i, sb_ipv4 = a4, sb_ipv6 = a6\<rparr>"
    by (cases "cs_socket_bind c") simp
  show ?thesis
    by (cases i; cases a4; cases a6)
      (simp_all add: b build_http_def connector_set_local_addresses_def connector_set_interface_def
        set_tcp_user_timeout_def set_happy_eyeballs_timeout_def set_recv_buffer_size_def set_send_buffer_size_def
        set_nodelay_def set_connect_timeout_def set_linger_def set_reuse_address_def set_keepalive_retries_def
        set_keepalive_interval_def set_keepalive_def enforce_http_def tcp_options_default_def
        socket_bind_default_def set_local_addresses_def set_interface_def)
qed

lemma build_connector_fields [simp]:
  "cb_tls (build_connector c ps) = build_tls c tls_builder_new"
  "cb_http (build_connector c ps) = build_http c tcp_options_default"
  "cb_proxies (build_connector c ps) = ps" "cb_timeout (build_connector c ps) = cs_connect_timeout c"
  by (simp_all add: build_connector_def with_http_def with_tls_def connector_tcp_nodelay_def connector_tls_info_def
      connector_timeout_def connector_builder_new_def)

lemma client_build_Inr:
  assumes "client_build P E M b1 b2 opt1 opt2 c = Inr cl"
  shows "\<exists>ps. connector_build (be_transport E) (build_connector c ps) (cs_tls_options c) =
      Inr (cn_transport cl, cn_connect_timeout cl)"
    "cn_config cl = config_new (cs_https_only c) (cs_headers c) (cs_orig_headers c)"
    "cn_redirect cl = client_redirect_policy (cs_redirect_policy c) (cs_referer c) (cs_https_only c)"
    "cn_retry cl = retry_policy_new (be_retry E) (cs_retry_policy c)"
    "cn_timeout cl = cs_timeout_options c" "cn_accept cl = cs_accept_encoding c"
    "cn_http cl = build_pooled M b1 b2 opt1 opt2 c"
  using assms
  by (auto simp: client_build_def client_redirect_policy_def Let_def split: option.split_asm sum.split_asm)

lemma client_build_Inl:
  "client_build P E M b1 b2 opt1 opt2 c = Inl e \<Longrightarrow>
   cs_error c = Some e \<or> (\<exists>ps. connector_build (be_transport E) (build_connector c ps) (cs_tls_options c) = Inl e)"
  by (auto simp: client_build_def Let_def split: option.split_asm sum.split_asm)

section \<open>Certificate verification\<close>

fun keeps_verification :: "('n, 'o, 'u, 'm, 'h1, 'h2) client_op \<Rightarrow> bool" where
  "keeps_verification (TlsOp (TlsCertVerification v)) = v"
| "keeps_verification (TlsOp (TlsVerifyHostname v)) = v"
| "keeps_verification _ = True"

definition verification_on :: "('n, 'o, 'h1, 'h2) client_settings \<Rightarrow> bool" where
  "verification_on c \<longleftrightarrow> cs_tls_cert_verification c \<and> cs_tls_verify_hostname c"

lemma set_headers_verification:
  assumes "set_headers x c = Some c'"
  shows "verification_on c' = verification_on c"
  using assms
proof (cases x)
  case (UserAgent v)
  with assms show ?thesis by (cases v) (auto simp: verification_on_def)
qed (auto simp: verification_on_def)

lemma client_emulation_verification: "client_emulation em c = Some c' \<Longrightarrow> verification_on c' = verification_on c"
  by (auto simp: client_emulation_def verification_on_def Option.bind_eq_Some_conv)

lemma set_other_verification:
  "verification_on (set_route P r c) = verification_on c" "verification_on (set_http h c) = verification_on c"
  "verification_on (set_tcp t c) = verification_on c" "verification_on (set_address a c) = verification_on c"
  "verification_on (set_dns d c) = verification_on c" "verification_on (set_layer l c) = verification_on c"
  unfolding verification_on_def
  apply (cases r; simp)
  apply (cases h; simp)
  apply (cases t; simp)
  apply (cases a; simp)
  apply (cases d; simp)
  apply (cases l; simp)
  done

lemma client_set_verification:
  assumes "client_set P op c = Some c'" "keeps_verification op" "verification_on c"
  shows "verification_on c'"
proof (cases op)
  case (TlsOp x)
  with assms show ?thesis by (cases x) (auto simp: verification_on_def)
next
  case (EncodingOp x)
  with assms show ?thesis by (auto simp: verification_on_def)
qed (use assms in \<open>auto simp: set_other_verification set_headers_verification client_emulation_verification\<close>)

lemma client_configure_verification:
  "client_configure P ops c = Some c' \<Longrightarrow> list_all keeps_verification ops \<Longrightarrow> verification_on c \<Longrightarrow> verification_on c'"
  by (induction ops arbitrary: c) (auto simp: Option.bind_eq_Some_conv intro: client_set_verification)

lemma verification_on_new [simp]: "verification_on client_builder_new"
  by (simp add: verification_on_def client_builder_new_def)

text \<open>Configuring a client never panics, and building it fails only with the error of a bad argument or one of the TLS
  library.\<close>

lemma connector_build_Inl: "connector_build env b opts = Inl e \<Longrightarrow> is_tls e"
  by (simp add: connector_build_def tls_build_def Let_def is_tls_def err_tls_def err_new_def
      split: sum.split_asm option.split_asm) (auto split: prod.split_asm)

theorem client_builder_errors:
  assumes "list_all client_op_ok ops"
  shows "\<exists>c. client_configure P ops client_builder_new = Some c \<and>
    (\<forall>e. client_build P E M b1 b2 opt1 opt2 c = Inl e \<longrightarrow> is_builder e \<or> is_tls e)"
proof -
  obtain c where c: "client_configure P ops client_builder_new = Some c" "settings_ok c"
    using client_configure_ok [OF settings_ok_new assms] by blast
  have "is_builder e \<or> is_tls e" if "client_build P E M b1 b2 opt1 opt2 c = Inl e" for e
    using client_build_Inl [OF that] connector_build_Inl c(2) by (auto simp: settings_ok_def)
  with c(1) show ?thesis by blast
qed

text \<open>C9: a client checks whom it talks to.  However a client is configured, unless one of the calls switches the
  verification of certificates or of host names off, every \<^verbatim>\<open>https\<close> connection it opens, on any path and with any options
  a request brings, is TLS to the host of the URI with certificate and host name verified.\<close>

theorem clients_verify_tls:
  assumes "client_configure P ops client_builder_new = Some c" "list_all keeps_verification ops"
    and "client_build P E M b1 b2 opt1 opt2 c = Inr cl"
    and "connect_auto P env (cn_transport cl) d = Some (Inr co)" "is_https (cd_uri d)"
    and "\<And>ic. intercepted_by P (cn_transport cl) d = Some (Proxied ic) \<Longrightarrow> socks_mode (ic_uri ic) = None \<Longrightarrow>
       is_http (ic_uri ic) \<or> is_https (ic_uri ic)"
  shows "\<exists>ssl inner host. co_stream co = TlsIo ssl inner \<and> uri_host (cd_uri d) = Some host \<and>
    ssl_host ssl = normalize_host host \<and> verify_mode (ssl_context ssl) = [True] \<and> ssl_verify_hostname ssl"
proof -
  have v: "verification_on c" using client_configure_verification [OF assms(1,2)] by simp
  from client_build_Inr(1) [OF assms(3)] obtain ps
    where b: "connector_build (be_transport E) (build_connector c ps) (cs_tls_options c) =
      Inr (cn_transport cl, cn_connect_timeout cl)" ..
  have "secured (build_tls c tls_builder_new) (tp_http (cn_transport cl)) (cd_uri d)
      (intercepted_by P (cn_transport cl) d) (co_stream co)"
    using conjunct1 [OF connect_auto_path [OF b assms(4) disjI2 [OF assms(5)] assms(6)]]
    unfolding if_P [OF assms(5)] build_connector_fields .
  with v show ?thesis by (auto simp: secured_def verifies_def verification_on_def)
qed

section \<open>Overridden names and limits\<close>

text \<open>The port of an overriding address is used when the URI names none.\<close>

theorem override_port_used:
  assumes "uri_host u = Some h" "uri_port u = None" "uri_scheme u = Some ''http''"
    "try_parse (strip_ipv6_brackets h) 80 = None" "sock_port a \<noteq> 0" "\<not> tcp_enforce_http o1"
  shows "connector_addrs o1 (build_resolver E (set_dns (ResolveTo (strip_ipv6_brackets h) a) c)) u = Inr [a]"
  using assms
  by (simp add: connector_addrs_def get_host_port_def build_resolver_def dyn_resolve_def resolve_with_overrides_def
      hash_simps set_port_def Let_def)

text \<open>A limit of zero is no limit.\<close>

theorem pool_size_zero_unlimited: "cs_pool_max_size (set_http (PoolMaxSize 0) c) = None"
  by simp

section \<open>A concrete client\<close>

type_synonym sample_client_options = "(uri, unit matcher, unit, tls_options, unit, unit) request_options"

definition sample_client_ops :: "(unit, sample_client_options, uri, unit matcher, unit, unit) client_op list" where
  "sample_client_ops = [RouteOp NoProxies, RouteOp (RedirectBy (Limit 5)), HttpOp (HttpsOnly True), TlsOp (TlsSni False)]"

definition sample_build_env :: "(unit, uri, unit matcher, nat) build_env" where
  "sample_build_env =
     \<lparr>be_transport = sample_transport_env, be_vars = (\<lambda>_. None), be_gai = (\<lambda>_. Inr []), be_hickory = (\<lambda>_. Inr []),
      be_retry = sample_retry_lib\<rparr>"

definition sample_settings :: "(unit, sample_client_options, unit, unit) client_settings" where
  "sample_settings =
     client_builder_new\<lparr>cs_auto_sys_proxy := False, cs_redirect_policy := Limit 5, cs_https_only := True, cs_tls_sni := False\<rparr>"

lemma sample_configure: "client_configure sample_proxy_lib sample_client_ops client_builder_new = Some sample_settings"
  by (simp add: sample_client_ops_def sample_settings_def client_builder_new_def)

definition sample_built :: "(error, (unit, nat, sample_client_options, nat, nat option \<times> (nat \<times> nat idle list) list, unit, unit, string) client) result" where
  "sample_built = client_build sample_proxy_lib sample_build_env sample_lru () () (\<lambda>_. id) (\<lambda>_. id) sample_settings"

lemma sample_built_Inr:
  obtains cl where "sample_built = Inr cl" "tp_proxies (cn_transport cl) = []" "tp_nodelay (cn_transport cl)"
proof -
  have "first_failure (\<lambda>_. None) calls = None" for calls by (auto simp: first_failure_def split: option.split prod.split)
  with that show thesis
    by (simp add: sample_built_def client_build_def sample_settings_def client_builder_new_def connector_build_def
        tls_build_def sample_build_env_def sample_transport_env_def build_connector_def with_http_def with_tls_def
        connector_tcp_nodelay_def connector_tls_info_def connector_timeout_def connector_builder_new_def Let_def)
qed

theorem clients_verify_tls_witness:
  "\<exists>cl co ssl inner. sample_built = Inr cl \<and>
     connect_auto sample_proxy_lib sample_transport_env (cn_transport cl) sample_descriptor = Some (Inr co) \<and>
     co_stream co = TlsIo ssl inner \<and> ssl_host ssl = ''localhost'' \<and> verify_mode (ssl_context ssl) = [True] \<and>
     ssl_verify_hostname ssl"
proof -
  obtain cl where cl: "sample_built = Inr cl" "tp_proxies (cn_transport cl) = []" "tp_nodelay (cn_transport cl)"
    by (rule sample_built_Inr)
  have schemes: "is_https sample_https" "uri_host sample_https = Some ''localhost''" "cd_uri sample_descriptor = sample_https"
    "cd_bind sample_descriptor = None" "cd_tls sample_descriptor = None" "cd_proxy sample_descriptor = None"
    by (simp_all add: sample_https_def localhost_uri_def is_https_def uri_host_def sample_descriptor_def descriptor_new_def)
  have i: "intercepted_by sample_proxy_lib (cn_transport cl) sample_descriptor = None"
    by (simp add: intercepted_by_def schemes cl(2))
  have free: "conf_failure (\<lambda>_. None) calls = None" for calls by (simp add: conf_failure_def)
  have "\<exists>co. connect_auto sample_proxy_lib sample_transport_env (cn_transport cl) sample_descriptor = Some (Inr co)"
    using schemes cl(3)
    by (simp add: connect_auto_def i connect_auto_proxy_def build_https_connector_def https_call_descriptor_def dial_def
        https_call_established_def setup_ssl2_def perform_handshake_def restore_nagle_def sample_transport_env_def free
        and_then_def map_err_def immediately_def Let_def)
  then obtain co where co: "connect_auto sample_proxy_lib sample_transport_env (cn_transport cl) sample_descriptor = Some (Inr co)"
    by blast
  have keep: "list_all keeps_verification sample_client_ops" by (simp add: sample_client_ops_def)
  have "\<exists>ssl inner host. co_stream co = TlsIo ssl inner \<and> uri_host (cd_uri sample_descriptor) = Some host \<and>
      ssl_host ssl = normalize_host host \<and> verify_mode (ssl_context ssl) = [True] \<and> ssl_verify_hostname ssl"
    using clients_verify_tls [OF sample_configure keep cl(1) [unfolded sample_built_def] co] schemes i by simp
  moreover have "normalize_host ''localhost'' = ''localhost''" by code_simp
  ultimately show ?thesis using cl(1) co schemes by auto
qed

end
