(* ===== verification/Client_Stack.thy ===== *)
theory Client_Stack
  imports Client_Builder
begin

text \<open>
  A request on its way through the client: the decompression layer (\<^verbatim>\<open>src/src/client/layer/decoder.rs\<close>), the stack of
  services that \<^verbatim>\<open>ClientBuilder::build\<close> composes (\<^verbatim>\<open>src/src/client.rs\<close>), the future a caller awaits
  (\<^verbatim>\<open>client/future.rs\<close>), and the response (\<^verbatim>\<open>client/response.rs\<close>).

  \<^verbatim>\<open>tower-http\<close>'s decompression service is a parameter, the request it passes on.  The stack is a function of what the
  polls of the innermost service return, for each attempt of the retry layer, whose loop is that of \<^verbatim>\<open>tower\<close>'s documentation,
  as in \<open>retry_exec\<close>.  The timeout layer only ends it early and is composed in \<open>client_poll\<close>.
\<close>

section \<open>Decompression\<close>

definition ae_is_enabled :: "accept_encoding \<Rightarrow> bool" where
  "ae_is_enabled a \<longleftrightarrow> ae_gzip a \<or> ae_deflate a \<or> ae_brotli a \<or> ae_zstd a"

record decompression =
  dc_decoder :: accept_encoding
  dc_enabled :: bool

definition decompression_layer :: "accept_encoding \<Rightarrow> decompression" where
  "decompression_layer a = \<lparr>dc_decoder = a, dc_enabled = ae_is_enabled a\<rparr>"

text \<open>\<open>dec\<close> is the service of \<^verbatim>\<open>tower-http\<close> with the given encodings: it announces them unless the request has an
  \<^verbatim>\<open>Accept-Encoding\<close> header.\<close>

type_synonym 'o decoder = "accept_encoding \<Rightarrow> (policy, 'o) request \<Rightarrow> (policy, 'o) request"

definition decompression_call ::
  "'o decoder \<Rightarrow> decompression \<Rightarrow> (policy, 'o) request \<Rightarrow> decompression \<times> (policy, 'o) request"
where
  "decompression_call dec d req =
     (let (d', enabled) =
            (case rc_get (ext_accept_encoding (rq_ext req)) of
               Some a \<Rightarrow> (d\<lparr>dc_decoder := a\<rparr>, ae_is_enabled a)
             | None \<Rightarrow> (d, dc_enabled d));
          req' = (if enabled \<and> hdr_contains (rq_headers req) ''range''
                  then req\<lparr>rq_headers := hdr_insert ''accept-encoding'' \<lparr>hv_bytes = ''identity'', hv_sensitive = False\<rparr>
                         (rq_headers req)\<rparr>
                  else req)
      in (d', dec (dc_decoder d') req'))"

definition decoder_laws :: "'o decoder \<Rightarrow> bool" where
  "decoder_laws dec \<longleftrightarrow>
     (\<forall>a req. rq_method (dec a req) = rq_method req \<and> rq_uri (dec a req) = rq_uri req \<and>
        rq_version (dec a req) = rq_version req \<and> rq_ext (dec a req) = rq_ext req \<and>
        (\<forall>n. n \<noteq> ''accept-encoding'' \<or> hdr_contains (rq_headers req) n \<longrightarrow>
           hdr_get_all (rq_headers (dec a req)) n = hdr_get_all (rq_headers req) n))"

section \<open>Responses\<close>

text \<open>\<open>rs_uri\<close> of a response is the extension \<^verbatim>\<open>RequestUri\<close>.\<close>

record api_response =
  ar_uri :: uri
  ar_response :: response

definition response_new :: "response \<Rightarrow> uri \<Rightarrow> api_response" where
  "response_new res u =
     \<lparr>ar_uri = (case rs_uri res of Some v \<Rightarrow> v | None \<Rightarrow> u), ar_response = res\<lparr>rs_uri := None\<rparr>\<rparr>"

definition no_url_provided :: uri where
  "no_url_provided =
     \<lparr>uri_scheme = Some ''http'',
      uri_authority = Some \<lparr>auth_str = ''no.url.provided.local'', auth_host = ''no.url.provided.local'', auth_port = None\<rparr>,
      uri_pq = Some (''/'', None)\<rparr>"

definition response_from_http :: "response \<Rightarrow> api_response" where
  "response_from_http res =
     \<lparr>ar_uri = (case rs_uri res of Some v \<Rightarrow> v | None \<Rightarrow> no_url_provided), ar_response = res\<lparr>rs_uri := None\<rparr>\<rparr>"

definition response_into_http :: "api_response \<Rightarrow> response" where
  "response_into_http r = (ar_response r)\<lparr>rs_uri := Some (ar_uri r)\<rparr>"

text \<open>The two forms of \<^verbatim>\<open>error_for_status\<close> differ in whether the reason phrase is moved or copied.\<close>

definition error_for_status :: "api_response \<Rightarrow> string option \<Rightarrow> (error, api_response) result" where
  "error_for_status r reason =
     (let status = rs_status (ar_response r)
      in if 400 \<le> status \<and> status < 500 \<or> 500 \<le> status \<and> status < 600
         then Inl (err_status_code (ar_uri r) status reason) else Inr r)"

text \<open>Reading a body to its end: the frames of the body, up to an error.\<close>

fun collect_body :: "(error, string) result list \<Rightarrow> (error, string) result" where
  "collect_body [] = Inr []"
| "collect_body (Inl e # fs) = Inl e"
| "collect_body (Inr d # fs) = map_sum id ((@) d) (collect_body fs)"

definition response_bytes :: "api_response \<Rightarrow> (error, string) result list \<Rightarrow> (error, string) result" where
  "response_bytes r frames = map_sum (\<lambda>e. with_uri e (ar_uri r)) id (collect_body frames)"

definition response_json ::
  "(string \<Rightarrow> (error, 'a) result) \<Rightarrow> api_response \<Rightarrow> (error, string) result list \<Rightarrow> (error, 'a) result"
where
  "response_json parse r frames =
     (case collect_body frames of
        Inr full \<Rightarrow> map_sum (\<lambda>e. with_uri (err_decode e) (ar_uri r)) id (parse full)
      | Inl e \<Rightarrow> Inl (with_uri e (ar_uri r)))"

text \<open>\<open>charset\<close> reads the parameter of the media type and \<open>for_label\<close> finds an encoding, a function on bytes.\<close>

definition text_with_charset ::
  "(string \<Rightarrow> string option) \<Rightarrow> (string \<Rightarrow> (string \<Rightarrow> string) option) \<Rightarrow> (string \<Rightarrow> string) \<Rightarrow> string \<Rightarrow>
   api_response \<Rightarrow> (error, string) result list \<Rightarrow> (error, string) result"
where
  "text_with_charset charset for_label utf8 default_encoding r frames =
     (let name = (case Option.bind (hdr_get (rs_headers (ar_response r)) ''content-type'') (\<lambda>v. charset (hv_bytes v)) of
                    Some n \<Rightarrow> n | None \<Rightarrow> default_encoding);
          decode = (case for_label name of Some f \<Rightarrow> f | None \<Rightarrow> utf8)
      in map_sum id decode (response_bytes r frames))"

definition response_text ::
  "(string \<Rightarrow> string option) \<Rightarrow> (string \<Rightarrow> (string \<Rightarrow> string) option) \<Rightarrow> (string \<Rightarrow> string) \<Rightarrow>
   api_response \<Rightarrow> (error, string) result list \<Rightarrow> (error, string) result"
where
  "response_text charset for_label utf8 r frames = text_with_charset charset for_label utf8 ''utf-8'' r frames"

section \<open>The future of a request\<close>

datatype pending_future =
    PendingRequest "uri option"
  | PendingError "error option"

definition client_pending :: "('p, 'o) request \<times> body \<Rightarrow> pending_future" where
  "client_pending req = PendingRequest (Some (rq_uri (fst req)))"

definition rb_send :: "('p, 'o) request_builder \<Rightarrow> pending_future" where
  "rb_send b =
     (case b of
        Inr req \<Rightarrow> client_pending (request_into_http req)
      | Inl e \<Rightarrow> PendingError (Some e))"

fun downcast_request :: "error \<Rightarrow> error" where
  "downcast_request (WreqError k src u) = WreqError k src u"
| "downcast_request e = err_request e"

text \<open>\<open>None\<close> is the panic of a poll after completion.\<close>

fun pending_poll ::
  "pending_future \<Rightarrow> (error, response \<times> 'b) result poll \<Rightarrow> (pending_future \<times> (error, api_response \<times> 'b) result poll) option"
where
  "pending_poll (PendingError (Some e)) _ = Some (PendingError None, Ready (Inl e))"
| "pending_poll (PendingError None) _ = None"
| "pending_poll (PendingRequest u) NotReady = Some (PendingRequest u, NotReady)"
| "pending_poll (PendingRequest None) (Ready _) = None"
| "pending_poll (PendingRequest (Some u)) (Ready (Inr (res, body))) =
     Some (PendingRequest None, Ready (Inr (response_new res u, body)))"
| "pending_poll (PendingRequest (Some u)) (Ready (Inl e)) =
     (let err = downcast_request e
      in Some (PendingRequest None, Ready (Inl (if err_uri err = None then with_uri err u else err))))"

section \<open>The stack of services\<close>

text \<open>The retry layer drives the redirect layer: attempt \<open>n\<close> sees the polls \<open>polls n\<close> of the innermost service, and
  \<open>other n\<close> is what other requests did to the shared budget.  The policy of the redirect service, which a request may
  replace, stays for the next attempt.  The result is the list of requests given to the innermost service, and the outcome
  of the last attempt.\<close>

function stack_run ::
  "'b retry_lib \<Rightarrow> 'u redirect_lib \<Rightarrow> (nat \<Rightarrow> (error, response) result poll list) \<Rightarrow> (nat \<Rightarrow> 'b \<Rightarrow> 'b) \<Rightarrow> nat \<Rightarrow>
   ('b, policy, 'o) retry_policy \<Rightarrow> 'u follow_policy \<Rightarrow> (policy, 'o) full_request \<Rightarrow>
   (policy, 'o) full_request list \<times> 'o redirect_out"
where
  "stack_run L R polls other n pol fp req =
     (let (sent, out) = redirect_exec R fp (fst req) (snd req) (polls n);
          fp' = fst (redirect_call R fp (fst req) (snd req))
      in case out of
           Resolved res \<Rightarrow>
             (case clone_request pol req of
                None \<Rightarrow> (sent, out)
              | Some copy \<Rightarrow>
                  (let r = retry L (pol\<lparr>rp_budget := map_option (other n) (rp_budget pol)\<rparr>) copy res
                   in if snd r
                      then (case stack_run L R polls other (Suc n) (fst r) fp' copy of
                              (sent', out') \<Rightarrow> (sent @ sent', out'))
                      else (sent, out)))
         | _ \<Rightarrow> (sent, out))"
  by pat_completeness auto
termination
proof (relation "measure (\<lambda>(L, R, polls, other, n, pol, fp, req). rp_max pol - rp_cnt pol)", goal_cases)
  case (2 L R polls other n pol fp req x sent out fp' res copy r)
  then have "retry L (pol\<lparr>rp_budget := map_option (other n) (rp_budget pol)\<rparr>) copy res = (fst r, True)"
    by (metis prod.collapse)
  from retry_again(1,2) [OF this] 2 show ?case
    by (auto simp: clone_request_Some)
qed simp

declare stack_run.simps [simp del]

text \<open>\<open>None\<close> is the panic of the configuration layer.\<close>

definition client_execute ::
  "'b retry_lib \<Rightarrow> 'u redirect_lib \<Rightarrow> 'o decoder \<Rightarrow> ('n, 'b, 'o, 'k, 'c, 'b1, 'b2, 'u) client \<Rightarrow>
   (nat \<Rightarrow> (error, response) result poll list) \<Rightarrow> (nat \<Rightarrow> 'b \<Rightarrow> 'b) \<Rightarrow> (policy, 'o) full_request \<Rightarrow>
   ((policy, 'o) full_request list \<times> 'o redirect_out) option"
where
  "client_execute L R dec cl polls other req =
     (case config_call (cn_config cl) (fst req) of
        None \<Rightarrow> None
      | Some (Inl e) \<Rightarrow> Some ([], Resolved (Inl e))
      | Some (Inr req1) \<Rightarrow>
          (let req2 = snd (decompression_call dec (decompression_layer (cn_accept cl)) req1)
           in Some (stack_run L R polls other 0 (cn_retry cl) (cn_redirect cl) (req2, snd req))))"

text \<open>One poll of the whole: the timeouts armed when the request was started, around the outcome of the stack.\<close>

definition outcome_poll :: "'o redirect_out \<Rightarrow> (error, response) result poll" where
  "outcome_poll out = (case out of Resolved r \<Rightarrow> Ready r | _ \<Rightarrow> NotReady)"

definition client_poll ::
  "('n, 'b, 'o, 'k, 'c, 'b1, 'b2, 'u) client \<Rightarrow> (policy, 'o) full_request \<Rightarrow> nat \<Rightarrow> nat \<Rightarrow> 'o redirect_out \<Rightarrow>
   (pending_future \<times> (error, api_response \<times> timeout_body) result poll) option"
where
  "client_poll cl req start now out =
     pending_poll (client_pending req)
       (timeout_poll (timeout_call (Some (cn_timeout cl)) (fst req) start) now (outcome_poll out))"

section \<open>What reaches the innermost service\<close>

text \<open>Every attempt is a run of the redirect layer under the policy in force.\<close>

definition redirect_chain ::
  "'u redirect_lib \<Rightarrow> bool \<Rightarrow> bool \<Rightarrow> policy \<Rightarrow> (policy, 'o) full_request \<Rightarrow> (policy, 'o) full_request list \<Rightarrow> bool"
where
  "redirect_chain R rf ho q req sent \<longleftrightarrow>
     (\<exists>p evs out. effective_policy p (fst req) = Some q \<and>
        redirect_exec R (client_redirect_policy p rf ho) (fst req) (snd req) evs = (sent, out))"

lemma stack_run_chains:
  assumes "stack_run L R polls other n pol (client_redirect_policy p rf ho) req = (sent, out)"
    and "effective_policy p (fst req) = Some q"
  shows "\<exists>chains. sent = concat chains \<and> length chains \<le> Suc (rp_max pol - rp_cnt pol) \<and>
    list_all (redirect_chain R rf ho q req) chains"
  using assms
proof (induction "rp_max pol - rp_cnt pol" arbitrary: n pol p sent out rule: less_induct)
  case less
  obtain s o' where e: "redirect_exec R (client_redirect_policy p rf ho) (fst req) (snd req) (polls n) = (s, o')" by fastforce
  then have chain: "redirect_chain R rf ho q req s" using less.prems(2) by (auto simp: redirect_chain_def)
  show ?case
  proof (cases "sent = s")
    case True
    then show ?thesis using chain by (intro exI [of _ "[s]"]) simp
  next
    case False
    note run = less.prems(1) [unfolded stack_run.simps [of L R polls other n pol] Let_def e prod.case]
    from run False obtain res copy where o': "o' = Resolved res" and c: "clone_request pol req = Some copy"
      by (auto split: redirect_out.split_asm option.split_asm)
    let ?r = "retry L (pol\<lparr>rp_budget := map_option (other n) (rp_budget pol)\<rparr>) copy res"
    have again: "snd ?r" using run False by (simp add: o' c split: if_split_asm)
    have copy: "copy = req" "rp_cnt pol < rp_max pol" using c by (simp_all add: clone_request_Some)
    have r: "?r = (fst ?r, True)" using again by (metis prod.collapse)
    have cnt: "rp_cnt (fst ?r) = Suc (rp_cnt pol)" "rp_max (fst ?r) = rp_max pol"
      using retry_again(1,2) [OF r] by simp_all
    have fp: "fst (redirect_call R (client_redirect_policy p rf ho) (fst req) (snd req)) = client_redirect_policy q rf ho"
      using redirect_call_policy [OF less.prems(2)] .
    obtain s' where s': "stack_run L R polls other (Suc n) (fst ?r) (client_redirect_policy q rf ho) req = (s', out)"
      "sent = s @ s'"
      using run again by (auto simp: o' c fp copy(1) split: prod.split_asm)
    have "rp_max (fst ?r) - rp_cnt (fst ?r) < rp_max pol - rp_cnt pol" using cnt copy(2) by simp
    from less.hyps [OF this s'(1) effective_policy_again [OF less.prems(2)]] obtain chains where
      "s' = concat chains" "length chains \<le> Suc (rp_max (fst ?r) - rp_cnt (fst ?r))"
      "list_all (redirect_chain R rf ho q req) chains" by blast
    then show ?thesis
      using chain s'(2) cnt copy(2) by (intro exI [of _ "s # chains"]) simp
  qed
qed

lemma chain_schemes:
  assumes "redirect_chain R rf ho q req sent" "decides_now q" "r \<in> set sent"
    and "is_http (rq_uri (fst req)) \<or> is_https (rq_uri (fst req))" "ho \<Longrightarrow> is_https (rq_uri (fst req))"
  shows "(is_http (rq_uri (fst r)) \<or> is_https (rq_uri (fst r))) \<and> (ho \<longrightarrow> is_https (rq_uri (fst r)))"
proof -
  obtain p evs out where p: "effective_policy p (fst req) = Some q"
    and e: "redirect_exec R (client_redirect_policy p rf ho) (fst req) (snd req) evs = (sent, out)"
    using assms(1) by (auto simp: redirect_chain_def)
  obtain j where j: "j < length sent" "r = sent ! j" using assms(3) by (auto simp: in_set_conv_nth)
  show ?thesis
  proof (cases j)
    case 0
    then show ?thesis using exec_first(2) [OF e] j assms(4,5) by auto
  next
    case (Suc i)
    then show ?thesis using exec_schemes [OF e p assms(2), of j] j by simp
  qed
qed

lemma chain_credentials:
  assumes "redirect_chain R rf ho q req sent" "r \<in> set sent" "n \<in> set sensitive_names" "req_values (fst r) n \<noteq> []"
  shows "same_origin (rq_uri (fst r)) (rq_uri (fst req)) \<and> req_values (fst r) n = req_values (fst req) n"
proof -
  obtain p evs out where e: "redirect_exec R (client_redirect_policy p rf ho) (fst req) (snd req) evs = (sent, out)"
    using assms(1) by (auto simp: redirect_chain_def)
  obtain j where j: "j < length sent" "r = sent ! j" using assms(2) by (auto simp: in_set_conv_nth)
  have "n \<noteq> ''referer''" using sensitive_not_payload [OF assms(3)] by simp
  with exec_credentials [OF e, of 0 j n] j assms(3,4) exec_first(2,4) [OF e] show ?thesis by simp
qed

lemma chain_length:
  assumes "redirect_chain R rf ho q req sent"
  shows "q = Limit m \<Longrightarrow> length sent \<le> m + 1" "q = NoRedirect \<Longrightarrow> length sent \<le> 1"
proof -
  obtain p evs out where p: "effective_policy p (fst req) = Some q"
    and e: "redirect_exec R (client_redirect_policy p rf ho) (fst req) (snd req) evs = (sent, out)"
    using assms by (auto simp: redirect_chain_def)
  show "q = Limit m \<Longrightarrow> length sent \<le> m + 1" using exec_limit [OF e] p by simp
  show "q = NoRedirect \<Longrightarrow> length sent \<le> 1" using exec_none [OF e] p by simp
qed

lemma concat_length_le: "list_all (\<lambda>c. length c \<le> k) cs \<Longrightarrow> length (concat cs) \<le> length cs * k"
  by (induction cs) auto

lemma config_call_ext:
  "config_call cf req = Some (Inr req') \<Longrightarrow> ext_redirect (rq_ext req') = ext_redirect (rq_ext req)"
  by (auto simp: config_call_def Let_def rc_take_def Option.bind_eq_Some_conv split: if_split_asm option.split_asm)

lemma decompression_call_props:
  assumes "decoder_laws dec" "snd (decompression_call dec d req) = req'"
  shows "rq_method req' = rq_method req" "rq_uri req' = rq_uri req" "rq_ext req' = rq_ext req"
    "n \<noteq> ''accept-encoding'' \<Longrightarrow> hdr_get_all (rq_headers req') n = hdr_get_all (rq_headers req) n"
  using assms
  by (auto simp: decompression_call_def decoder_laws_def Let_def hash_simps split: option.split_asm if_split_asm)

text \<open>The credentials of a request: its own, or the client's default ones.\<close>

definition caller_values :: "header_map \<Rightarrow> ('p, 'o) request \<Rightarrow> string \<Rightarrow> header_value list" where
  "caller_values defaults req n =
     (if \<not> hdr_contains (rq_headers req) n \<and> rc_fetch (Some True) (ext_default_headers (rq_ext req)) = Some True
      then hdr_get_all defaults n else req_values req n)"

lemma sensitive_not_encoding: "n \<in> set sensitive_names \<Longrightarrow> n \<noteq> ''accept-encoding''"
  by (auto simp: sensitive_names_def)

lemma client_execute_cases:
  assumes "client_build P E M b1 b2 opt1 opt2 c = Inr cl" "decoder_laws dec" "hdr_wf (rq_headers req)"
  obtains (refused) "client_execute L R dec cl polls other (req, body) = Some ([], Resolved (Inl (uri_bad_scheme (rq_uri req))))"
  | (passed) req2 sent out where "client_execute L R dec cl polls other (req, body) = Some (sent, out)"
      "stack_run L R polls other 0 (retry_policy_new (be_retry E) (cs_retry_policy c))
         (client_redirect_policy (cs_redirect_policy c) (cs_referer c) (cs_https_only c)) (req2, body) = (sent, out)"
      "is_http (rq_uri req) \<or> is_https (rq_uri req)" "cs_https_only c \<longrightarrow> is_https (rq_uri req)"
      "rq_uri req2 = rq_uri req" "\<forall>p. effective_policy p req2 = effective_policy p req"
      "\<forall>n \<in> set sensitive_names. req_values req2 n = caller_values (cs_headers c) req n"
proof -
  note b = client_build_Inr [OF assms(1)]
  let ?cf = "config_new (cs_https_only c) (cs_headers c) (cs_orig_headers c)"
  let ?bad = "\<not> (is_http (rq_uri req) \<or> is_https (rq_uri req)) \<or> cs_https_only c \<and> \<not> is_https (rq_uri req)"
  have cf: "cf_https_only ?cf = cs_https_only c" "cf_headers ?cf = cs_headers c" "cf_default_headers ?cf = Some True"
    by (simp_all add: config_new_def)
  show thesis
  proof (cases ?bad)
    case True
    then have "config_call ?cf req = Some (Inl (uri_bad_scheme (rq_uri req)))"
      using config_call_ok [OF assms(3), of ?cf] cf(1) by simp
    then show thesis by (intro refused) (simp add: client_execute_def b)
  next
    case False
    then obtain req1 where r1: "config_call ?cf req = Some (Inr req1)" "rq_uri req1 = rq_uri req"
      "\<forall>n. hdr_get_all (rq_headers req1) n =
         (if \<not> hdr_contains (rq_headers req) n \<and> rc_fetch (Some True) (ext_default_headers (rq_ext req)) = Some True
          then hdr_get_all (cs_headers c) n else hdr_get_all (rq_headers req) n)"
      using config_call_ok [OF assms(3), of ?cf] cf by auto
    define req2 where "req2 = snd (decompression_call dec (decompression_layer (cs_accept_encoding c)) req1)"
    note d = decompression_call_props [OF assms(2) req2_def [symmetric]]
    obtain sent out where run: "stack_run L R polls other 0 (retry_policy_new (be_retry E) (cs_retry_policy c))
         (client_redirect_policy (cs_redirect_policy c) (cs_referer c) (cs_https_only c)) (req2, body) = (sent, out)"
      by fastforce
    show thesis
    proof (rule passed [OF _ run])
      show "client_execute L R dec cl polls other (req, body) = Some (sent, out)"
        using r1(1) run by (simp add: client_execute_def b req2_def)
      show "rq_uri req2 = rq_uri req" using d(2) r1(2) by simp
      show "\<forall>p. effective_policy p req2 = effective_policy p req"
        using d(3) config_call_ext [OF r1(1)] by (simp add: effective_policy_def)
      show "\<forall>n \<in> set sensitive_names. req_values req2 n = caller_values (cs_headers c) req n"
        using d(4) r1(3) sensitive_not_encoding by (auto simp: req_values_def caller_values_def)
    qed (use False in auto)
  qed
qed

lemma client_sends:
  assumes "client_build P E M b1 b2 opt1 opt2 c = Inr cl" "decoder_laws dec" "hdr_wf (rq_headers req)"
    and "effective_policy (cs_redirect_policy c) req = Some q"
  shows "\<exists>sent out. client_execute L R dec cl polls other (req, body) = Some (sent, out) \<and>
    (\<forall>r \<in> set sent.
       (decides_now q \<longrightarrow>
          (is_http (rq_uri (fst r)) \<or> is_https (rq_uri (fst r))) \<and> (cs_https_only c \<longrightarrow> is_https (rq_uri (fst r)))) \<and>
       (\<forall>n \<in> set sensitive_names. req_values (fst r) n \<noteq> [] \<longrightarrow>
          same_origin (rq_uri (fst r)) (rq_uri req) \<and> req_values (fst r) n = caller_values (cs_headers c) req n)) \<and>
    (q = Limit m \<longrightarrow> length sent \<le> (rt_max (cs_retry_policy c) + 1) * (m + 1)) \<and>
    (q = NoRedirect \<longrightarrow> length sent \<le> rt_max (cs_retry_policy c) + 1)"
  using assms(1-3)
proof (cases rule: client_execute_cases [where L = L and R = R and polls = polls and other = other and body = body])
  case refused
  then show ?thesis by simp
next
  case (passed req2 sent out)
  let ?pol = "retry_policy_new (be_retry E) (cs_retry_policy c)"
  have q: "effective_policy (cs_redirect_policy c) (fst (req2, body)) = Some q" using passed(6) assms(4) by simp
  from stack_run_chains [OF passed(2) q] obtain chains where ch: "sent = concat chains"
    "length chains \<le> Suc (rt_max (cs_retry_policy c))"
    "list_all (redirect_chain R (cs_referer c) (cs_https_only c) q (req2, body)) chains"
    by (auto simp: retry_policy_new_def)
  have each: "decides_now q \<Longrightarrow>
       (is_http (rq_uri (fst r)) \<or> is_https (rq_uri (fst r))) \<and> (cs_https_only c \<longrightarrow> is_https (rq_uri (fst r)))"
    "n \<in> set sensitive_names \<Longrightarrow> req_values (fst r) n \<noteq> [] \<Longrightarrow>
       same_origin (rq_uri (fst r)) (rq_uri req) \<and> req_values (fst r) n = caller_values (cs_headers c) req n"
    if r: "r \<in> set sent" for r n
  proof -
    obtain s where s: "redirect_chain R (cs_referer c) (cs_https_only c) q (req2, body) s" "r \<in> set s"
      using r ch(1,3) by (auto simp: list_all_iff)
    show "(is_http (rq_uri (fst r)) \<or> is_https (rq_uri (fst r))) \<and> (cs_https_only c \<longrightarrow> is_https (rq_uri (fst r)))"
      if "decides_now q" using chain_schemes [OF s(1) that s(2)] passed(3-5) by simp
    show "n \<in> set sensitive_names \<Longrightarrow> req_values (fst r) n \<noteq> [] \<Longrightarrow>
       same_origin (rq_uri (fst r)) (rq_uri req) \<and> req_values (fst r) n = caller_values (cs_headers c) req n"
      using chain_credentials [OF s] passed(5,7) by simp
  qed
  have len: "length sent \<le> (rt_max (cs_retry_policy c) + 1) * k"
    if "\<And>s. redirect_chain R (cs_referer c) (cs_https_only c) q (req2, body) s \<Longrightarrow> length s \<le> k" for k
  proof -
    have "list_all (\<lambda>s. length s \<le> k) chains" using ch(3) that by (auto simp: list_all_iff)
    from concat_length_le [OF this] ch(1) have "length sent \<le> length chains * k" by simp
    also have "\<dots> \<le> (rt_max (cs_retry_policy c) + 1) * k" using ch(2) by (simp del: mult_Suc)
    finally show ?thesis .
  qed
  have limit: "q = Limit m \<Longrightarrow> length sent \<le> (rt_max (cs_retry_policy c) + 1) * (m + 1)"
    using len [of "m + 1"] chain_length(1) by metis
  have none: "q = NoRedirect \<Longrightarrow> length sent \<le> rt_max (cs_retry_policy c) + 1"
    using len [of 1] chain_length(2) by (metis mult.right_neutral)
  show ?thesis
    by (intro exI conjI ballI impI) (use passed(1) each limit none in simp_all)
qed

lemma client_sends_from:
  assumes "client_build P E M b1 b2 opt1 opt2 c = Inr cl" "decoder_laws dec" "hdr_wf (rq_headers req)"
    and "client_execute L R dec cl polls other (req, body) = Some (sent, out)" "sent \<noteq> []"
  shows "is_http (rq_uri req) \<or> is_https (rq_uri req)"
  using assms(1-3)
  by (cases rule: client_execute_cases [where L = L and R = R and polls = polls and other = other and body = body])
    (use assms(4,5) in auto)

text \<open>C7: what a client sends, whatever the servers answer and however often an attempt is retried.  A request that leaves
  the stack carries a credential header only at the origin of the caller's request, with the values of the caller or of the
  client's default headers.  With a redirect limit of \<open>m\<close> at most \<open>(max + 1) * (m + 1)\<close> requests are sent, where \<open>max\<close> is the
  limit of the retry policy, and at most \<open>max + 1\<close> when redirects are off.  If the redirect policy decides at once, as the
  limit, the policy that follows none and every custom policy that returns no pending decision do, every request has an
  \<^verbatim>\<open>http\<close> or \<^verbatim>\<open>https\<close> URI, and an \<^verbatim>\<open>https\<close> URI under HTTPS-only; nothing is claimed about the scheme for a custom policy
  that returns a pending decision, which the redirect layer follows without these checks.  No request makes the
  configuration layer panic.\<close>

theorem client_sends_safe:
  assumes "client_build P E M b1 b2 opt1 opt2 c = Inr cl" "decoder_laws dec" "hdr_wf (rq_headers req)"
    and "effective_policy (cs_redirect_policy c) req = Some q"
  shows "\<exists>sent out. client_execute L R dec cl polls other (req, body) = Some (sent, out) \<and>
    (\<forall>r \<in> set sent.
       (decides_now q \<longrightarrow>
          (is_http (rq_uri (fst r)) \<or> is_https (rq_uri (fst r))) \<and> (cs_https_only c \<longrightarrow> is_https (rq_uri (fst r)))) \<and>
       (\<forall>n \<in> set sensitive_names. req_values (fst r) n \<noteq> [] \<longrightarrow>
          same_origin (rq_uri (fst r)) (rq_uri req) \<and> req_values (fst r) n = caller_values (cs_headers c) req n)) \<and>
    (q = Limit m \<longrightarrow> length sent \<le> (rt_max (cs_retry_policy c) + 1) * (m + 1)) \<and>
    (q = NoRedirect \<longrightarrow> length sent \<le> rt_max (cs_retry_policy c) + 1)"
  using assms by (rule client_sends)

section \<open>What reaches the network\<close>

text \<open>Headers that the connection does not set.  The headers of a proxy are those its configuration names.\<close>

definition proxy_leaves :: "string \<Rightarrow> ('k, 'x, 'p, 'o) send_attempt \<Rightarrow> bool" where
  "proxy_leaves n att \<longleftrightarrow>
     (\<forall>pooled hs. at_conn att = Inr pooled \<and> ci_headers (pc_info (pl_value pooled)) = Some hs \<longrightarrow>
        hdr_wf hs \<and> \<not> hdr_contains hs n)"

lemma write_head_other:
  assumes "write_head L cfg pc req = Some (Inr r)" "n \<notin> {''host'', ''proxy-authorization''}"
    and "\<And>hs. ci_headers (pc_info pc) = Some hs \<Longrightarrow> hdr_wf hs \<and> \<not> hdr_contains hs n"
  shows "hdr_get_all (rq_headers r) n = hdr_get_all (rq_headers req) n"
proof -
  have host: "hdr_get_all hs n = hdr_get_all h n" if "set_host_header L sh u h = Some hs" for hs sh u h
    using that assms(2) by (auto simp: set_host_header_def hash_simps split: if_split_asm)
  have prox: "hdr_get_all hs n = hdr_get_all h n" if "add_proxy_headers (pc_info pc) h = Some hs" for hs h
    using that add_proxy_headers_values [of "pc_info pc" h] assms(2,3)
    by (cases "ci_headers (pc_info pc)") (auto simp: Let_def hdr_contains_def)
  show ?thesis
    using assms(1)
    by (auto simp: write_head_def Let_def Option.bind_eq_Some_conv split: if_split_asm dest!: host prox)
qed

lemma attach_cookies_other: "n \<noteq> ''cookie'' \<Longrightarrow> hdr_get_all (attach_cookies ck h) n = hdr_get_all h n"
proof (cases ck)
  case (Uncompressed vs)
  assume "n \<noteq> ''cookie''"
  then have "hdr_get_all (fold (\<lambda>v. hdr_append ''cookie'' \<lparr>hv_bytes = v, hv_sensitive = False\<rparr>) vs h) n = hdr_get_all h n"
    by (induction vs arbitrary: h) (simp_all add: hash_simps)
  then show ?thesis by (simp add: attach_cookies_def Uncompressed)
qed (simp_all add: attach_cookies_def hash_simps)

lemma full_head_other:
  assumes "full_head L cfg store att pc req = Some r" "n \<notin> {''host'', ''proxy-authorization'', ''cookie''}"
    and "\<And>hs. ci_headers (pc_info pc) = Some hs \<Longrightarrow> hdr_wf hs \<and> \<not> hdr_contains hs n"
  shows "hdr_get_all (rq_headers r) n = hdr_get_all (rq_headers req) n"
proof -
  obtain r1 where w: "write_head L cfg pc req = Some (Inr r1)"
    and r: "r = r1\<lparr>rq_headers := add_cookies (at_cookies att)
        (rc_fetch store (ext_cookie_store (rq_ext r1))) (rq_uri req) pc (rq_headers r1)\<rparr>"
    using assms(1) by (auto simp: full_head_def split: option.split_asm sum.split_asm)
  with assms(2,3) show ?thesis
    using write_head_other [OF w, of n] by (simp add: add_cookies_def attach_cookies_other split: option.split)
qed

lemma send_request_other:
  assumes "\<forall>att \<in> set ats. hands_back att \<and> proxy_leaves n att" "n \<notin> {''host'', ''proxy-authorization'', ''cookie''}"
    and "send_request L cfg store u ats req = (evs, out)" "r \<in> set (transmits evs)"
  shows "hdr_get_all (rq_headers r) n = hdr_get_all (rq_headers req) n"
  using assms(1,3,4)
proof (induction ats arbitrary: req evs)
  case (Cons att ats)
  have hb: "hands_back att" "\<forall>att \<in> set ats. hands_back att \<and> proxy_leaves n att" using Cons.prems(1) by simp_all
  have head: "hdr_get_all (rq_headers x) n = hdr_get_all (rq_headers req) n"
    if "at_conn att = Inr pooled" "full_head L cfg store att (pl_value pooled) req = Some x" for pooled x
    using full_head_other [OF that(2) assms(2)] that(1) Cons.prems(1) by (simp add: proxy_leaves_def)
  show ?case
  proof (cases "try_send_request L cfg store att req")
    case None
    with Cons.prems(2,3) show ?thesis by simp
  next
    case (Some p)
    obtain evs1 out1 where p: "p = (evs1, out1)" by (cases p)
    note run = Cons.prems(2) [unfolded send_request.simps Some p option.case prod.case]
    from Some p have "try_send_request L cfg store att req = Some (evs1, out1)" by simp
    then show ?thesis
    proof (cases rule: try_send_cases)
      case (refused e)
      with run Cons.prems(3) show ?thesis by auto
    next
      case (failed pooled x e)
      with run Cons.prems(3) head [OF failed(1,2)] show ?thesis by auto
    next
      case (answered pooled x res cr rest)
      with run Cons.prems(3) head [OF answered(1,2)] show ?thesis by auto
    next
      case (unsent pooled x x' e)
      have same: "x' = x" using hb(1) unsent(3) by (simp add: hands_back_def)
      note h = head [OF unsent(1,2)]
      show ?thesis
      proof (cases "hc_retry_canceled cfg \<and> pl_is_reused pooled")
        case False
        with run unsent Cons.prems(3) h show ?thesis by auto
      next
        case True
        obtain evs2 where s: "send_request L cfg store u ats (x\<lparr>rq_uri := u\<rparr>) = (evs2, out)" "evs = Transmit x # ReleaseNow # evs2"
          using run unsent True same by (auto split: prod.split_asm)
        with Cons.IH [OF hb(2) s(1)] Cons.prems(3) h show ?thesis by auto
      qed
    qed
  qed
qed simp

lemma http_request_origin:
  assumes "client_lib_ok C" "http_request C uk mk opt1 opt2 b1 b2 r = Some (Inr (req', d, c1, c2))"
    and "uri_scheme (rq_uri r) \<noteq> None"
  shows "same_origin (cd_uri d) (rq_uri r) \<and> rq_headers req' = rq_headers r"
proof -
  from assms(1,2) obtain a where a: "uri_authority (rq_uri r) = Some a" "rq_headers req' = rq_headers r"
    "uri_scheme (rq_uri r) \<noteq> None \<longrightarrow> rq_uri req' = rq_uri r"
    "cd_uri d = \<lparr>uri_scheme = uri_scheme (rq_uri req'), uri_authority = Some a, uri_pq = Some (''/'', None)\<rparr>"
    by (rule http_request_accepts)
  with assms(3) show ?thesis
    by (simp add: same_origin_def uri_host_def port_or_default_def uri_port_def is_https_def)
qed

text \<open>C1: an \<^verbatim>\<open>Authorization\<close> header stays with the origin it was given for, down to the connection.  Whatever the servers
  answer, if a request that the client hands to a connection carries the header, then the connection was asked for with the
  scheme, host and port of the caller's request, and the values are those of the caller or of the client's default headers;
  the headers configured for a proxy are excepted.\<close>

theorem authorization_stays_home:
  assumes "client_build P E M b1 b2 opt1 opt2 c = Inr cl" "decoder_laws dec" "hdr_wf (rq_headers req)"
    and "effective_policy (cs_redirect_policy c) req = Some q"
    and "client_execute L R dec cl polls other (req, body) = Some (sent, out)" "(r, b) \<in> set sent"
    and "client_lib_ok C"
    and "http_request C uk mk o1 o2 (ht_h1 (cn_http cl)) (ht_h2 (cn_http cl)) r = Some (Inr (req', d, c1, c2))"
    and "\<forall>att \<in> set ats. hands_back att \<and> proxy_leaves ''authorization'' att"
    and "send_request C (ht_config (cn_http cl)) (ht_cookie_store (cn_http cl)) (rq_uri req') ats req' = (evs, res)"
    and "t \<in> set (transmits evs)" "hdr_get_all (rq_headers t) ''authorization'' \<noteq> []"
  shows "same_origin (cd_uri d) (rq_uri req) \<and>
    hdr_get_all (rq_headers t) ''authorization'' = caller_values (cs_headers c) req ''authorization''"
proof -
  have "\<forall>x \<in> set sent. \<forall>n \<in> set sensitive_names. req_values (fst x) n \<noteq> [] \<longrightarrow>
      same_origin (rq_uri (fst x)) (rq_uri req) \<and> req_values (fst x) n = caller_values (cs_headers c) req n"
    using client_sends [OF assms(1-4), of L R polls other body 0] unfolding assms(5) option.inject prod.inject by blast
  from bspec [OF this assms(6)] have s: "req_values r ''authorization'' \<noteq> [] \<longrightarrow> same_origin (rq_uri r) (rq_uri req) \<and>
      req_values r ''authorization'' = caller_values (cs_headers c) req ''authorization''"
    by (simp add: sensitive_names_def)
  have headers: "rq_headers req' = rq_headers r" using assms(7,8) by (rule http_request_accepts)
  have "hdr_get_all (rq_headers t) ''authorization'' = req_values r ''authorization''"
    using send_request_other [OF assms(9) _ assms(10,11)] headers by (simp add: req_values_def)
  with s assms(12) have r: "same_origin (rq_uri r) (rq_uri req)"
    "hdr_get_all (rq_headers t) ''authorization'' = caller_values (cs_headers c) req ''authorization''"
    by simp_all
  have "is_http (rq_uri req) \<or> is_https (rq_uri req)"
    using assms(6) by (intro client_sends_from [OF assms(1-3,5)]) auto
  with r(1) have "uri_scheme (rq_uri r) \<noteq> None" by (auto simp: same_origin_def is_http_def is_https_def)
  with http_request_origin [OF assms(7,8)] r show ?thesis using same_origin_trans by blast
qed

section \<open>What the caller gets\<close>

definition pending_names :: "('u, 'o) redirect_state \<Rightarrow> bool" where
  "pending_names st \<longleftrightarrow> (\<forall>pd. rd_pending st = Some pd \<longrightarrow> rs_uri (pd_res pd) = Some (rq_uri (rd_request st)))"

lemma redirect_response_names:
  assumes "redirect_response R st res0 = (st', out)" "rd_pending st = None"
  shows "pending_names st'" "out = Resolved (Inr res) \<Longrightarrow> rs_uri res = Some (rq_uri (rd_request st))"
    "out = Waiting \<Longrightarrow> rq_uri (rd_request st') = rq_uri (rd_request st)" "out = Send r b \<Longrightarrow> rd_request st' = r"
  using assms
  by (auto simp: redirect_response_def Let_def handle_action_def pending_names_def follow_on_response_def
      dest!: rewrite_request_props(1)
      split: option.split_asm prod.split_asm sum.split_asm action.split_asm)

lemma redirect_poll_names:
  assumes "redirect_poll R st ev = (st', out)" "pending_names st"
  shows "pending_names st'" "out = Resolved (Inr res) \<Longrightarrow> rs_uri res = Some (rq_uri (rd_request st))"
    "out = Waiting \<Longrightarrow> rq_uri (rd_request st') = rq_uri (rd_request st)" "out = Send r b \<Longrightarrow> rd_request st' = r"
proof -
  have "pending_names st' \<and> (\<forall>res. out = Resolved (Inr res) \<longrightarrow> rs_uri res = Some (rq_uri (rd_request st))) \<and>
      (out = Waiting \<longrightarrow> rq_uri (rd_request st') = rq_uri (rd_request st)) \<and> (\<forall>r b. out = Send r b \<longrightarrow> rd_request st' = r)"
  proof (cases "rd_pending st")
    case (Some pd)
    with assms show ?thesis
      by (auto simp: redirect_poll_def handle_action_def pending_names_def split: nat.split_asm action.split_asm prod.split_asm)
  next
    case None
    show ?thesis
    proof (cases ev)
      case NotReady
      with assms None show ?thesis by (auto simp: redirect_poll_def)
    next
      case (Ready x)
      show ?thesis
      proof (cases x)
        case (Inl e)
        with assms None Ready show ?thesis by (auto simp: redirect_poll_def)
      next
        case (Inr res0)
        then have "redirect_response R st res0 = (st', out)" using assms(1) None Ready by (simp add: redirect_poll_def)
        from redirect_response_names [OF this None] show ?thesis by blast
      qed
    qed
  qed
  then show "pending_names st'" "out = Resolved (Inr res) \<Longrightarrow> rs_uri res = Some (rq_uri (rd_request st))"
    "out = Waiting \<Longrightarrow> rq_uri (rd_request st') = rq_uri (rd_request st)" "out = Send r b \<Longrightarrow> rd_request st' = r"
    by blast+
qed

lemma redirect_run_names:
  "redirect_run R st evs = (sent, Resolved (Inr res)) \<Longrightarrow> pending_names st \<Longrightarrow>
   rs_uri res = Some (rq_uri (last (rd_request st # map fst sent)))"
proof (induction evs arbitrary: st sent)
  case (Cons ev evs)
  obtain st' out where p: "redirect_poll R st ev = (st', out)" by fastforce
  note n = redirect_poll_names [OF p Cons.prems(2)]
  show ?case
  proof (cases out)
    case Waiting
    with Cons.prems(1) p have "redirect_run R st' evs = (sent, Resolved (Inr res))" by simp
    from Cons.IH [OF this n(1)] n(3) [OF Waiting] show ?thesis by (simp split: if_split_asm)
  next
    case (Send r b)
    with Cons.prems(1) p obtain s where "redirect_run R st' evs = (s, Resolved (Inr res))" "sent = (r, b) # s"
      by (auto split: prod.split_asm)
    with Cons.IH [of st' s] n(1) n(4) [OF Send] show ?thesis by simp
  qed (use Cons.prems p n(2) in auto)
qed simp

lemma direct_run_in: "direct_run evs = Resolved r \<Longrightarrow> Ready r \<in> set evs"
  by (induction evs rule: direct_run.induct) auto

text \<open>Responses of the innermost service carry no \<^verbatim>\<open>RequestUri\<close>.\<close>

definition plain_responses :: "(error, response) result poll list \<Rightarrow> bool" where
  "plain_responses evs \<longleftrightarrow> (\<forall>res. Ready (Inr res) \<in> set evs \<longrightarrow> rs_uri res = None)"

lemma exec_names:
  assumes "redirect_exec R (client_redirect_policy p rf ho) req body evs = (sent, Resolved (Inr res))" "plain_responses evs"
  shows "ar_uri (response_new res (rq_uri req)) = rq_uri (fst (last sent))"
  using assms(1)
proof (cases rule: exec_cases)
  case (direct r)
  then have "rs_uri res = None"
    using direct_run_in [OF direct(2) [symmetric]] assms(2) by (simp add: plain_responses_def)
  moreover have "rq_uri r = rq_uri req" using exec_first(2) [OF assms(1)] direct(1) by simp
  ultimately show ?thesis using direct(1) by (simp add: response_new_def)
next
  case (redirect st r sent')
  note c = call_redirect [OF redirect(3)]
  have "pending_names st" using c(3) by (simp add: pending_names_def)
  from redirect_run_names [OF redirect(2) this] c(2) redirect(1) show ?thesis
    by (cases "sent' = []") (simp_all add: response_new_def last_map)
qed

lemma stack_run_names:
  assumes "stack_run L R polls other n pol (client_redirect_policy p rf ho) req = (sent, Resolved (Inr res))"
    and "effective_policy p (fst req) = Some q" "\<forall>i. plain_responses (polls i)"
  shows "sent \<noteq> [] \<and> ar_uri (response_new res (rq_uri (fst req))) = rq_uri (fst (last sent))"
  using assms(1,2)
proof (induction "rp_max pol - rp_cnt pol" arbitrary: n pol p sent rule: less_induct)
  case less
  obtain s o' where e: "redirect_exec R (client_redirect_policy p rf ho) (fst req) (snd req) (polls n) = (s, o')" by fastforce
  note run = less.prems(1) [unfolded stack_run.simps [of L R polls other n pol] Let_def e prod.case]
  show ?case
  proof (cases "(sent, Resolved (Inr res)) = (s, o')")
    case True
    with exec_names [of R p rf ho "fst req" "snd req" "polls n" s res] exec_first(1) [OF e] e assms(3) show ?thesis by auto
  next
    case False
    from run False obtain res' copy where o': "o' = Resolved res'" and c: "clone_request pol req = Some copy"
      by (auto split: redirect_out.split_asm option.split_asm)
    let ?r = "retry L (pol\<lparr>rp_budget := map_option (other n) (rp_budget pol)\<rparr>) copy res'"
    have again: "snd ?r" using run False by (simp add: o' c split: if_split_asm)
    have copy: "copy = req" "rp_cnt pol < rp_max pol" using c by (simp_all add: clone_request_Some)
    have r: "?r = (fst ?r, True)" using again by (metis prod.collapse)
    have "rp_max (fst ?r) - rp_cnt (fst ?r) < rp_max pol - rp_cnt pol"
      using retry_again(1,2) [OF r] copy(2) by simp
    moreover obtain s' where
      "stack_run L R polls other (Suc n) (fst ?r) (client_redirect_policy q rf ho) req = (s', Resolved (Inr res))"
      "sent = s @ s'"
      using run again by (auto simp: o' c redirect_call_policy [OF less.prems(2)] copy(1) split: prod.split_asm)
    ultimately show ?thesis
      using less.hyps [of "fst ?r" "Suc n" q s'] effective_policy_again [OF less.prems(2)] by simp
  qed
qed

text \<open>C34: what the caller of a request gets.  A response names the URI of the last request that was sent for it.  Every
  error is an error of the library that carries a URI, also when a timeout or a foreign error ended the request.  The
  future is finished then: polling it again panics.\<close>

theorem client_returns:
  assumes "client_build P E M b1 b2 opt1 opt2 c = Inr cl" "decoder_laws dec" "hdr_wf (rq_headers req)"
    and "effective_policy (cs_redirect_policy c) req = Some q" "\<forall>i. plain_responses (polls i)"
    and "client_execute L R dec cl polls other (req, body) = Some (sent, out)"
    and "client_poll cl (req, body) start now out = Some (fut, Ready x)"
  shows "(\<forall>res tb. x = Inr (res, tb) \<longrightarrow> sent \<noteq> [] \<and> ar_uri res = rq_uri (fst (last sent))) \<and>
    (\<forall>e. x = Inl e \<longrightarrow> (\<exists>k src u. e = WreqError k src (Some u))) \<and>
    pending_poll fut (Ready y) = None"
proof -
  define tp where "tp = timeout_poll (timeout_call (Some (cn_timeout cl)) req start) now (outcome_poll out)"
  have p: "pending_poll (PendingRequest (Some (rq_uri req))) tp = Some (fut, Ready x)"
    using assms(7) by (simp add: client_poll_def client_pending_def tp_def)
  have err: "\<exists>k src u. (if err_uri (downcast_request e) = None then with_uri (downcast_request e) v else downcast_request e) =
      WreqError k src (Some u)" for e v
    by (cases e) (auto simp: err_request_def err_new_def)
  have names: "sent \<noteq> [] \<and> ar_uri (response_new res (rq_uri req)) = rq_uri (fst (last sent))" if "out = Resolved (Inr res)" for res
    using assms(1-3)
  proof (cases rule: client_execute_cases [where L = L and R = R and polls = polls and other = other and body = body])
    case refused
    with assms(6) that show ?thesis by simp
  next
    case (passed req2 sent' out')
    then have "effective_policy (cs_redirect_policy c) (fst (req2, body)) = Some q" using assms(4) by simp
    with passed assms(6) that stack_run_names [of L R polls other 0 _ _ _ _ "(req2, body)" sent res, OF _ _ assms(5)]
    show ?thesis by simp
  qed
  show ?thesis
  proof (cases tp)
    case NotReady
    with p show ?thesis by simp
  next
    case (Ready t)
    show ?thesis
    proof (cases t)
      case (Inl e)
      with p Ready err [of e "rq_uri req"] show ?thesis by (auto simp: Let_def)
    next
      case (Inr rb)
      obtain res tb where rb: "rb = (res, tb)" by (cases rb)
      have "out = Resolved (Inr res)"
        using Ready Inr rb by (auto simp: tp_def timeout_poll_def outcome_poll_def
            split: if_split_asm poll.split_asm sum.split_asm redirect_out.split_asm)
      from names [OF this] p Ready Inr rb show ?thesis by auto
    qed
  qed
qed

section \<open>Encodings and conversions\<close>

text \<open>A range of a representation is asked for without a content coding, whenever decoding is enabled for the request.\<close>

theorem range_asks_identity:
  assumes "decoder_laws dec" "hdr_contains (rq_headers req) ''range''"
    and "case rc_get (ext_accept_encoding (rq_ext req)) of Some a \<Rightarrow> ae_is_enabled a | None \<Rightarrow> dc_enabled d"
  shows "hdr_get_all (rq_headers (snd (decompression_call dec d req))) ''accept-encoding'' =
    [\<lparr>hv_bytes = ''identity'', hv_sensitive = False\<rparr>]"
proof -
  let ?i = "\<lparr>hv_bytes = ''identity'', hv_sensitive = False\<rparr>"
  let ?req = "req\<lparr>rq_headers := hdr_insert ''accept-encoding'' ?i (rq_headers req)\<rparr>"
  have "hdr_contains (rq_headers ?req) ''accept-encoding''" by (simp add: hdr_contains_def hash_simps)
  then have "hdr_get_all (rq_headers (dec a ?req)) ''accept-encoding'' = [?i]" for a
    using assms(1) by (simp add: decoder_laws_def hash_simps)
  with assms(2,3) show ?thesis
    by (simp add: decompression_call_def Let_def split: option.split_asm)
qed

text \<open>Converting a response to \<^verbatim>\<open>http::Response\<close> and back keeps it, and its URI.\<close>

lemma response_http_roundtrip:
  "rs_uri (ar_response r) = None \<Longrightarrow> response_from_http (response_into_http r) = r"
  by (simp add: response_from_http_def response_into_http_def)

lemma error_for_status_cases:
  "error_for_status r reason =
     (if rs_status (ar_response r) \<in> {400..<600} then Inl (err_status_code (ar_uri r) (rs_status (ar_response r)) reason)
      else Inr r)"
  by (auto simp: error_for_status_def Let_def)

lemma collect_body_spec:
  "collect_body frames = Inr full \<longleftrightarrow> (\<exists>ds. frames = map Inr ds \<and> full = concat ds)"
proof (induction frames arbitrary: full)
  case (Cons f fs)
  show ?case
  proof (cases f)
    case (Inr d)
    have "collect_body (f # fs) = Inr full \<longleftrightarrow> (\<exists>rest. collect_body fs = Inr rest \<and> full = d @ rest)"
      by (cases "collect_body fs") (auto simp: Inr)
    also have "\<dots> \<longleftrightarrow> (\<exists>ds. f # fs = map Inr ds \<and> full = concat ds)"
      using Cons.IH by (auto simp: Inr Cons_eq_map_conv)
    finally show ?thesis .
  qed auto
qed auto

section \<open>A concrete request\<close>

definition sample_stack_request :: "(policy, sample_client_options) request" where
  "sample_stack_request =
     \<lparr>rq_method = ''GET'', rq_uri = sample_uri ''https'' ''a'' ''/'', rq_version = HTTP_11,
      rq_headers = [(''authorization'', [\<lparr>hv_bytes = ''key'', hv_sensitive = True\<rparr>])], rq_ext = extensions_new\<rparr>"

definition sample_polls :: "nat \<Rightarrow> (error, response) result poll list" where
  "sample_polls i =
     [NotReady, Ready (Inr (Redirect_Layer.sample_response 302 ''A'')), Ready (Inr (Redirect_Layer.sample_response 307 ''B'')),
      Ready (Inr (Redirect_Layer.sample_response 200 []))]"

definition sample_run :: "(policy, sample_client_options) full_request list \<times> sample_client_options redirect_out" where
  "sample_run =
     stack_run sample_retry_lib sample_redirect_lib sample_polls (\<lambda>_. id) 0 (retry_policy_new sample_retry_lib retry_default)
       (client_redirect_policy (Limit 5) True True) (sample_stack_request, Full ''x'')"

lemma sample_decoder_laws: "decoder_laws (\<lambda>_ r. r)"
  by (simp add: decoder_laws_def)

lemma sample_stack_wf: "hdr_wf (rq_headers sample_stack_request)"
  by (simp add: sample_stack_request_def hdr_wf_def hm_wf_def)

lemma sample_stack_policy: "effective_policy (cs_redirect_policy sample_settings) sample_stack_request = Some (Limit 5)"
  by (simp add: effective_policy_def rc_fetch_def sample_stack_request_def extensions_new_def sample_settings_def)

lemma sample_settings_fields:
  "cs_https_only sample_settings" "cs_headers sample_settings = []" "cs_retry_policy sample_settings = retry_default"
  by (simp_all add: sample_settings_def client_builder_new_def)

theorem client_sends_safe_witness:
  "\<exists>cl sent out. sample_built = Inr cl \<and>
     client_execute sample_retry_lib sample_redirect_lib (\<lambda>_ r. r) cl sample_polls (\<lambda>_. id) (sample_stack_request, Full ''x'') =
       Some (sent, out) \<and>
     list_all (\<lambda>r. is_https (rq_uri (fst r))) sent \<and> length sent \<le> 18"
proof -
  obtain cl where cl: "sample_built = Inr cl" by (rule sample_built_Inr)
  have "\<exists>sent out. client_execute sample_retry_lib sample_redirect_lib (\<lambda>_ r. r) cl sample_polls (\<lambda>_. id)
        (sample_stack_request, Full ''x'') = Some (sent, out) \<and>
      list_all (\<lambda>r. is_https (rq_uri (fst r))) sent \<and> length sent \<le> 18"
    using client_sends_safe [OF cl [unfolded sample_built_def] sample_decoder_laws sample_stack_wf sample_stack_policy,
        where L = sample_retry_lib and R = sample_redirect_lib and polls = sample_polls and
        other = "\<lambda>_. id" and body = "Full ''x''" and m = 5]
    by (elim exE conjE) (intro exI conjI, assumption, simp_all add: list_all_iff sample_settings_fields retry_default_def)
  with cl show ?thesis by blast
qed

lemma sample_execute:
  assumes "sample_built = Inr cl"
  shows "client_execute sample_retry_lib sample_redirect_lib (\<lambda>_ r. r) cl sample_polls (\<lambda>_. id) (sample_stack_request, Full ''x'') =
    Some sample_run"
proof -
  note b = client_build_Inr [OF assms [unfolded sample_built_def]]
  have "replace_headers [] (rq_headers sample_stack_request) = Some (rq_headers sample_stack_request)"
    "is_https (rq_uri sample_stack_request)" "\<not> hdr_contains (rq_headers sample_stack_request) ''range''"
    by code_simp+
  then have "config_call (config_new True [] []) sample_stack_request = Some (Inr sample_stack_request)"
    and "decompression_call (\<lambda>_ r. r) (decompression_layer accept_encoding_default) sample_stack_request =
      (decompression_layer accept_encoding_default, sample_stack_request)"
    by (simp_all add: config_call_def config_new_def sample_stack_request_def extensions_new_def rc_take_def rc_fetch_def
        decompression_call_def rc_get_def Let_def)
  then show ?thesis
    by (simp add: client_execute_def b sample_run_def sample_settings_def client_builder_new_def sample_build_env_def
        client_redirect_policy_def)
qed

lemma sample_run_facts:
  "map (rq_uri \<circ> fst) (fst sample_run) = [sample_uri ''https'' ''a'' ''/'', sample_uri ''https'' ''a'' ''/next'', sample_uri ''https'' ''b'' ''/'']"
  "case snd sample_run of Resolved (Inr res) \<Rightarrow> rs_uri res = Some (sample_uri ''https'' ''b'' ''/'') | _ \<Rightarrow> False"
  by code_simp+

lemma sample_plain: "\<forall>i. plain_responses (sample_polls i)"
  by (simp add: plain_responses_def sample_polls_def Redirect_Layer.sample_response_def)

theorem client_returns_witness:
  "\<exists>cl res tb fut. sample_built = Inr cl \<and>
     client_poll cl (sample_stack_request, Full ''x'') 0 1 (snd sample_run) = Some (fut, Ready (Inr (res, tb))) \<and>
     ar_uri res = sample_uri ''https'' ''b'' ''/'' \<and> pending_poll fut (Ready (Inl Elapsed :: (error, response \<times> unit) result)) = None"
proof -
  obtain cl where cl: "sample_built = Inr cl" by (rule sample_built_Inr)
  obtain sent out where run: "sample_run = (sent, out)" by (cases sample_run)
  then obtain res where out: "out = Resolved (Inr res)"
    using sample_run_facts(2) [unfolded run snd_conv] by (auto split: redirect_out.split_asm sum.split_asm)
  have t: "cn_timeout cl = timeout_options_default"
    using client_build_Inr(5) [OF cl [unfolded sample_built_def]] by (simp add: sample_settings_def client_builder_new_def)
  have poll: "client_poll cl (sample_stack_request, Full ''x'') 0 1 out =
      Some (PendingRequest None, Ready (Inr (response_new res (sample_uri ''https'' ''a'' ''/''), Plain)))"
    by (simp add: client_poll_def client_pending_def out outcome_poll_def t timeout_poll_def timeout_call_def
        fetch_timeout_options_def sample_stack_request_def extensions_new_def timeout_options_default_def rc_fetch_def
        sleep_ready_def timeout_body_new_def)
  have "ar_uri (response_new res (sample_uri ''https'' ''a'' ''/'')) = rq_uri (fst (last sent)) \<and> sent \<noteq> []"
    using client_returns [OF cl [unfolded sample_built_def] sample_decoder_laws sample_stack_wf sample_stack_policy
        sample_plain sample_execute [OF cl, unfolded run] poll] by blast
  moreover have "last (map (rq_uri \<circ> fst) sent) = sample_uri ''https'' ''b'' ''/''" using sample_run_facts(1) [unfolded run fst_conv] by simp
  ultimately have "ar_uri (response_new res (sample_uri ''https'' ''a'' ''/'')) = sample_uri ''https'' ''b'' ''/''"
    by (simp add: last_map)
  with cl poll show ?thesis unfolding run snd_conv by auto
qed

definition sample_conn_attempt :: "(nat, unit, policy, sample_client_options) send_attempt" where
  "sample_conn_attempt =
     \<lparr>at_conn = Inr \<lparr>pl_value = sample_client (Http1 0), pl_is_reused = False, pl_key = 0, pl_pool = True\<rparr>,
      at_cookies = (\<lambda>_ _ _. Empty), at_reply = (\<lambda>_. Answered (Redirect_Layer.sample_response 200 [])), at_ready = True\<rparr>"

definition sample_wire ::
  "(policy, sample_client_options) client_event list \<times> (error, unit client_response) result outcome"
where
  "sample_wire =
     send_request sample_client_lib sample_client_config None (sample_uri ''https'' ''a'' ''/'') [sample_conn_attempt]
       (fst (hd (fst sample_run)))"

theorem authorization_stays_home_witness:
  "\<exists>cl d t. sample_built = Inr cl \<and>
     http_request sample_client_lib id id (\<lambda>_ b. b) (\<lambda>_ b. b) () () (fst (hd (fst sample_run))) =
       Some (Inr (fst (hd (fst sample_run)), d, (), ())) \<and>
     t \<in> set (transmits (fst sample_wire)) \<and>
     hdr_get_all (rq_headers t) ''authorization'' = [\<lparr>hv_bytes = ''key'', hv_sensitive = True\<rparr>] \<and>
     same_origin (cd_uri d) (sample_uri ''https'' ''a'' ''/'')"
proof -
  obtain cl where cl: "sample_built = Inr cl" by (rule sample_built_Inr)
  obtain sent out where run: "sample_run = (sent, out)" by (cases sample_run)
  obtain r b rest where sent: "sent = (r, b) # rest"
    using sample_run_facts(1) [unfolded run fst_conv] by (cases sent) auto
  have uri: "rq_uri r = sample_uri ''https'' ''a'' ''/''" using sample_run_facts(1) [unfolded run fst_conv] sent by simp
  have "rq_method (fst (hd (fst sample_run))) = ''GET''" "rq_version (fst (hd (fst sample_run))) = HTTP_11"
    "case ext_options (rq_ext (fst (hd (fst sample_run)))) of None \<Rightarrow> True | _ \<Rightarrow> False"
    by code_simp+
  then have r: "rq_method r = ''GET''" "rq_version r = HTTP_11" "ext_options (rq_ext r) = None"
    unfolding run sent fst_conv list.sel by (simp_all split: option.split_asm)
  have ht: "ht_config (cn_http cl) = sample_client_config" "ht_cookie_store (cn_http cl) = None"
    using client_build_Inr(7) [OF cl [unfolded sample_built_def]]
    by (simp_all add: build_pooled_def builder_build_def builder_pool_max_size_def builder_pool_max_idle_def
        builder_pool_idle_timeout_def builder_pool_timer_def builder_http1_options_def builder_http2_only_def
        builder_http2_options_def builder_cookie_store_def builder_new_def sample_client_config_def sample_settings_def
        client_builder_new_def)
  have same: "r\<lparr>rq_ext := (rq_ext r)\<lparr>ext_options := None\<rparr>\<rparr> = r" using r(3) by simp
  obtain d where d: "http_request sample_client_lib id id (\<lambda>_ b. b) (\<lambda>_ b. b) () () r = Some (Inr (r, d, (), ()))"
    using r uri same
    by (simp add: http_request_def normalize_uri_def build_base_uri_def sample_client_lib_def sample_uri_def
        sample_lib_simps rc_remove_def Let_def)
  obtain evs res where w: "sample_wire = (evs, res)" by (cases sample_wire)
  define t where "t = hd (transmits (fst sample_wire))"
  have t: "transmits (fst sample_wire) \<noteq> []" "hdr_get_all (rq_headers t) ''authorization'' = [\<lparr>hv_bytes = ''key'', hv_sensitive = True\<rparr>]"
    unfolding t_def by code_simp+
  have send: "send_request sample_client_lib (ht_config (cn_http cl)) (ht_cookie_store (cn_http cl)) (rq_uri r)
      [sample_conn_attempt] r = (evs, res)"
    using w unfolding sample_wire_def run sent fst_conv list.sel ht uri .
  have "\<forall>att \<in> set [sample_conn_attempt]. hands_back att \<and> proxy_leaves ''authorization'' att"
    by (simp add: hands_back_def proxy_leaves_def sample_conn_attempt_def sample_client_def conn_info_new_def)
  note home = authorization_stays_home [OF cl [unfolded sample_built_def] sample_decoder_laws sample_stack_wf
    sample_stack_policy sample_execute [OF cl, unfolded run] _ sample_client_lib_ok _ this send]
  have in_sent: "(r, b) \<in> set sent" using sent by simp
  have "t \<in> set (transmits evs)" using t(1) unfolding t_def w fst_conv by (rule hd_in_set)
  moreover have "http_request sample_client_lib id id (\<lambda>_ b. b) (\<lambda>_ b. b) (ht_h1 (cn_http cl)) (ht_h2 (cn_http cl)) r =
      Some (Inr (r, d, (), ()))"
    using d by simp
  ultimately have "same_origin (cd_uri d) (rq_uri sample_stack_request)"
    using home [OF in_sent] t(2) by simp
  then have "same_origin (cd_uri d) (sample_uri ''https'' ''a'' ''/'')" by (simp add: sample_stack_request_def)
  moreover have "t \<in> set (transmits (fst sample_wire))" unfolding t_def using t(1) by (rule hd_in_set)
  ultimately show ?thesis using cl d t(2) unfolding run sent fst_conv list.sel by blast
qed

end
