(* ===== verification/Spec2Isabelle.thy ===== *)
theory Spec2Isabelle imports Cookie_Jar Header_Model Redirect_Layer Config_Layer Timeouts Retry_Layer Pool Proxy_Matcher Conn_Model Http_Client Connect_Race Client_Stack
begin

text \<open>
  \<^bold>\<open>wreq, an HTTP client.\<close>  This development models the client library \<^verbatim>\<open>wreq\<close> (\<^verbatim>\<open>src/src/\<close>) and proves what its
  components promise.  File names below are relative to \<^verbatim>\<open>src/src/\<close>; every definition has the name of the function,
  method or type it models, with a suffix where the name is taken.  The features \<^verbatim>\<open>http2\<close>, \<^verbatim>\<open>cookies\<close> and \<^verbatim>\<open>socks\<close> are on.

  \<^bold>\<open>How the program works.\<close>  A request goes through a stack of services: timeout, configuration, decompression,
  retry, redirect and, innermost, \<^verbatim>\<open>HttpClient\<close>.  The innermost service asks the connection pool for a connection to the
  request's destination, races it with a new connection, writes the request head, attaches the cookies of the
  jar, sends the request and stores the cookies of the response.  Which connections a request may use is decided by the
  key of its connection descriptor (group, URI, version, proxy, socket binding); whether it goes through a proxy
  by the proxy matchers.

  \<^bold>\<open>Conventions.\<close>
  \<^item> Strings are byte strings.  A hash map is an association list with distinct keys, a \<^verbatim>\<open>BTreeMap\<close> one sorted by key.
  \<^item> A fallible function returns \<open>(error, 'a) result\<close> or an option; every early return of the source is a branch.
  \<^item> Asynchronous code is either a machine with one step per \<^verbatim>\<open>poll\<close>, which is given what the polled futures return, or a
    function of the answers the world gives.  Concurrency is the interleaving of critical sections.
  \<^item> Code of other crates is a parameter, collected in records (\<open>uri_lib\<close>, \<open>parse_lib\<close>, \<open>cookie_env\<close>, \<open>url_lib\<close>,
    \<open>redirect_lib\<close>, \<open>retry_lib\<close>, \<open>lru_lib\<close>, \<open>proxy_lib\<close>, \<open>client_lib\<close>, \<open>session_lru\<close>, \<open>transport_env\<close>).  What a theorem needs of it is one of its hypotheses, and
    its witness instantiates the parameter with a concrete function.  Two pieces are written out instead, from their
    documentation: the header map of the crate \<^verbatim>\<open>http\<close> (\<open>Header_Model\<close>) and the loop of \<^verbatim>\<open>tower\<close>'s \<^verbatim>\<open>Retry\<close> service, which asks
    the policy for a copy of the request, calls the service and asks the policy whether to repeat (\<open>retry_exec\<close>,
    \<open>stack_run\<close>); the policy itself is the code of \<^verbatim>\<open>client/layer/retry.rs\<close>.

  \<^bold>\<open>Theories.\<close>
  \<^descr> \<open>Wreq_Prelude\<close>: string operations of the standard library, hash maps, polls.
  \<^descr> \<open>Uri_Ext\<close> (\<^verbatim>\<open>ext.rs\<close>), \<open>Into_Uri\<close> (\<^verbatim>\<open>into_uri.rs\<close>): URI values, user information and conversion.  Setting and reading
    back user information, and that a converted URI is absolute.
  \<^descr> \<open>Wreq_Error\<close> (\<^verbatim>\<open>error.rs\<close>): error values and the predicates that classify them.
  \<^descr> \<open>Header_Model\<close> (\<^verbatim>\<open>header.rs\<close>, \<^verbatim>\<open>util.rs\<close>): header maps, original spelling and order, merging.  The
    HTTP/1 writer emits the reordered map under the spelling the caller configured.
  \<^descr> \<open>Cookie_Store\<close> (\<^verbatim>\<open>cookie/store.rs\<close>), \<open>Cookie_Jar\<close> (\<^verbatim>\<open>cookie/jar.rs\<close>, \<^verbatim>\<open>cookie.rs\<close>): the nested store refines a flat
    set of cookies; a cookie is sent only where its domain, path, scheme and expiry allow, a secure cookie is not overlaid
    from an insecure origin, and the invariant of the store holds along every history of operations.
  \<^descr> \<open>Request_Model\<close> (\<^verbatim>\<open>config.rs\<close>, \<^verbatim>\<open>client/body.rs\<close>): requests, responses, request-scoped configuration.
  \<^descr> \<open>Redirect_Policy\<close> (\<^verbatim>\<open>redirect.rs\<close>, \<^verbatim>\<open>client/layer/redirect/policy.rs\<close>), \<open>Redirect_Layer\<close> (\<^verbatim>\<open>client/layer/redirect.rs\<close>,
    \<^verbatim>\<open>redirect/future.rs\<close>): the response future as a step machine.  Credentials stay at their origin, chains are bounded, only
    allowed schemes are followed, methods and bodies change as documented.
  \<^descr> \<open>Config_Layer\<close>, \<open>Timeouts\<close>, \<open>Retry_Layer\<close> (\<^verbatim>\<open>client/layer/config.rs\<close>, \<^verbatim>\<open>timeout*.rs\<close>, \<^verbatim>\<open>retry*.rs\<close>, \<^verbatim>\<open>retry.rs\<close>): the other
    middleware.
  \<^descr> \<open>Pool\<close> (\<^verbatim>\<open>client/layer/client/pool.rs\<close>): the operations of the pool as a step relation over all interleavings.  A
    unique connection has one user, idle lists hold open connections of their key, and a connection put back serves the waiters.
  \<^descr> \<open>Ip_Addr\<close>, \<open>Proxy_Matcher\<close> (\<^verbatim>\<open>proxy.rs\<close>, \<^verbatim>\<open>proxy/matcher.rs\<close>): reading addresses, the choice of a proxy, the
    exclusion list, which excludes the hosts its documentation names, and the credentials of a proxy.
  \<^descr> \<open>Conn_Model\<close> (\<^verbatim>\<open>conn.rs\<close>, \<^verbatim>\<open>conn/net.rs\<close>, \<^verbatim>\<open>conn/descriptor.rs\<close>, \<^verbatim>\<open>group.rs\<close>): descriptors, their keys, metadata.
  \<^descr> \<open>Http_Client\<close>, \<open>Connect_Race\<close> (\<^verbatim>\<open>client/layer/client.rs\<close>, \<^verbatim>\<open>lazy.rs\<close>): the innermost service, and its race for a
    connection, every step of which is a run of the pool system.
  \<^descr> \<open>Tcp_Connect\<close> (\<^verbatim>\<open>dns.rs\<close>, \<^verbatim>\<open>dns/resolve.rs\<close>, \<^verbatim>\<open>conn/http.rs\<close>, \<^verbatim>\<open>conn/net/tcp.rs\<close>): resolving a host and racing connection
    attempts to its addresses.  Both strategies are machines with one step per wake-up; the invariant of the race, and that
    connecting ends with a connection that was opened, the deadline, or the error of an address.
  \<^descr> \<open>Tls_Session\<close> (\<^verbatim>\<open>tls/session.rs\<close>): the session cache; a TLS 1.3 session is handed out at most as often as it was stored.
  \<^descr> \<open>Tls_Conn\<close> (\<^verbatim>\<open>tls.rs\<close>, \<^verbatim>\<open>tls/conn.rs\<close>, \<^verbatim>\<open>tls/conn/ext.rs\<close>): options, the calls that configure the TLS library, and the
    configuration of a handshake.
  \<^descr> \<open>Transport\<close> (\<^verbatim>\<open>conn/connector.rs\<close>, \<^verbatim>\<open>conn/proxy/\<close>, \<^verbatim>\<open>conn/timeout.rs\<close>, \<^verbatim>\<open>tls/conn/service.rs\<close>): the path to the origin,
    directly or through a proxy.  A stream is the value that records how it was made, so a theorem can say what lies between
    client and origin; it composes \<open>Tcp_Connect\<close>, \<open>Tls_Conn\<close> and \<open>Proxy_Matcher\<close>.
  \<^descr> \<open>Multipart\<close> (\<^verbatim>\<open>client/multipart.rs\<close>): forms, their parts and the encoding of both; the body can be split at the boundary
    into the parts it was made from, and the announced length is the length of the body.
  \<^descr> \<open>Request_Builder\<close> (\<^verbatim>\<open>client/request.rs\<close>, \<^verbatim>\<open>client/emulate.rs\<close>, the request methods of \<^verbatim>\<open>client.rs\<close>): every method of the
    builder, the extraction of credentials from the URI and the emulation profiles; every sequence of calls ends with a
    well-formed request or a builder error.
  \<^descr> \<open>Client_Builder\<close> (\<^verbatim>\<open>client.rs\<close>): the configuration, every method of \<^verbatim>\<open>ClientBuilder\<close> and \<^verbatim>\<open>build\<close>.  Unless a call switches it off, every
    \<^verbatim>\<open>https\<close> connection of a built client verifies certificate and host name.
  \<^descr> \<open>Client_Stack\<close> (\<^verbatim>\<open>client.rs\<close>, \<^verbatim>\<open>client/layer/decoder.rs\<close>, \<^verbatim>\<open>client/future.rs\<close>, \<^verbatim>\<open>client/response.rs\<close>): the services composed as \<^verbatim>\<open>build\<close>
    composes them.  The requests that leave the stack of a built client are bounded in number and carry credentials only
    at the origin of the caller's request; if the redirect policy decides at once they have an allowed scheme.  For
    \<^verbatim>\<open>Authorization\<close> the former is carried on to the requests handed to connections.
  \<^bold>\<open>Interfaces.\<close>  \<open>poolable_laws\<close> (what the pool relies on of a connection) is interpreted on \<^verbatim>\<open>PoolClient\<close>;
  \<open>cookie_storage\<close> and \<open>cookie_store_laws\<close> (what the jar relies on of its store) on the nested store.
  \<open>connecting_machine\<close> (a machine that is stepped until it returns, with an invariant and a measure of progress) is
  interpreted on the sequential and on the racing strategy of \<^verbatim>\<open>ConnectingTcp\<close>.
  \<^bold>\<open>Bounds.\<close>  The model functions are total.  The retry and redirect chains consume a list of answers of the
  world and the theorems hold for every list; recursion elsewhere is structural or has a termination proof.

  \<^bold>\<open>Not modelled.\<close>
  \<^item> \<^verbatim>\<open>tls/\<close> apart from what is named above: it forwards options to the TLS library.
  \<^item> The runtime adapter \<^verbatim>\<open>rt.rs\<close>, the tracing and verbose wrappers: they have no observable effect on requests.
  \<^item> The system proxy settings of macOS and Windows: calls of the operating system.
  \<^item> Encoding of HTTP frames and decompression: in other crates.
\<close>

end
